(* ===== verification/Prelude.thy ===== *)
theory Prelude
  imports Main "HOL-Library.Word"
begin

text \<open>
  What every component shares: the outcome of a C++ call (a value, an exception or a loop that
  never ends), the effect type of the code that threads the node's state through its calls, the
  two program logics over it (\<open>keeps\<close> for invariants, \<open>hoare\<close> for results), the two standard
  library containers the sources use (\<^verbatim>\<open>std::map\<close> as an ascending association list, the
  decimal text of \<^verbatim>\<open>std::to_string\<close>), and the collections of rewrite rules the component
  theories extend.
\<close>

named_theorems eff_simps \<open>unfolding of the effect combinators\<close>
named_theorems keeps_intros \<open>rules that build an invariant proof along a program\<close>
named_theorems frame_simps \<open>fields an operation leaves unchanged\<close>

section \<open>Machine types\<close>

text \<open>
  A \<^verbatim>\<open>boost::uuids::uuid\<close> is 16 bytes, compared byte by byte from the most significant one:
  the unsigned order on 128-bit words. \<^verbatim>\<open>unsigned short\<close> is 16 bits, \<^verbatim>\<open>std::size_t\<close>,
  \<^verbatim>\<open>long\<close> and the JSON integers are 64 bits.
\<close>

type_synonym uuid = "128 word"
type_synonym ushort = "16 word"
type_synonym size_t = "64 word"
type_synonym timestamp = "64 word"

abbreviation nil_uuid :: uuid where
  "nil_uuid \<equiv> 0"

section \<open>Outcomes and effects\<close>

datatype exn =
    Out_of_range
  | Not_of_kind
  | Bad_lexical_cast
  | Resolve_failure
  | Endpoint_failure
  | Bad_optional_access
  | Bad_address
  | Length_error
  | Bad_option
  | Undefined_behaviour

datatype 'a outcome = Ok 'a | Throw exn | Hang

type_synonym ('s, 'a) eff = "'s \<Rightarrow> 'a outcome \<times> 's"

definition return :: "'a \<Rightarrow> ('s, 'a) eff" where
  "return a = (\<lambda>s. (Ok a, s))"

definition bind_eff :: "('s, 'a) eff \<Rightarrow> ('a \<Rightarrow> ('s, 'b) eff) \<Rightarrow> ('s, 'b) eff" where
  "bind_eff m f = (\<lambda>s. case m s of
       (Ok a, s') \<Rightarrow> f a s'
     | (Throw e, s') \<Rightarrow> (Throw e, s')
     | (Hang, s') \<Rightarrow> (Hang, s'))"

definition lift_outcome :: "'a outcome \<Rightarrow> ('s, 'a) eff" where
  "lift_outcome r = (\<lambda>s. (r, s))"

definition gets :: "('s \<Rightarrow> 'a) \<Rightarrow> ('s, 'a) eff" where
  "gets f = (\<lambda>s. (Ok (f s), s))"

definition modify :: "('s \<Rightarrow> 's) \<Rightarrow> ('s, unit) eff" where
  "modify f = (\<lambda>s. (Ok (), f s))"

definition call :: "('s \<Rightarrow> 'a \<times> 's) \<Rightarrow> ('s, 'a) eff" where
  "call f = (\<lambda>s. case f s of (a, s') \<Rightarrow> (Ok a, s'))"

fun bind_outcome :: "'a outcome \<Rightarrow> ('a \<Rightarrow> 'b outcome) \<Rightarrow> 'b outcome" where
  "bind_outcome (Ok a) f = f a"
| "bind_outcome (Throw e) f = Throw e"
| "bind_outcome Hang f = Hang"

lemma return_apply [simp, eff_simps]: "return a s = (Ok a, s)"
  by (simp add: return_def)

lemma lift_outcome_apply [simp, eff_simps]: "lift_outcome r s = (r, s)"
  by (simp add: lift_outcome_def)

lemma gets_apply [simp, eff_simps]: "gets f s = (Ok (f s), s)"
  by (simp add: gets_def)

lemma modify_apply [simp, eff_simps]: "modify f s = (Ok (), f s)"
  by (simp add: modify_def)

lemma call_apply [simp, eff_simps]: "call f s = (Ok (fst (f s)), snd (f s))"
  by (simp add: call_def case_prod_beta)

lemma bind_eff_Ok [simp]: "m s = (Ok a, s') \<Longrightarrow> bind_eff m f s = f a s'"
  by (simp add: bind_eff_def)

lemma bind_eff_Throw [simp]: "m s = (Throw e, s') \<Longrightarrow> bind_eff m f s = (Throw e, s')"
  by (simp add: bind_eff_def)

lemma bind_eff_Hang [simp]: "m s = (Hang, s') \<Longrightarrow> bind_eff m f s = (Hang, s')"
  by (simp add: bind_eff_def)

lemma bind_eff_return [simp, eff_simps]: "bind_eff (return a) f = f a"
  by (rule ext) (simp add: bind_eff_def)

lemma bind_eff_gets [eff_simps]: "bind_eff (gets g) f s = f (g s) s"
  by simp

lemma bind_eff_modify [eff_simps]: "bind_eff (modify g) f s = f () (g s)"
  by simp

lemma bind_eff_call [eff_simps]: "bind_eff (call g) f s = f (fst (g s)) (snd (g s))"
  by simp

lemma bind_eff_lift [eff_simps]:
  "bind_eff (lift_outcome r) f s =
     (case r of Ok a \<Rightarrow> f a s | Throw e \<Rightarrow> (Throw e, s) | Hang \<Rightarrow> (Hang, s))"
  by (simp add: bind_eff_def split: outcome.splits)

lemma bind_eff_apply:
  "bind_eff m f s =
     (case fst (m s) of
        Ok a \<Rightarrow> f a (snd (m s)) | Throw e \<Rightarrow> (Throw e, snd (m s)) | Hang \<Rightarrow> (Hang, snd (m s)))"
  by (simp add: bind_eff_def split: prod.splits outcome.splits)

lemma bind_eff_assoc:
  "bind_eff (bind_eff m f) g = bind_eff m (\<lambda>a. bind_eff (f a) g)"
  by (rule ext) (simp add: bind_eff_def split: prod.splits outcome.splits)

lemma bind_eff_eq_Ok:
  "bind_eff m f s = (Ok b, t) \<longleftrightarrow> (\<exists>a s'. m s = (Ok a, s') \<and> f a s' = (Ok b, t))"
  by (simp add: bind_eff_def split: prod.splits outcome.splits)

section \<open>Invariants and results of effects\<close>

text \<open>
  \<open>keeps P m\<close>: the program leaves \<open>P\<close> true whichever way it ends, by returning or by an
  exception half way. \<open>hoare P m Q\<close>: from a state in \<open>P\<close> a normal return satisfies \<open>Q\<close>.
\<close>

definition keeps :: "('s \<Rightarrow> bool) \<Rightarrow> ('s, 'a) eff \<Rightarrow> bool" where
  "keeps P m \<longleftrightarrow> (\<forall>s. P s \<longrightarrow> P (snd (m s)))"

definition hoare :: "('s \<Rightarrow> bool) \<Rightarrow> ('s, 'a) eff \<Rightarrow> ('a \<Rightarrow> 's \<Rightarrow> bool) \<Rightarrow> bool" where
  "hoare P m Q \<longleftrightarrow> (\<forall>s. P s \<longrightarrow> (\<forall>a t. m s = (Ok a, t) \<longrightarrow> Q a t))"

lemma keepsD: "keeps P m \<Longrightarrow> P s \<Longrightarrow> P (snd (m s))"
  by (simp add: keeps_def)

lemma keepsI: "(\<And>s. P s \<Longrightarrow> P (snd (m s))) \<Longrightarrow> keeps P m"
  by (simp add: keeps_def)

lemma keeps_return [keeps_intros]: "keeps P (return a)"
  by (simp add: keeps_def)

lemma keeps_lift [keeps_intros]: "keeps P (lift_outcome r)"
  by (simp add: keeps_def)

lemma keeps_gets [keeps_intros]: "keeps P (gets f)"
  by (simp add: keeps_def)

lemma keeps_modify: "(\<And>s. P s \<Longrightarrow> P (f s)) \<Longrightarrow> keeps P (modify f)"
  by (simp add: keeps_def)

lemma keeps_call: "(\<And>s. P s \<Longrightarrow> P (snd (f s))) \<Longrightarrow> keeps P (call f)"
  by (simp add: keeps_def)

lemma keeps_bind [keeps_intros]:
  assumes m: "keeps P m" and f: "\<And>a. keeps P (f a)"
  shows "keeps P (bind_eff m f)"
proof (rule keepsI)
  fix s assume "P s"
  with m have "P (snd (m s))" by (rule keepsD)
  with f show "P (snd (bind_eff m f s))"
    by (auto simp: bind_eff_def keeps_def split: prod.splits outcome.splits)
qed

lemma keeps_if [keeps_intros]: "keeps P m \<Longrightarrow> keeps P n \<Longrightarrow> keeps P (if c then m else n)"
  by simp

lemma keeps_case_option [keeps_intros]:
  "keeps P m \<Longrightarrow> (\<And>x. keeps P (f x)) \<Longrightarrow> keeps P (case opt of None \<Rightarrow> m | Some x \<Rightarrow> f x)"
  by (cases opt) auto

lemma hoareD: "hoare P m Q \<Longrightarrow> P s \<Longrightarrow> m s = (Ok a, t) \<Longrightarrow> Q a t"
  by (simp add: hoare_def)

lemma hoareI: "(\<And>s a t. P s \<Longrightarrow> m s = (Ok a, t) \<Longrightarrow> Q a t) \<Longrightarrow> hoare P m Q"
  by (simp add: hoare_def)

lemma hoare_return: "(\<And>s. P s \<Longrightarrow> Q a s) \<Longrightarrow> hoare P (return a) Q"
  by (simp add: hoare_def)

lemma hoare_bind:
  assumes "hoare P m R" and "\<And>a. hoare (R a) (f a) Q"
  shows "hoare P (bind_eff m f) Q"
  using assms unfolding hoare_def bind_eff_eq_Ok by blast

section \<open>Standard library containers\<close>

text \<open>\<^verbatim>\<open>std::map\<close>: an association list with strictly ascending keys.\<close>

definition map_emplace :: "'k::linorder \<Rightarrow> 'v \<Rightarrow> ('k \<times> 'v) list \<Rightarrow> bool \<times> ('k \<times> 'v) list" where
  "map_emplace k v m =
     (case map_of m k of Some _ \<Rightarrow> (False, m) | None \<Rightarrow> (True, insort_key fst (k, v) m))"

definition map_erase :: "'k \<Rightarrow> ('k \<times> 'v) list \<Rightarrow> nat \<times> ('k \<times> 'v) list" where
  "map_erase k m = (length (filter (\<lambda>e. fst e = k) m), filter (\<lambda>e. fst e \<noteq> k) m)"

definition ascending :: "('k::linorder \<times> 'v) list \<Rightarrow> bool" where
  "ascending m \<longleftrightarrow> sorted (map fst m) \<and> distinct (map fst m)"

lemma ascending_Nil [simp]: "ascending []"
  by (simp add: ascending_def)

lemma map_of_insort_key:
  "k \<notin> fst ` set m \<Longrightarrow> map_of (insort_key fst (k, v) m) = (map_of m)(k \<mapsto> v)"
  by (induction m) (auto simp: fun_eq_iff)

lemma distinct_insort_key_fst:
  "k \<notin> fst ` set m \<Longrightarrow> distinct (map fst m) \<Longrightarrow> distinct (map fst (insort_key fst (k, v) m))"
  by (induction m) (auto simp: set_insort_key)

lemma map_emplace_fresh:
  "map_of m k = None \<Longrightarrow> map_emplace k v m = (True, insort_key fst (k, v) m)"
  by (simp add: map_emplace_def)

lemma map_emplace_taken: "map_of m k = Some u \<Longrightarrow> map_emplace k v m = (False, m)"
  by (simp add: map_emplace_def)

lemma fst_map_emplace: "fst (map_emplace k v m) \<longleftrightarrow> map_of m k = None"
  by (simp add: map_emplace_def split: option.splits)

lemma map_of_map_emplace:
  "map_of (snd (map_emplace k v m)) =
     (case map_of m k of Some _ \<Rightarrow> map_of m | None \<Rightarrow> (map_of m)(k \<mapsto> v))"
proof (cases "map_of m k")
  case None
  then have "k \<notin> fst ` set m" by (simp add: map_of_eq_None_iff)
  with None show ?thesis by (simp add: map_emplace_def map_of_insort_key)
qed (simp add: map_emplace_def)

lemma ascending_map_emplace: "ascending m \<Longrightarrow> ascending (snd (map_emplace k v m))"
  by (auto simp: map_emplace_def ascending_def map_of_eq_None_iff sorted_insort_key
      intro: distinct_insort_key_fst split: option.splits)

lemma map_of_map_erase: "map_of (snd (map_erase k m)) = (map_of m)(k := None)"
  by (induction m) (auto simp: map_erase_def fun_eq_iff)

lemma ascending_map_erase: "ascending m \<Longrightarrow> ascending (snd (map_erase k m))"
  by (induction m) (auto simp: map_erase_def ascending_def)

lemma map_erase_count: "fst (map_erase k m) > 0 \<longleftrightarrow> map_of m k \<noteq> None"
  by (induction m) (auto simp: map_erase_def)

text \<open>\<^verbatim>\<open>std::to_string\<close> on an unsigned integer: its decimal digits.\<close>

definition digit_char :: "nat \<Rightarrow> char" where
  "digit_char d = char_of (48 + d)"

fun decimal :: "nat \<Rightarrow> string" where
  "decimal n = (if n < 10 then [digit_char n] else decimal (n div 10) @ [digit_char (n mod 10)])"

declare decimal.simps [simp del]

definition digit_value :: "char \<Rightarrow> nat" where
  "digit_value c = of_char c - 48"

definition decimal_value :: "string \<Rightarrow> nat" where
  "decimal_value s = foldl (\<lambda>n c. 10 * n + digit_value c) 0 s"

lemma digit_value_char [simp]: "d < 10 \<Longrightarrow> digit_value (digit_char d) = d"
  by (simp add: digit_value_def digit_char_def)

lemma decimal_value_decimal [simp]: "decimal_value (decimal n) = n"
proof (induction n rule: decimal.induct)
  case (1 n)
  show ?case
  proof (cases "n < 10")
    case True
    then show ?thesis by (simp add: decimal.simps [of n] decimal_value_def)
  next
    case False
    with "1" have "decimal_value (decimal (n div 10)) = n div 10" by simp
    with False show ?thesis by (simp add: decimal.simps [of n] decimal_value_def)
  qed
qed

lemma decimal_inject: "decimal m = decimal n \<longleftrightarrow> m = n"
  by (metis decimal_value_decimal)

text \<open>\<^verbatim>\<open>c_str()\<close> read as a C string ends at the first NUL.\<close>

definition c_str :: "string \<Rightarrow> string" where
  "c_str s = takeWhile (\<lambda>c. c \<noteq> CHR 0x00) s"

lemma c_str_id: "CHR 0x00 \<notin> set s \<Longrightarrow> c_str s = s"
  by (auto simp: c_str_def takeWhile_eq_all_conv)

lemma concat_map_single:
  assumes "concat (map f xs) = [m]"
  shows "\<exists>us x vs. xs = us @ x # vs \<and> f x = [m]"
  using assms
proof (induction xs)
  case Nil
  then show ?case by simp
next
  case (Cons x xs)
  show ?case
  proof (cases "f x")
    case Nil
    with Cons obtain us y vs where "xs = us @ y # vs" "f y = [m]" by auto
    then have "x # xs = (x # us) @ y # vs \<and> f y = [m]" by simp
    then show ?thesis by blast
  next
    case (Cons k ks)
    with Cons.prems have "x # xs = [] @ x # xs \<and> f x = [m]" by simp
    then show ?thesis by blast
  qed
qed

end
