(* ===== verification/Boost_Interface.thy ===== *)
theory Boost_Interface
  imports Prelude
begin

text \<open>
  The program's view of what lies outside its sources. JSON documents are data: a datatype with
  the kinds of \<^verbatim>\<open>boost::json::value\<close>, an object being its members in insertion order. Text
  formats, random numbers, the clock, name resolution and the network are code or devices the
  repository only calls: the record \<open>boost\<close> holds them as functions, and every definition that
  uses one takes the record as an argument. What the program relies on is stated as the predicates
  at the end, which theorems name as hypotheses.
\<close>

section \<open>JSON documents\<close>

datatype json =
    JNull
  | JBool bool
  | JInt64 "64 word"
  | JUint64 "64 word"
  | JDouble "64 word"
  | JString string
  | JArray "json list"
  | JObject "(string \<times> json) list"

type_synonym json_object = "(string \<times> json) list"

definition contains :: "json_object \<Rightarrow> string \<Rightarrow> bool" where
  "contains obj key \<longleftrightarrow> map_of obj key \<noteq> None"

definition at :: "json_object \<Rightarrow> string \<Rightarrow> json outcome" where
  "at obj key = (case map_of obj key of Some v \<Rightarrow> Ok v | None \<Rightarrow> Throw Out_of_range)"

definition insert_or_assign :: "string \<Rightarrow> json \<Rightarrow> json_object \<Rightarrow> json_object" where
  "insert_or_assign key v obj =
     (if contains obj key then map (\<lambda>e. if fst e = key then (key, v) else e) obj
      else obj @ [(key, v)])"

fun is_string :: "json \<Rightarrow> bool" where
  "is_string (JString _) = True"
| "is_string _ = False"

fun is_object :: "json \<Rightarrow> bool" where
  "is_object (JObject _) = True"
| "is_object _ = False"

fun is_bool :: "json \<Rightarrow> bool" where
  "is_bool (JBool _) = True"
| "is_bool _ = False"

fun is_int64 :: "json \<Rightarrow> bool" where
  "is_int64 (JInt64 _) = True"
| "is_int64 _ = False"

fun is_number :: "json \<Rightarrow> bool" where
  "is_number (JInt64 _) = True"
| "is_number (JUint64 _) = True"
| "is_number (JDouble _) = True"
| "is_number _ = False"

fun as_string :: "json \<Rightarrow> string outcome" where
  "as_string (JString s) = Ok s"
| "as_string _ = Throw Not_of_kind"

fun as_object :: "json \<Rightarrow> json_object outcome" where
  "as_object (JObject obj) = Ok obj"
| "as_object _ = Throw Not_of_kind"

fun as_bool :: "json \<Rightarrow> bool outcome" where
  "as_bool (JBool x) = Ok x"
| "as_bool _ = Throw Not_of_kind"

fun as_int64 :: "json \<Rightarrow> 64 word outcome" where
  "as_int64 (JInt64 n) = Ok n"
| "as_int64 _ = Throw Not_of_kind"

lemma is_string_iff: "is_string v \<longleftrightarrow> (\<exists>s. v = JString s)"
  by (cases v) auto

lemma is_object_iff: "is_object v \<longleftrightarrow> (\<exists>obj. v = JObject obj)"
  by (cases v) auto

lemma is_bool_iff: "is_bool v \<longleftrightarrow> (\<exists>x. v = JBool x)"
  by (cases v) auto

lemma is_int64_iff: "is_int64 v \<longleftrightarrow> (\<exists>n. v = JInt64 n)"
  by (cases v) auto

lemmas kind_iffs = is_string_iff is_object_iff is_bool_iff is_int64_iff

fun_cases as_string_Ok: "as_string v = Ok s"
fun_cases as_object_Ok: "as_object v = Ok obj"
fun_cases as_bool_Ok: "as_bool v = Ok x"
fun_cases as_int64_Ok: "as_int64 v = Ok n"

lemmas as_kind_elims = as_string_Ok as_object_Ok as_bool_Ok as_int64_Ok

lemma at_Ok_iff [simp]: "at obj key = Ok v \<longleftrightarrow> map_of obj key = Some v"
  by (simp add: at_def split: option.splits)

lemma at_Throw_iff [simp]: "at obj key = Throw e \<longleftrightarrow> map_of obj key = None \<and> e = Out_of_range"
  by (auto simp: at_def split: option.splits)

lemma contains_iff: "contains obj key \<longleftrightarrow> (\<exists>v. map_of obj key = Some v)"
  by (auto simp: contains_def)

lemma map_of_assign:
  "map_of (map (\<lambda>e. if fst e = key then (key, v) else e) obj) k =
     (if k = key then map_option (\<lambda>_. v) (map_of obj key) else map_of obj k)"
  by (induction obj) auto

lemma map_of_insert_or_assign: "map_of (insert_or_assign key v obj) = (map_of obj)(key \<mapsto> v)"
  by (auto simp: insert_or_assign_def contains_def fun_eq_iff map_add_def map_of_assign
      split: option.splits)

section \<open>The libraries and devices the program calls\<close>

text \<open>
  \<open>string_generator\<close> is \<^verbatim>\<open>boost::uuids::string_generator\<close> (\<open>None\<close>: it throws),
  \<open>lexical_cast_uuid\<close> is \<^verbatim>\<open>boost::lexical_cast<uuid>\<close> (\<open>None\<close>: \<^verbatim>\<open>bad_lexical_cast\<close>):
  two different readers of a UUID's text. \<open>json_parse\<close> is \<open>None\<close> when \<^verbatim>\<open>boost::json::parse\<close>
  sets its error code. \<open>random_uuid n\<close> and \<open>clock_now n\<close> are the \<open>n\<close>-th identifier drawn and
  the \<open>n\<close>-th reading of \<^verbatim>\<open>system_clock\<close>. \<open>resolve host service\<close> is false when the resolver
  throws; \<open>connects host service k\<close> says whether the \<open>k\<close>-th \<^verbatim>\<open>asio::connect\<close> to the resolved
  endpoints succeeds.
\<close>

text \<open>
  \<open>make_address\<close> is false when \<^verbatim>\<open>asio::ip::make_address\<close> throws. \<open>acceptor address port\<close> is what
  setting up an acceptor on the endpoint gives: whether each of \<^verbatim>\<open>open\<close>, \<^verbatim>\<open>set_option\<close>,
  \<^verbatim>\<open>bind\<close> and \<^verbatim>\<open>listen\<close> succeeds, and the port of its local endpoint.
\<close>

record acceptor_setup =
  as_opens :: bool
  as_reuses :: bool
  as_binds :: bool
  as_listens :: bool
  as_port :: ushort

record boost =
  uuid_to_string :: "uuid \<Rightarrow> string"
  string_generator :: "string \<Rightarrow> uuid option"
  lexical_cast_uuid :: "string \<Rightarrow> uuid option"
  serialize :: "json \<Rightarrow> string"
  json_parse :: "string \<Rightarrow> json option"
  random_uuid :: "nat \<Rightarrow> uuid"
  clock_now :: "nat \<Rightarrow> timestamp"
  resolve :: "string \<Rightarrow> string \<Rightarrow> bool"
  connects :: "string \<Rightarrow> string \<Rightarrow> nat \<Rightarrow> bool"
  make_address :: "string \<Rightarrow> bool"
  acceptor :: "string \<Rightarrow> ushort \<Rightarrow> acceptor_setup"

text \<open>
  The documented relation of the UUID writer to the two readers: what \<^verbatim>\<open>to_string\<close> writes
  (36 characters, none of them NUL) both readers read back.
\<close>

definition uuid_text_ok :: "boost \<Rightarrow> bool" where
  "uuid_text_ok b \<longleftrightarrow> (\<forall>u. lexical_cast_uuid b (uuid_to_string b u) = Some u
     \<and> string_generator b (uuid_to_string b u) = Some u
     \<and> CHR 0x00 \<notin> set (uuid_to_string b u))"

lemma uuid_text_okD:
  assumes "uuid_text_ok b"
  shows "lexical_cast_uuid b (uuid_to_string b u) = Some u"
    and "string_generator b (uuid_to_string b u) = Some u"
    and "c_str (uuid_to_string b u) = uuid_to_string b u"
  using assms by (auto simp: uuid_text_ok_def intro: c_str_id)

text \<open>
  A text one reader accepts and the other refuses makes the program's validation pass and its
  extraction throw. \<open>readers_agree\<close> says that a text is not of that sort.
\<close>

definition readers_agree :: "boost \<Rightarrow> string \<Rightarrow> bool" where
  "readers_agree b s \<longleftrightarrow>
     (string_generator b (c_str s) \<noteq> None \<longrightarrow> lexical_cast_uuid b s \<noteq> None)"

lemma readers_agree_to_string: "uuid_text_ok b \<Longrightarrow> readers_agree b (uuid_to_string b u)"
  by (simp add: readers_agree_def uuid_text_okD)

end
