(* ===== verification/Response.thy ===== *)
theory Response
  imports Boost_Interface
begin

text \<open>
  The response object (\<^verbatim>\<open>response.hpp\<close>, \<^verbatim>\<open>response.cpp\<close>): three flags and the JSON object
  that is sent back. \<open>mark_as_failed\<close> and \<open>set_data\<close> take the reading of the clock the C++ does
  inside them as the argument \<open>now\<close>. The lemmas at the end give the members of the two documents
  the class can build, which is what the protocol theorems are about.
\<close>

record response =
  rs_failed :: bool
  rs_processed :: bool
  rs_is_ack :: bool
  rs_data :: json_object

definition new_response :: response where
  "new_response = \<lparr>rs_failed = False, rs_processed = False, rs_is_ack = False, rs_data = []\<rparr>"

definition get_failed :: "response \<Rightarrow> bool" where
  "get_failed r = rs_failed r"

definition get_processed :: "response \<Rightarrow> bool" where
  "get_processed r = rs_processed r"

definition is_ack :: "response \<Rightarrow> bool" where
  "is_ack r = rs_is_ack r"

definition mark_as_ack :: "response \<Rightarrow> response" where
  "mark_as_ack r = r\<lparr>rs_is_ack := True\<rparr>"

definition get_data :: "response \<Rightarrow> json_object" where
  "get_data r = rs_data r"

definition mark_as_failed ::
    "boost \<Rightarrow> timestamp \<Rightarrow> uuid \<Rightarrow> string \<Rightarrow> timestamp \<Rightarrow> (string \<times> string) list \<Rightarrow> response \<Rightarrow> response" where
  "mark_as_failed b now transaction_id error timestamp bag r =
     (let runtime = now - timestamp;
          data = fold (\<lambda>(key, entry) d. insert_or_assign key (JString entry) d) bag []
      in if transaction_id \<noteq> nil_uuid then
           r\<lparr>rs_failed := True,
             rs_data := [(''transaction_id'', JString (uuid_to_string b transaction_id)),
                         (''action'', JString ''ack''),
                         (''status'', JString ''failed''),
                         (''message'', JString error),
                         (''data'', JObject data),
                         (''timestamp'', JInt64 timestamp),
                         (''runtime'', JInt64 runtime)]\<rparr>
         else
           r\<lparr>rs_failed := True,
             rs_data := [(''transaction_id'', JNull),
                         (''action'', JString ''ack''),
                         (''status'', JString ''failed''),
                         (''message'', JString error),
                         (''data'', JObject data),
                         (''timestamp'', JInt64 timestamp),
                         (''runtime'', JInt64 runtime)]\<rparr>)"

definition mark_as_processed :: "response \<Rightarrow> response" where
  "mark_as_processed r = r\<lparr>rs_processed := True\<rparr>"

definition set_data ::
    "boost \<Rightarrow> timestamp \<Rightarrow> uuid \<Rightarrow> string \<Rightarrow> timestamp \<Rightarrow> json_object \<Rightarrow> response \<Rightarrow> response" where
  "set_data b now transaction_id message timestamp data r =
     (let runtime = now - timestamp
      in r\<lparr>rs_data := [(''transaction_id'', JString (uuid_to_string b transaction_id)),
                       (''action'', JString ''ack''),
                       (''status'', JString ''success''),
                       (''message'', JString message),
                       (''timestamp'', JInt64 timestamp),
                       (''runtime'', JInt64 runtime),
                       (''data'', JObject data)]\<rparr>)"

section \<open>The documents a response can carry\<close>

text \<open>
  \<open>failed_document\<close> and \<open>success_document\<close> are the protocol's promise, over the members of
  the object and not their order: an acknowledgement with the transaction's identifier, the
  outcome, a message and the detail.
\<close>

definition acknowledges :: "json \<Rightarrow> string \<Rightarrow> string \<Rightarrow> json_object \<Rightarrow> json_object \<Rightarrow> bool" where
  "acknowledges tid status message detail doc \<longleftrightarrow>
     map_of doc ''transaction_id'' = Some tid \<and>
     map_of doc ''action'' = Some (JString ''ack'') \<and>
     map_of doc ''status'' = Some (JString status) \<and>
     map_of doc ''message'' = Some (JString message) \<and>
     map_of doc ''data'' = Some (JObject detail)"

definition failed_document :: "json \<Rightarrow> string \<Rightarrow> string \<Rightarrow> json_object \<Rightarrow> bool" where
  "failed_document tid field argument doc \<longleftrightarrow>
     acknowledges tid ''failed'' ''unprocessable entity'' [(field, JString argument)] doc"

lemma set_data_document:
  "acknowledges (JString (uuid_to_string b tid)) ''success'' message data
     (rs_data (set_data b now tid message ts data r))"
  by (simp add: acknowledges_def set_data_def Let_def)

lemma mark_as_failed_document:
  "failed_document (if tid = nil_uuid then JNull else JString (uuid_to_string b tid)) field argument
     (rs_data (mark_as_failed b now tid ''unprocessable entity'' ts [(field, argument)] r))"
  by (simp add: failed_document_def acknowledges_def mark_as_failed_def Let_def
      insert_or_assign_def contains_def)

lemma set_data_flags [simp]:
  "rs_failed (set_data b now tid message ts data r) = rs_failed r"
  "rs_processed (set_data b now tid message ts data r) = rs_processed r"
  "rs_is_ack (set_data b now tid message ts data r) = rs_is_ack r"
  by (simp_all add: set_data_def Let_def)

lemma mark_as_failed_flags [simp]:
  "rs_failed (mark_as_failed b now tid error ts bag r)"
  "rs_processed (mark_as_failed b now tid error ts bag r) = rs_processed r"
  "rs_is_ack (mark_as_failed b now tid error ts bag r) = rs_is_ack r"
  by (simp_all add: mark_as_failed_def Let_def)

end
