(* ===== verification/World.thy ===== *)
theory World
  imports Response
begin

text \<open>
  The data of a node: the configuration (\<^verbatim>\<open>config.hpp\<close>), the members of \<^verbatim>\<open>session\<close>,
  \<^verbatim>\<open>client\<close>, \<^verbatim>\<open>subscription\<close>, \<^verbatim>\<open>state\<close> and \<^verbatim>\<open>request\<close>, and the \<open>world\<close> the code runs in.

  Sessions and clients live behind \<^verbatim>\<open>std::shared_ptr\<close>. A pointer is modelled by the object's
  address together with the members that never change after construction (the identifiers and
  \<^verbatim>\<open>is_local_\<close>); the members that change (ports, host, flags, socket, queue) are kept in a
  store from addresses to objects, so that an update through one pointer is seen through all.
  The websocket is reduced to what the sources ask of it, whether it is open. An asynchronous
  call or a posted task is an entry of \<open>w_pending\<close>, in the order the calls were made.
\<close>

datatype kernel_context = On_session | On_client

datatype session_context = Local | Remote

instantiation kernel_context :: enum
begin

definition "enum_kernel_context = [On_session, On_client]"

definition "enum_all_kernel_context P \<longleftrightarrow> P On_session \<and> P On_client"

definition "enum_ex_kernel_context P \<longleftrightarrow> P On_session \<or> P On_client"

instance
proof
  show "UNIV = set (enum_class.enum :: kernel_context list)"
    by (auto simp: enum_kernel_context_def intro: kernel_context.exhaust)
  show "distinct (enum_class.enum :: kernel_context list)"
    by (simp add: enum_kernel_context_def)
  fix P :: "kernel_context \<Rightarrow> bool"
  show "enum_class.enum_all P = Ball UNIV P"
    by (auto simp: enum_all_kernel_context_def) (metis kernel_context.exhaust)
  show "enum_class.enum_ex P = Bex UNIV P"
    by (auto simp: enum_ex_kernel_context_def) (metis kernel_context.exhaust)
qed

end

record config =
  cfg_address :: string
  cfg_sessions_port :: ushort
  cfg_clients_port :: ushort
  cfg_is_node :: bool
  cfg_remote_address :: string
  cfg_remote_sessions_port :: ushort
  cfg_remote_clients_port :: ushort
  cfg_threads :: ushort
  cfg_registered :: bool
  cfg_repl_enabled :: bool

definition default_config :: config where
  "default_config =
     \<lparr>cfg_address = ''0.0.0.0'', cfg_sessions_port = 11000, cfg_clients_port = 12000,
      cfg_is_node = False, cfg_remote_address = ''127.0.0.1'', cfg_remote_sessions_port = 9000,
      cfg_remote_clients_port = 10000, cfg_threads = 1, cfg_registered = False,
      cfg_repl_enabled = True\<rparr>"

record session =
  ses_addr :: nat
  ses_id :: uuid

record session_obj =
  so_sessions_port :: ushort
  so_clients_port :: ushort
  so_host :: string
  so_registered :: bool
  so_open :: bool
  so_queue :: "string list"

record client =
  cl_addr :: nat
  cl_id :: uuid
  cl_session_id :: uuid
  cl_is_local :: bool

record client_obj =
  co_socket :: "bool option"
  co_queue :: "string list"

record subscription =
  sub_session_id :: uuid
  sub_client_id :: uuid
  sub_channel :: string

record request =
  rq_transaction_id :: uuid
  rq_entity_id :: uuid
  rq_context :: kernel_context
  rq_data :: json_object
  rq_timestamp :: timestamp
  rq_is_local :: bool

datatype op =
    Session_on_run session session_context
  | Session_accept session session_context
  | Session_handshake session string session_context
  | Session_read session
  | Session_on_send session string
  | Session_write session string
  | Client_accept client timestamp
  | Client_read client
  | Client_on_send client string
  | Client_write client string
  | Listener_accept_session
  | Listener_accept_client
  | Repl_read
  | Repl_write string

text \<open>
  \<open>state\<close> has the members of the class \<^verbatim>\<open>aewt::state\<close>. \<open>st_sessions\<close> is the \<^verbatim>\<open>std::map\<close>;
  \<open>st_clients\<close> and \<open>st_subscriptions\<close> are the two \<^verbatim>\<open>multi_index_container\<close>s, as the list of
  their elements in insertion order (theory \<open>Containers\<close>). \<open>world\<close> adds the store, the addresses
  used, the sessions not yet destroyed, the response of the kernel call in progress, the positions
  reached in the random numbers, the clock and the connection attempts, the pending operations,
  the input buffer of the console and the lines printed.
\<close>

record state =
  st_id :: uuid
  st_created_at :: timestamp
  st_config :: config
  st_sessions :: "(uuid \<times> session) list"
  st_clients :: "client list"
  st_subscriptions :: "subscription list"

record world = state +
  w_session_objs :: "nat \<Rightarrow> session_obj"
  w_client_objs :: "nat \<Rightarrow> client_obj"
  w_next_addr :: nat
  w_live_sessions :: "session list"
  w_response :: response
  w_random :: nat
  w_clock :: nat
  w_attempts :: nat
  w_pending :: "op list"
  w_input :: string
  w_output :: "string list"

type_synonym 'a eff_w = "(world, 'a) eff"

section \<open>Devices\<close>

definition read_clock :: "boost \<Rightarrow> world \<Rightarrow> timestamp \<times> world" where
  "read_clock b w = (clock_now b (w_clock w), w\<lparr>w_clock := Suc (w_clock w)\<rparr>)"

definition draw_uuid :: "boost \<Rightarrow> world \<Rightarrow> uuid \<times> world" where
  "draw_uuid b w = (random_uuid b (w_random w), w\<lparr>w_random := Suc (w_random w)\<rparr>)"

definition initiate :: "op \<Rightarrow> world \<Rightarrow> world" where
  "initiate x w = w\<lparr>w_pending := w_pending w @ [x]\<rparr>"

definition session_obj_of :: "world \<Rightarrow> session \<Rightarrow> session_obj" where
  "session_obj_of w s = w_session_objs w (ses_addr s)"

definition update_session :: "session \<Rightarrow> (session_obj \<Rightarrow> session_obj) \<Rightarrow> world \<Rightarrow> world" where
  "update_session s f w =
     w\<lparr>w_session_objs := (w_session_objs w)(ses_addr s := f (w_session_objs w (ses_addr s)))\<rparr>"

definition client_obj_of :: "world \<Rightarrow> client \<Rightarrow> client_obj" where
  "client_obj_of w c = w_client_objs w (cl_addr c)"

definition update_client :: "client \<Rightarrow> (client_obj \<Rightarrow> client_obj) \<Rightarrow> world \<Rightarrow> world" where
  "update_client c f w =
     w\<lparr>w_client_objs := (w_client_objs w)(cl_addr c := f (w_client_objs w (cl_addr c)))\<rparr>"

lemmas device_defs = read_clock_def draw_uuid_def initiate_def session_obj_of_def
  update_session_def client_obj_of_def update_client_def

text \<open>The members of the class \<^verbatim>\<open>state\<close> no device touches.\<close>

lemma state_of_devices [frame_simps, simp]:
  "state.truncate (snd (read_clock b w)) = state.truncate w"
  "state.truncate (snd (draw_uuid b w)) = state.truncate w"
  "state.truncate (initiate x w) = state.truncate w"
  "state.truncate (update_session s f w) = state.truncate w"
  "state.truncate (update_client c g w) = state.truncate w"
  by (simp_all add: device_defs state.truncate_def)

end
