(* ===== verification/Containers.thy ===== *)
theory Containers
  imports World "HOL-Library.Multiset"
begin

text \<open>
  The two \<^verbatim>\<open>boost::multi_index_container\<close>s of \<^verbatim>\<open>clients.hpp\<close> and \<^verbatim>\<open>subscriptions.hpp\<close>. What
  the headers decide is which keys exist and which of them are unique; the container keeps the
  elements, refuses an insertion that any unique index bans, and offers each index as a view in
  ascending key order, equal keys in insertion order. The model is the list of elements in
  insertion order: an index is the stable sort by its key, an insertion is refused when an element
  conflicts with the new one on a unique key.

  The locale \<open>container\<close> is the contract the class \<^verbatim>\<open>state\<close> relies on; it is interpreted on
  both containers at the end.
\<close>

section \<open>Operations of a container\<close>

definition mi_insert :: "('a \<Rightarrow> 'a \<Rightarrow> bool) \<Rightarrow> 'a \<Rightarrow> 'a list \<Rightarrow> bool \<times> 'a list" where
  "mi_insert conflict x c = (if list_ex (\<lambda>y. conflict y x) c then (False, c) else (True, c @ [x]))"

definition mi_index :: "('a \<Rightarrow> 'k::linorder) \<Rightarrow> 'a list \<Rightarrow> 'a list" where
  "mi_index key c = sort_key key c"

definition mi_equal_range :: "('a \<Rightarrow> 'k) \<Rightarrow> 'k \<Rightarrow> 'a list \<Rightarrow> 'a list" where
  "mi_equal_range key k c = filter (\<lambda>x. key x = k) c"

definition mi_find :: "('a \<Rightarrow> 'k) \<Rightarrow> 'k \<Rightarrow> 'a list \<Rightarrow> 'a option" where
  "mi_find key k c = (case mi_equal_range key k c of [] \<Rightarrow> None | x # _ \<Rightarrow> Some x)"

definition mi_erase_range :: "('a \<Rightarrow> 'k) \<Rightarrow> 'k \<Rightarrow> 'a list \<Rightarrow> 'a list" where
  "mi_erase_range key k c = filter (\<lambda>x. key x \<noteq> k) c"

text \<open>An equal range read off the ordered view is the one read off the insertion order.\<close>

lemma mi_equal_range_index: "filter (\<lambda>x. key x = k) (mi_index key c) = mi_equal_range key k c"
  by (simp add: mi_index_def mi_equal_range_def sort_key_stable)

lemma mset_mi_index [simp]: "mset (mi_index key c) = mset c"
  by (simp add: mi_index_def)

lemma set_mi_index [simp]: "set (mi_index key c) = set c"
  by (simp add: mi_index_def)

lemma length_mi_index [simp]: "length (mi_index key c) = length c"
  by (simp add: mi_index_def)

lemma distinct_mi_index [simp]: "distinct (mi_index key c) = distinct c"
  by (simp add: mi_index_def)

lemma set_mi_equal_range [simp]: "set (mi_equal_range key k c) = {x \<in> set c. key x = k}"
  by (simp add: mi_equal_range_def)

lemma set_mi_erase_range [simp]: "set (mi_erase_range key k c) = {x \<in> set c. key x \<noteq> k}"
  by (simp add: mi_erase_range_def)

lemma mi_find_eq: "mi_find key k c = List.find (\<lambda>x. key x = k) c"
  by (induction c) (auto simp: mi_find_def mi_equal_range_def)

lemma mi_find_None: "mi_find key k c = None \<longleftrightarrow> k \<notin> key ` set c"
  by (auto simp: mi_find_eq find_None_iff)

lemma mi_find_Some: "mi_find key k c = Some x \<Longrightarrow> x \<in> set c \<and> key x = k"
  by (auto simp: mi_find_eq find_Some_iff)

lemma mi_find_append: "mi_find key k (c @ [x]) =
    (case mi_find key k c of Some y \<Rightarrow> Some y | None \<Rightarrow> if key x = k then Some x else None)"
  by (auto simp: mi_find_def mi_equal_range_def split: list.splits)

lemma mi_find_erase_range: "mi_find key k (mi_erase_range key k c) = None"
  by (auto simp: mi_find_None)

text \<open>No two elements conflict: what the unique indices maintain.\<close>

definition conflict_free :: "('a \<Rightarrow> 'a \<Rightarrow> bool) \<Rightarrow> 'a list \<Rightarrow> bool" where
  "conflict_free conflict c \<longleftrightarrow> sorted_wrt (\<lambda>x y. \<not> conflict x y) c"

section \<open>The contract of a container\<close>

locale container =
  fixes conflict :: "'a \<Rightarrow> 'a \<Rightarrow> bool"
    and insert_elem :: "'a \<Rightarrow> 'a list \<Rightarrow> bool \<times> 'a list"
  assumes conflict_refl: "conflict x x"
    and conflict_sym: "conflict x y \<Longrightarrow> conflict y x"
    and insert_accepts: "(\<And>y. y \<in> set c \<Longrightarrow> \<not> conflict y x) \<Longrightarrow> insert_elem x c = (True, c @ [x])"
    and insert_refuses: "y \<in> set c \<Longrightarrow> conflict y x \<Longrightarrow> insert_elem x c = (False, c)"
begin

lemma insert_cases:
  obtains (accepted) "\<forall>y\<in>set c. \<not> conflict y x" "insert_elem x c = (True, c @ [x])"
  | (refused) y where "y \<in> set c" "conflict y x" "insert_elem x c = (False, c)"
  using insert_accepts insert_refuses by blast

lemma insert_iff: "fst (insert_elem x c) \<longleftrightarrow> (\<forall>y\<in>set c. \<not> conflict y x)"
  by (cases rule: insert_cases [of c x]) auto

lemma set_insert: "set (snd (insert_elem x c)) = (if fst (insert_elem x c) then insert x (set c) else set c)"
  by (cases rule: insert_cases [of c x]) auto

lemma length_insert: "length (snd (insert_elem x c)) = (if fst (insert_elem x c) then Suc (length c) else length c)"
  by (cases rule: insert_cases [of c x]) auto

lemma insert_conflict_free:
  "conflict_free conflict c \<Longrightarrow> conflict_free conflict (snd (insert_elem x c))"
  by (cases rule: insert_cases [of c x]) (auto simp: conflict_free_def sorted_wrt_append)

lemma insert_again: "insert_elem x (snd (insert_elem x c)) = (False, snd (insert_elem x c))"
proof (cases rule: insert_cases [of c x])
  case accepted
  then show ?thesis using insert_refuses [of x "c @ [x]" x] conflict_refl by simp
next
  case (refused y)
  then show ?thesis by simp
qed

lemma filter_conflict_free:
  "conflict_free conflict c \<Longrightarrow> conflict_free conflict (filter p c)"
  by (simp add: conflict_free_def sorted_wrt_filter)

lemma conflict_free_unique:
  "conflict_free conflict c \<Longrightarrow> x \<in> set c \<Longrightarrow> y \<in> set c \<Longrightarrow> conflict x y \<Longrightarrow> x = y"
  by (induction c) (auto simp: conflict_free_def dest: conflict_sym)

lemma conflict_free_distinct: "conflict_free conflict c \<Longrightarrow> distinct c"
  by (induction c) (auto simp: conflict_free_def conflict_refl)

end

section \<open>Clients and subscriptions\<close>

text \<open>
  \<^verbatim>\<open>clients\<close>: non-unique by session, unique by client, unique by client and session.
  \<^verbatim>\<open>subscriptions\<close>: unique by session, client and channel only.
\<close>

definition client_conflict :: "client \<Rightarrow> client \<Rightarrow> bool" where
  "client_conflict x y \<longleftrightarrow>
     cl_id x = cl_id y \<or> (cl_id x, cl_session_id x) = (cl_id y, cl_session_id y)"

definition subscription_conflict :: "subscription \<Rightarrow> subscription \<Rightarrow> bool" where
  "subscription_conflict x y \<longleftrightarrow>
     (sub_session_id x, sub_client_id x, sub_channel x) = (sub_session_id y, sub_client_id y, sub_channel y)"

definition clients_insert :: "client \<Rightarrow> client list \<Rightarrow> bool \<times> client list" where
  "clients_insert = mi_insert client_conflict"

definition subscriptions_insert :: "subscription \<Rightarrow> subscription list \<Rightarrow> bool \<times> subscription list" where
  "subscriptions_insert = mi_insert subscription_conflict"

lemma client_conflict_iff: "client_conflict x y \<longleftrightarrow> cl_id x = cl_id y"
  by (auto simp: client_conflict_def)

lemma subscription_conflict_iff: "subscription_conflict x y \<longleftrightarrow> x = y"
  by (auto simp: subscription_conflict_def)

lemma mi_insert_container:
  assumes "\<And>x. conflict x x" and "\<And>x y. conflict x y \<Longrightarrow> conflict y x"
  shows "container conflict (mi_insert conflict)"
  using assms by unfold_locales (auto simp: mi_insert_def list_ex_iff)

interpretation cls: container client_conflict clients_insert
  unfolding clients_insert_def
  by (rule mi_insert_container) (auto simp: client_conflict_iff)

interpretation subs: container subscription_conflict subscriptions_insert
  unfolding subscriptions_insert_def
  by (rule mi_insert_container) (auto simp: subscription_conflict_iff)

text \<open>The two instances in the terms of the sources.\<close>

lemma clients_insert_eq:
  "clients_insert x c = (if cl_id x \<in> cl_id ` set c then (False, c) else (True, c @ [x]))"
proof (cases rule: cls.insert_cases [of c x])
  case accepted
  then have "cl_id x \<notin> cl_id ` set c" by (auto simp: client_conflict_iff)
  with accepted show ?thesis by simp
next
  case (refused y)
  then have "cl_id x \<in> cl_id ` set c" by (metis client_conflict_iff imageI)
  with refused show ?thesis by simp
qed

lemma clients_insert_iff: "fst (clients_insert x c) \<longleftrightarrow> cl_id x \<notin> cl_id ` set c"
  by (simp add: clients_insert_eq)

lemma subscriptions_insert_eq:
  "subscriptions_insert x c = (if x \<in> set c then (False, c) else (True, c @ [x]))"
  by (cases rule: subs.insert_cases [of c x]) (auto simp: subscription_conflict_iff)

lemma clients_conflict_free_iff: "conflict_free client_conflict c \<longleftrightarrow> distinct (map cl_id c)"
  by (induction c) (auto simp: conflict_free_def client_conflict_iff)

lemma subscriptions_conflict_free_iff: "conflict_free subscription_conflict c \<longleftrightarrow> distinct c"
  by (induction c) (auto simp: conflict_free_def subscription_conflict_iff)

end
