(* ===== verification/Objects.thy ===== *)
theory Objects
  imports Containers
begin

text \<open>
  The classes \<^verbatim>\<open>session\<close> and \<^verbatim>\<open>client\<close> as the rest of the program uses them: construction,
  members, \<^verbatim>\<open>run\<close> and \<^verbatim>\<open>send\<close> (\<^verbatim>\<open>session.cpp\<close>, \<^verbatim>\<open>client.cpp\<close>). The callbacks of their
  asynchronous operations are in \<open>Connections\<close>. Sending only appends posted tasks: the lemmas
  give every send loop of the program the normal form "append the deliveries to the pending
  operations".
\<close>

section \<open>Sessions\<close>

definition new_session :: "uuid \<Rightarrow> world \<Rightarrow> session \<times> world" where
  "new_session uid w =
     (let s = \<lparr>ses_addr = w_next_addr w, ses_id = uid\<rparr>
      in (s, w\<lparr>w_next_addr := Suc (w_next_addr w),
               w_session_objs := (w_session_objs w)(w_next_addr w :=
                 \<lparr>so_sessions_port = 0, so_clients_port = 0, so_host = '''', so_registered = False,
                  so_open = False, so_queue = []\<rparr>),
               w_live_sessions := w_live_sessions w @ [s]\<rparr>))"

definition make_session :: "boost \<Rightarrow> world \<Rightarrow> session \<times> world" where
  "make_session b w = (let (uid, w') = draw_uuid b w in new_session uid w')"

definition get_sessions_port :: "world \<Rightarrow> session \<Rightarrow> ushort" where
  "get_sessions_port w s = so_sessions_port (session_obj_of w s)"

definition set_sessions_port :: "session \<Rightarrow> ushort \<Rightarrow> world \<Rightarrow> world" where
  "set_sessions_port s port w = update_session s (\<lambda>x. x\<lparr>so_sessions_port := port\<rparr>) w"

definition get_clients_port :: "world \<Rightarrow> session \<Rightarrow> ushort" where
  "get_clients_port w s = so_clients_port (session_obj_of w s)"

definition set_clients_port :: "session \<Rightarrow> ushort \<Rightarrow> world \<Rightarrow> world" where
  "set_clients_port s port w = update_session s (\<lambda>x. x\<lparr>so_clients_port := port\<rparr>) w"

definition get_host :: "world \<Rightarrow> session \<Rightarrow> string" where
  "get_host w s = so_host (session_obj_of w s)"

definition set_host :: "session \<Rightarrow> string \<Rightarrow> world \<Rightarrow> world" where
  "set_host s host w = update_session s (\<lambda>x. x\<lparr>so_host := host\<rparr>) w"

definition mark_as_registered :: "session \<Rightarrow> world \<Rightarrow> world" where
  "mark_as_registered s w = update_session s (\<lambda>x. x\<lparr>so_registered := True\<rparr>) w"

definition get_registered :: "world \<Rightarrow> session \<Rightarrow> bool" where
  "get_registered w s = so_registered (session_obj_of w s)"

definition session_open :: "world \<Rightarrow> session \<Rightarrow> bool" where
  "session_open w s = so_open (session_obj_of w s)"

definition session_send :: "session \<Rightarrow> string \<Rightarrow> world \<Rightarrow> world" where
  "session_send s data w = (if session_open w s then initiate (Session_on_send s data) w else w)"

definition session_run :: "session \<Rightarrow> session_context \<Rightarrow> world \<Rightarrow> world" where
  "session_run s ctx w = initiate (Session_on_run s ctx) w"

section \<open>Clients\<close>

definition new_client :: "uuid \<Rightarrow> uuid \<Rightarrow> world \<Rightarrow> client \<times> world" where
  "new_client session_id uid w =
     (let c = \<lparr>cl_addr = w_next_addr w, cl_id = uid, cl_session_id = session_id,
               cl_is_local = (st_id w = session_id)\<rparr>
      in (c, w\<lparr>w_next_addr := Suc (w_next_addr w),
               w_client_objs := (w_client_objs w)(w_next_addr w := \<lparr>co_socket = None, co_queue = []\<rparr>)\<rparr>))"

definition make_client :: "boost \<Rightarrow> uuid \<Rightarrow> world \<Rightarrow> client \<times> world" where
  "make_client b session_id w = (let (uid, w') = draw_uuid b w in new_client session_id uid w')"

definition set_socket :: "client \<Rightarrow> world \<Rightarrow> world" where
  "set_socket c w = update_client c (\<lambda>x. x\<lparr>co_socket := Some False\<rparr>) w"

definition client_open :: "world \<Rightarrow> client \<Rightarrow> bool" where
  "client_open w c = (co_socket (client_obj_of w c) = Some True)"

definition client_run :: "boost \<Rightarrow> client \<Rightarrow> world \<Rightarrow> world" where
  "client_run b c w =
     (let (run_at, w') = read_clock b w
      in case co_socket (client_obj_of w' c) of
           Some _ \<Rightarrow> initiate (Client_accept c run_at) w'
         | None \<Rightarrow> w')"

definition client_send :: "client \<Rightarrow> string \<Rightarrow> world \<Rightarrow> world" where
  "client_send c data w =
     (case co_socket (client_obj_of w c) of
        Some is_open \<Rightarrow> if is_open then initiate (Client_on_send c data) w else w
      | None \<Rightarrow> w)"

section \<open>Sending appends deliveries\<close>

definition post :: "op list \<Rightarrow> world \<Rightarrow> world" where
  "post xs w = w\<lparr>w_pending := w_pending w @ xs\<rparr>"

definition session_deliveries :: "world \<Rightarrow> session list \<Rightarrow> string \<Rightarrow> op list" where
  "session_deliveries w ss m = map (\<lambda>s. Session_on_send s m) (filter (session_open w) ss)"

definition client_deliveries :: "world \<Rightarrow> client list \<Rightarrow> string \<Rightarrow> op list" where
  "client_deliveries w cs m = map (\<lambda>c. Client_on_send c m) (filter (client_open w) cs)"

lemma post_Nil [simp]: "post [] w = w"
  by (simp add: post_def)

lemma post_post [simp]: "post ys (post xs w) = post (xs @ ys) w"
  by (simp add: post_def)

lemma initiate_post: "initiate x w = post [x] w"
  by (simp add: initiate_def post_def)

lemma post_frame [simp, frame_simps]:
  "state.truncate (post xs w) = state.truncate w"
  "st_id (post xs w) = st_id w"
  "st_created_at (post xs w) = st_created_at w"
  "st_config (post xs w) = st_config w"
  "st_sessions (post xs w) = st_sessions w"
  "st_clients (post xs w) = st_clients w"
  "st_subscriptions (post xs w) = st_subscriptions w"
  "w_session_objs (post xs w) = w_session_objs w"
  "w_client_objs (post xs w) = w_client_objs w"
  "w_next_addr (post xs w) = w_next_addr w"
  "w_live_sessions (post xs w) = w_live_sessions w"
  "w_response (post xs w) = w_response w"
  "w_random (post xs w) = w_random w"
  "w_clock (post xs w) = w_clock w"
  "w_attempts (post xs w) = w_attempts w"
  "w_pending (post xs w) = w_pending w @ xs"
  "session_open (post xs w) = session_open w"
  "client_open (post xs w) = client_open w"
  by (simp_all add: post_def state.truncate_def fun_eq_iff session_open_def client_open_def
      session_obj_of_def client_obj_of_def)

lemma session_deliveries_post [simp]:
  "session_deliveries (post xs w) ss m = session_deliveries w ss m"
  by (simp add: session_deliveries_def)

lemma client_deliveries_post [simp]:
  "client_deliveries (post xs w) cs m = client_deliveries w cs m"
  by (simp add: client_deliveries_def)

lemma session_send_post: "session_send s m w = post (session_deliveries w [s] m) w"
  by (simp add: session_send_def session_deliveries_def initiate_post)

lemma client_send_post: "client_send c m w = post (client_deliveries w [c] m) w"
  by (auto simp: client_send_def client_deliveries_def client_open_def initiate_post split: option.splits)

lemma session_deliveries_Cons:
  "session_deliveries w (s # ss) m = session_deliveries w [s] m @ session_deliveries w ss m"
  by (simp add: session_deliveries_def)

lemma client_deliveries_Cons:
  "client_deliveries w (c # cs) m = client_deliveries w [c] m @ client_deliveries w cs m"
  by (simp add: client_deliveries_def)

text \<open>A loop that sends one message to the sessions (clients) that pass a test.\<close>

lemma fold_session_send:
  "fold (\<lambda>s w. if p s then session_send s m w else w) ss w =
     post (session_deliveries w (filter p ss) m) w"
proof (induction ss arbitrary: w)
  case Nil
  then show ?case by (simp add: session_deliveries_def)
next
  case (Cons s ss)
  then show ?case
    by (simp add: session_send_post) (simp add: session_deliveries_def)
qed

lemma fold_client_send:
  "fold (\<lambda>c w. if p c then client_send c m w else w) cs w =
     post (client_deliveries w (filter p cs) m) w"
proof (induction cs arbitrary: w)
  case Nil
  then show ?case by (simp add: client_deliveries_def)
next
  case (Cons c cs)
  then show ?case
    by (simp add: client_send_post) (simp add: client_deliveries_def)
qed

lemma in_session_deliveries:
  "Session_on_send s m' \<in> set (session_deliveries w ss m) \<longleftrightarrow> m' = m \<and> s \<in> set ss \<and> session_open w s"
  by (auto simp: session_deliveries_def)

lemma in_client_deliveries:
  "Client_on_send c m' \<in> set (client_deliveries w cs m) \<longleftrightarrow> m' = m \<and> c \<in> set cs \<and> client_open w c"
  by (auto simp: client_deliveries_def)

section \<open>Members after construction and update\<close>

lemma new_session_obj [simp]:
  "session_obj_of (snd (new_session i w)) (fst (new_session i w)) =
     \<lparr>so_sessions_port = 0, so_clients_port = 0, so_host = '''', so_registered = False,
      so_open = False, so_queue = []\<rparr>"
  by (simp add: new_session_def session_obj_of_def Let_def)

lemma new_session_id [simp]: "ses_id (fst (new_session i w)) = i"
  by (simp add: new_session_def Let_def)

lemma new_client_members [simp]:
  "cl_id (fst (new_client sid i w)) = i"
  "cl_session_id (fst (new_client sid i w)) = sid"
  "cl_is_local (fst (new_client sid i w)) \<longleftrightarrow> st_id w = sid"
  "client_obj_of (snd (new_client sid i w)) (fst (new_client sid i w)) = \<lparr>co_socket = None, co_queue = []\<rparr>"
  by (simp_all add: new_client_def client_obj_of_def Let_def)

lemma session_obj_of_update [simp]:
  "session_obj_of (update_session s f w) t =
     (if ses_addr t = ses_addr s then f (session_obj_of w t) else session_obj_of w t)"
  by (simp add: session_obj_of_def update_session_def)

lemma client_obj_of_update [simp]:
  "client_obj_of (update_client c f w) d =
     (if cl_addr d = cl_addr c then f (client_obj_of w d) else client_obj_of w d)"
  by (simp add: client_obj_of_def update_client_def)

lemmas object_defs = new_session_def make_session_def get_sessions_port_def set_sessions_port_def
  get_clients_port_def set_clients_port_def get_host_def set_host_def mark_as_registered_def
  get_registered_def session_run_def new_client_def make_client_def set_socket_def client_run_def

text \<open>The part of the world that is the class \<^verbatim>\<open>state\<close> is not touched by the objects.\<close>

lemma state_of_objects [simp, frame_simps]:
  "state.truncate (snd (new_session i w)) = state.truncate w"
  "state.truncate (snd (make_session b w)) = state.truncate w"
  "state.truncate (set_sessions_port s p w) = state.truncate w"
  "state.truncate (set_clients_port s p w) = state.truncate w"
  "state.truncate (set_host s h w) = state.truncate w"
  "state.truncate (mark_as_registered s w) = state.truncate w"
  "state.truncate (session_send s m w) = state.truncate w"
  "state.truncate (session_run s ctx w) = state.truncate w"
  "state.truncate (snd (new_client sid i w)) = state.truncate w"
  "state.truncate (snd (make_client b sid w)) = state.truncate w"
  "state.truncate (set_socket c w) = state.truncate w"
  "state.truncate (client_run b c w) = state.truncate w"
  "state.truncate (client_send c m w) = state.truncate w"
  by (simp_all add: object_defs session_send_post client_send_post device_defs Let_def
      state.truncate_def split: prod.splits option.splits)

end
