(* ===== verification/Utils.thy ===== *)
theory Utils
  imports Objects
begin

text \<open>
  The helpers of \<^verbatim>\<open>utils.cpp\<close>: answering a request, reading its parameters (every reader can
  throw) and building the request objects a node forwards to its peers.
\<close>

section \<open>Answering\<close>

definition next_reply :: "boost \<Rightarrow> request \<Rightarrow> string \<Rightarrow> json_object \<Rightarrow> world \<Rightarrow> world" where
  "next_reply b request status data w =
     (let (now, w') = read_clock b w
      in w'\<lparr>w_response := set_data b now (rq_transaction_id request) status (rq_timestamp request)
                            data (w_response w')\<rparr>)"

definition mark_as_invalid :: "boost \<Rightarrow> request \<Rightarrow> string \<Rightarrow> string \<Rightarrow> world \<Rightarrow> world" where
  "mark_as_invalid b request field argument w =
     (let (now, w') = read_clock b w
      in w'\<lparr>w_response := mark_as_failed b now (rq_transaction_id request) ''unprocessable entity''
                            (rq_timestamp request) [(field, argument)] (w_response w')\<rparr>)"

section \<open>Reading parameters\<close>

definition get_param_as_string :: "json_object \<Rightarrow> string \<Rightarrow> string outcome" where
  "get_param_as_string params field = bind_outcome (at params field) as_string"

definition get_param_as_number :: "json_object \<Rightarrow> string \<Rightarrow> size_t outcome" where
  "get_param_as_number params field = bind_outcome (at params field) as_int64"

definition get_param_as_bool :: "json_object \<Rightarrow> string \<Rightarrow> bool outcome" where
  "get_param_as_bool params field = bind_outcome (at params field) as_bool"

definition get_params :: "request \<Rightarrow> json_object outcome" where
  "get_params request = bind_outcome (at (rq_data request) ''params'') as_object"

definition get_param_as_object :: "json_object \<Rightarrow> string \<Rightarrow> json_object outcome" where
  "get_param_as_object params field = bind_outcome (at params field) as_object"

definition get_params_as_value :: "request \<Rightarrow> json outcome" where
  "get_params_as_value request = at (rq_data request) ''params''"

definition get_param_as_id :: "boost \<Rightarrow> json_object \<Rightarrow> string \<Rightarrow> uuid outcome" where
  "get_param_as_id b params field =
     bind_outcome (bind_outcome (at params field) as_string)
       (\<lambda>s. case lexical_cast_uuid b s of Some u \<Rightarrow> Ok u | None \<Rightarrow> Throw Bad_lexical_cast)"

section \<open>Request objects for the peers\<close>

definition make_broadcast_request_object ::
    "boost \<Rightarrow> request \<Rightarrow> uuid \<Rightarrow> json_object \<Rightarrow> json_object" where
  "make_broadcast_request_object b request client_id payload =
     [(''transaction_id'', JString (uuid_to_string b (rq_transaction_id request))),
      (''action'', JString ''broadcast''),
      (''params'', JObject
         [(''client_id'', JString (uuid_to_string b client_id)),
          (''payload'', JObject payload)])]"

definition make_publish_request_object ::
    "boost \<Rightarrow> request \<Rightarrow> uuid \<Rightarrow> string \<Rightarrow> json_object \<Rightarrow> json_object" where
  "make_publish_request_object b request client_id channel payload =
     [(''transaction_id'', JString (uuid_to_string b (rq_transaction_id request))),
      (''action'', JString ''publish''),
      (''params'', JObject
         [(''client_id'', JString (uuid_to_string b client_id)),
          (''channel'', JString channel),
          (''payload'', JObject payload)])]"

definition make_join_request_object :: "boost \<Rightarrow> uuid \<Rightarrow> world \<Rightarrow> json_object \<times> world" where
  "make_join_request_object b client_id w =
     (let (tid, w') = draw_uuid b w
      in ([(''transaction_id'', JString (uuid_to_string b tid)),
           (''action'', JString ''join''),
           (''params'', JObject [(''client_id'', JString (uuid_to_string b client_id))])], w'))"

definition make_leave_request_object :: "boost \<Rightarrow> uuid \<Rightarrow> world \<Rightarrow> json_object \<times> world" where
  "make_leave_request_object b client_id w =
     (let (tid, w') = draw_uuid b w
      in ([(''transaction_id'', JString (uuid_to_string b tid)),
           (''action'', JString ''leave''),
           (''params'', JObject [(''client_id'', JString (uuid_to_string b client_id))])], w'))"

definition make_subscribe_request_object ::
    "boost \<Rightarrow> request \<Rightarrow> uuid \<Rightarrow> string \<Rightarrow> json_object" where
  "make_subscribe_request_object b request client_id channel =
     [(''transaction_id'', JString (uuid_to_string b (rq_transaction_id request))),
      (''action'', JString ''subscribe''),
      (''params'', JObject
         [(''client_id'', JString (uuid_to_string b client_id)),
          (''channel'', JString channel)])]"

definition make_unsubscribe_request_object ::
    "boost \<Rightarrow> request \<Rightarrow> uuid \<Rightarrow> string \<Rightarrow> json_object" where
  "make_unsubscribe_request_object b request client_id channel =
     [(''transaction_id'', JString (uuid_to_string b (rq_transaction_id request))),
      (''action'', JString ''unsubscribe''),
      (''params'', JObject
         [(''client_id'', JString (uuid_to_string b client_id)),
          (''channel'', JString channel)])]"

definition get_status :: "bool \<Rightarrow> string \<Rightarrow> string \<Rightarrow> string" where
  "get_status gate on_true on_false = (if gate then on_true else on_false)"

definition kernel_context_to_string :: "kernel_context \<Rightarrow> string" where
  "kernel_context_to_string ctx = (if ctx = On_session then ''on_session'' else ''on_client'')"

lemmas request_object_defs = make_broadcast_request_object_def make_publish_request_object_def
  make_join_request_object_def make_leave_request_object_def make_subscribe_request_object_def
  make_unsubscribe_request_object_def

section \<open>What the readers return\<close>

lemma bind_outcome_eq_Ok: "bind_outcome m f = Ok y \<longleftrightarrow> (\<exists>x. m = Ok x \<and> f x = Ok y)"
  by (cases m) auto

lemma bind_outcome_eq_Throw:
  "bind_outcome m f = Throw e \<longleftrightarrow> m = Throw e \<or> (\<exists>x. m = Ok x \<and> f x = Throw e)"
  by (cases m) auto

lemma get_param_as_string_Ok [simp]:
  "get_param_as_string params field = Ok s \<longleftrightarrow> map_of params field = Some (JString s)"
  by (auto simp: get_param_as_string_def bind_outcome_eq_Ok elim: as_kind_elims)

lemma get_param_as_number_Ok [simp]:
  "get_param_as_number params field = Ok n \<longleftrightarrow> map_of params field = Some (JInt64 n)"
  by (auto simp: get_param_as_number_def bind_outcome_eq_Ok elim: as_kind_elims)

lemma get_param_as_bool_Ok [simp]:
  "get_param_as_bool params field = Ok x \<longleftrightarrow> map_of params field = Some (JBool x)"
  by (auto simp: get_param_as_bool_def bind_outcome_eq_Ok elim: as_kind_elims)

lemma get_params_Ok [simp]:
  "get_params request = Ok obj \<longleftrightarrow> map_of (rq_data request) ''params'' = Some (JObject obj)"
  by (auto simp: get_params_def bind_outcome_eq_Ok elim: as_kind_elims)

lemma get_param_as_object_Ok [simp]:
  "get_param_as_object params field = Ok obj \<longleftrightarrow> map_of params field = Some (JObject obj)"
  by (auto simp: get_param_as_object_def bind_outcome_eq_Ok elim: as_kind_elims)

lemma get_params_as_value_Ok [simp]:
  "get_params_as_value request = Ok v \<longleftrightarrow> map_of (rq_data request) ''params'' = Some v"
  by (simp add: get_params_as_value_def)

lemma get_param_as_id_Ok [simp]:
  "get_param_as_id b params field = Ok u \<longleftrightarrow>
     (\<exists>s. map_of params field = Some (JString s) \<and> lexical_cast_uuid b s = Some u)"
  by (auto simp: get_param_as_id_def bind_outcome_eq_Ok split: option.splits elim: as_kind_elims)

lemma state_of_replies [simp, frame_simps]:
  "state.truncate (next_reply b request status data w) = state.truncate w"
  "state.truncate (mark_as_invalid b request field argument w) = state.truncate w"
  "state.truncate (snd (make_join_request_object b i w)) = state.truncate w"
  "state.truncate (snd (make_leave_request_object b i w)) = state.truncate w"
  by (simp_all add: next_reply_def mark_as_invalid_def request_object_defs device_defs
      state.truncate_def)

end
