(* ===== verification/State.thy ===== *)
theory State
  imports Utils
begin

text \<open>
  The class \<^verbatim>\<open>state\<close> (\<^verbatim>\<open>state.hpp\<close>, \<^verbatim>\<open>state.cpp\<close>): the node's registry of sessions, clients
  and subscriptions and the operations that forward messages to them. Here each
  operation is one function of the world; where it takes and releases the mutexes is in \<open>Concurrency\<close>.
\<close>

section \<open>Construction and access\<close>

definition make_state :: "boost \<Rightarrow> config \<Rightarrow> nat \<Rightarrow> nat \<Rightarrow> state" where
  "make_state b config r c =
     \<lparr>st_id = random_uuid b r, st_created_at = clock_now b c, st_config = config,
      st_sessions = [], st_clients = [], st_subscriptions = []\<rparr>"

definition get_id :: "world \<Rightarrow> uuid" where
  "get_id w = st_id w"

definition get_created_at :: "world \<Rightarrow> timestamp" where
  "get_created_at w = st_created_at w"

definition get_config :: "world \<Rightarrow> config" where
  "get_config w = st_config w"

definition get_sessions :: "world \<Rightarrow> session list" where
  "get_sessions w = map snd (st_sessions w)"

definition get_clients :: "world \<Rightarrow> client list" where
  "get_clients w = mi_index cl_id (st_clients w)"

definition get_subscriptions :: "world \<Rightarrow> subscription list" where
  "get_subscriptions w = mi_index sub_session_id (st_subscriptions w)"

definition get_session :: "uuid \<Rightarrow> world \<Rightarrow> session option" where
  "get_session i w = map_of (st_sessions w) i"

definition get_client :: "uuid \<Rightarrow> world \<Rightarrow> client option" where
  "get_client i w = mi_find cl_id i (st_clients w)"

section \<open>Registration\<close>

definition add_session :: "session \<Rightarrow> world \<Rightarrow> bool \<times> world" where
  "add_session s w =
     (let (inserted, m) = map_emplace (ses_id s) s (st_sessions w) in (inserted, w\<lparr>st_sessions := m\<rparr>))"

definition remove_session :: "uuid \<Rightarrow> world \<Rightarrow> bool \<times> world" where
  "remove_session i w =
     (let (n, m) = map_erase i (st_sessions w) in (n > 0, w\<lparr>st_sessions := m\<rparr>))"

definition add_client :: "client \<Rightarrow> world \<Rightarrow> bool \<times> world" where
  "add_client c w =
     (let (inserted, m) = clients_insert c (st_clients w) in (inserted, w\<lparr>st_clients := m\<rparr>))"

definition push_client :: "client \<Rightarrow> world \<Rightarrow> bool \<times> world" where
  "push_client c w =
     (let (inserted, m) = clients_insert c (st_clients w) in (inserted, w\<lparr>st_clients := m\<rparr>))"

definition remove_client :: "uuid \<Rightarrow> world \<Rightarrow> bool \<times> world" where
  "remove_client i w =
     (let count = length (mi_equal_range cl_id i (st_clients w))
      in (count \<noteq> 0, w\<lparr>st_clients := mi_erase_range cl_id i (st_clients w)\<rparr>))"

definition subscribe :: "uuid \<Rightarrow> uuid \<Rightarrow> string \<Rightarrow> world \<Rightarrow> bool \<times> world" where
  "subscribe session_id client_id channel w =
     (let (inserted, m) = subscriptions_insert
            \<lparr>sub_session_id = session_id, sub_client_id = client_id, sub_channel = channel\<rparr>
            (st_subscriptions w)
      in (inserted, w\<lparr>st_subscriptions := m\<rparr>))"

definition unsubscribe :: "uuid \<Rightarrow> uuid \<Rightarrow> string \<Rightarrow> world \<Rightarrow> bool \<times> world" where
  "unsubscribe session_id client_id channel w =
     (case mi_find (\<lambda>x. (sub_session_id x, sub_client_id x, sub_channel x))
             (session_id, client_id, channel) (st_subscriptions w) of
        None \<Rightarrow> (False, w)
      | Some x \<Rightarrow> (True, w\<lparr>st_subscriptions := remove1 x (st_subscriptions w)\<rparr>))"

definition is_subscribed :: "uuid \<Rightarrow> string \<Rightarrow> world \<Rightarrow> bool" where
  "is_subscribed client_id channel w =
     (mi_find (\<lambda>x. (sub_client_id x, sub_channel x)) (client_id, channel) (st_subscriptions w) \<noteq> None)"

definition remove_state_of_session :: "uuid \<Rightarrow> world \<Rightarrow> world" where
  "remove_state_of_session i w =
     (let w' = w\<lparr>st_clients := mi_erase_range cl_session_id i (st_clients w)\<rparr>
      in w'\<lparr>st_subscriptions := mi_erase_range sub_session_id i (st_subscriptions w')\<rparr>)"

section \<open>Sending\<close>

definition send_to_sessions :: "boost \<Rightarrow> json_object \<Rightarrow> world \<Rightarrow> size_t \<times> world" where
  "send_to_sessions b data w =
     (let sessions = get_sessions w;
          message = serialize b (JObject data);
          w' = fold (\<lambda>s. session_send s message) sessions w
      in (of_nat (length sessions), w'))"

definition send_to_others_clients ::
    "boost \<Rightarrow> json_object \<Rightarrow> uuid \<Rightarrow> uuid \<Rightarrow> world \<Rightarrow> size_t \<times> world" where
  "send_to_others_clients b data session_id client_id w =
     (let clients = get_clients w;
          message = serialize b (JObject data);
          w' = fold (\<lambda>c w. if cl_id c = client_id \<or> cl_session_id c \<noteq> session_id then w
                           else client_send c message w) clients w
      in (of_nat (length clients) - 1, w'))"

definition broadcast_to_sessions ::
    "boost \<Rightarrow> request \<Rightarrow> uuid \<Rightarrow> json_object \<Rightarrow> world \<Rightarrow> size_t \<times> world" where
  "broadcast_to_sessions b request client_id data w =
     send_to_sessions b (make_broadcast_request_object b request client_id data) w"

definition broadcast_to_clients ::
    "boost \<Rightarrow> request \<Rightarrow> uuid \<Rightarrow> uuid \<Rightarrow> json_object \<Rightarrow> world \<Rightarrow> size_t \<times> world" where
  "broadcast_to_clients b request session_id client_id data w =
     send_to_others_clients b (make_broadcast_request_object b request client_id data)
       session_id client_id w"

definition send_to_subscribed_sessions ::
    "boost \<Rightarrow> json_object \<Rightarrow> string \<Rightarrow> world \<Rightarrow> size_t \<times> world" where
  "send_to_subscribed_sessions b data channel w =
     (let receivers = fold (\<lambda>x r. if sub_session_id x \<in> set r then r else sub_session_id x # r)
                        (mi_equal_range sub_channel channel (st_subscriptions w)) []
      in if receivers = [] then (0, w)
         else
           let sessions = get_sessions w;
               message = serialize b (JObject data);
               w' = fold (\<lambda>s w. if ses_id s \<in> set receivers then session_send s message w else w)
                      sessions w
           in (of_nat (length receivers), w'))"

definition publish_to_sessions ::
    "boost \<Rightarrow> request \<Rightarrow> uuid \<Rightarrow> string \<Rightarrow> json_object \<Rightarrow> world \<Rightarrow> size_t \<times> world" where
  "publish_to_sessions b request client_id channel data w =
     send_to_subscribed_sessions b (make_publish_request_object b request client_id channel data)
       channel w"

definition publish_to_clients ::
    "boost \<Rightarrow> request \<Rightarrow> uuid \<Rightarrow> uuid \<Rightarrow> string \<Rightarrow> json_object \<Rightarrow> world \<Rightarrow> size_t \<times> world" where
  "publish_to_clients b request session_id client_id channel data w =
     send_to_others_clients b (make_publish_request_object b request client_id channel data)
       session_id client_id w"

definition join_to_sessions :: "boost \<Rightarrow> uuid \<Rightarrow> world \<Rightarrow> size_t \<times> world" where
  "join_to_sessions b client_id w =
     (let (data, w') = make_join_request_object b client_id w in send_to_sessions b data w')"

definition leave_to_sessions :: "boost \<Rightarrow> uuid \<Rightarrow> world \<Rightarrow> size_t \<times> world" where
  "leave_to_sessions b client_id w =
     (let (data, w') = make_leave_request_object b client_id w in send_to_sessions b data w')"

definition subscribe_to_sessions ::
    "boost \<Rightarrow> request \<Rightarrow> uuid \<Rightarrow> string \<Rightarrow> world \<Rightarrow> size_t \<times> world" where
  "subscribe_to_sessions b request client_id channel w =
     send_to_sessions b (make_subscribe_request_object b request client_id channel) w"

definition unsubscribe_to_sessions ::
    "boost \<Rightarrow> request \<Rightarrow> uuid \<Rightarrow> string \<Rightarrow> world \<Rightarrow> size_t \<times> world" where
  "unsubscribe_to_sessions b request client_id channel w =
     send_to_sessions b (make_unsubscribe_request_object b request client_id channel) w"

definition send_to_session ::
    "boost \<Rightarrow> uuid \<Rightarrow> uuid \<Rightarrow> uuid \<Rightarrow> json_object \<Rightarrow> world \<Rightarrow> world" where
  "send_to_session b session_id from_client_id to_client_id payload w =
     (let sessions = get_sessions w;
          (tid, w') = draw_uuid b w;
          message = serialize b (JObject
            [(''transaction_id'', JString (uuid_to_string b tid)),
             (''action'', JString ''send''),
             (''params'', JObject
                [(''from_client_id'', JString (uuid_to_string b from_client_id)),
                 (''to_client_id'', JString (uuid_to_string b to_client_id)),
                 (''payload'', JObject payload)])])
      in fold (\<lambda>s w. if ses_id s = session_id then session_send s message w else w) sessions w')"

section \<open>Synchronising a new peer\<close>

definition sync_sessions :: "boost \<Rightarrow> session \<Rightarrow> session \<Rightarrow> world \<Rightarrow> world" where
  "sync_sessions b session x w =
     (let is_state = (ses_id x = get_id w);
          is_same = (ses_id x = ses_id session);
          is_unregistered = (\<not> get_registered w x)
      in if is_state \<or> is_same \<or> is_unregistered then w
         else
           let (tid, w') = draw_uuid b w;
               message = serialize b (JObject
                 [(''action'', JString ''session''),
                  (''transaction_id'', JString (uuid_to_string b tid)),
                  (''params'', JObject
                     [(''host'', JString (get_host w x)),
                      (''sessions_port'', JUint64 (ucast (get_sessions_port w x))),
                      (''clients_port'', JUint64 (ucast (get_clients_port w x)))])])
           in session_send session message w')"

definition sync_client :: "boost \<Rightarrow> session \<Rightarrow> client \<Rightarrow> world \<Rightarrow> world" where
  "sync_client b session c w =
     (let (tid, w') = draw_uuid b w;
          message = serialize b (JObject
            [(''action'', JString ''join''),
             (''transaction_id'', JString (uuid_to_string b tid)),
             (''params'', JObject [(''client_id'', JString (uuid_to_string b (cl_id c)))])])
      in session_send session message w')"

definition sync_subscription :: "boost \<Rightarrow> session \<Rightarrow> subscription \<Rightarrow> world \<Rightarrow> world" where
  "sync_subscription b session x w =
     (let (tid, w') = draw_uuid b w;
          message = serialize b (JObject
            [(''action'', JString ''subscribe''),
             (''transaction_id'', JString (uuid_to_string b tid)),
             (''params'', JObject
                [(''client_id'', JString (uuid_to_string b (sub_client_id x))),
                 (''channel'', JString (sub_channel x))])])
      in session_send session message w')"

definition sync :: "boost \<Rightarrow> session \<Rightarrow> bool \<Rightarrow> world \<Rightarrow> world" where
  "sync b session registered w =
     (let w1 = (if \<not> registered then fold (sync_sessions b session) (get_sessions w) w else w);
          w2 = fold (sync_client b session) (mi_equal_range cl_session_id (get_id w1) (st_clients w1)) w1
      in fold (sync_subscription b session)
           (mi_equal_range sub_session_id (get_id w2) (st_subscriptions w2)) w2)"

lemmas access_defs = get_id_def get_created_at_def get_config_def get_sessions_def get_clients_def
  get_subscriptions_def get_session_def get_client_def

lemmas registration_defs = add_session_def remove_session_def add_client_def push_client_def
  remove_client_def subscribe_def unsubscribe_def is_subscribed_def remove_state_of_session_def

end
