(* ===== verification/State_Facts.thy ===== *)
theory State_Facts
  imports State
begin

text \<open>
  Facts about the class \<^verbatim>\<open>state\<close>: the normal form of every sending operation (what it returns
  and which deliveries it posts), the class invariant \<open>wf_state\<close> and its preservation by every
  operation. \<open>wf_state\<close> reads only the members of the class, so that whatever leaves those alone
  (\<open>state.truncate\<close> unchanged) keeps it.
\<close>

section \<open>Normal forms of the sending operations\<close>

abbreviation text_of :: "boost \<Rightarrow> json_object \<Rightarrow> string" where
  "text_of b obj \<equiv> serialize b (JObject obj)"

definition other_clients :: "uuid \<Rightarrow> uuid \<Rightarrow> world \<Rightarrow> client list" where
  "other_clients session_id client_id w =
     filter (\<lambda>c. cl_id c \<noteq> client_id \<and> cl_session_id c = session_id) (get_clients w)"

definition channel_sessions :: "string \<Rightarrow> world \<Rightarrow> uuid set" where
  "channel_sessions channel w =
     {sub_session_id x |x. x \<in> set (st_subscriptions w) \<and> sub_channel x = channel}"

lemma send_to_sessions_eq:
  "send_to_sessions b d w =
     (of_nat (length (st_sessions w)), post (session_deliveries w (get_sessions w) (text_of b d)) w)"
  using fold_session_send [of "\<lambda>_. True" "text_of b d" "get_sessions w" w]
  by (simp add: send_to_sessions_def Let_def get_sessions_def)

lemma send_to_others_clients_eq:
  "send_to_others_clients b d sid cid w =
     (of_nat (length (st_clients w)) - 1,
      post (client_deliveries w (other_clients sid cid w) (text_of b d)) w)"
proof -
  have "(\<lambda>c w. if cl_id c = cid \<or> cl_session_id c \<noteq> sid then w else client_send c m w) =
        (\<lambda>c w. if cl_id c \<noteq> cid \<and> cl_session_id c = sid then client_send c m w else w)" for m
    by (auto simp: fun_eq_iff)
  then show ?thesis
    by (simp add: send_to_others_clients_def Let_def fold_client_send other_clients_def get_clients_def)
qed

lemma set_receivers:
  "set (fold (\<lambda>x r. if f x \<in> set r then r else f x # r) xs acc) = f ` set xs \<union> set acc"
  by (induction xs arbitrary: acc) auto

lemma distinct_receivers:
  "distinct acc \<Longrightarrow> distinct (fold (\<lambda>x r. if f x \<in> set r then r else f x # r) xs acc)"
  by (induction xs arbitrary: acc) auto

lemma length_receivers:
  "length (fold (\<lambda>x r. if f x \<in> set r then r else f x # r) xs []) = card (f ` set xs)"
  using distinct_card [OF distinct_receivers [of "[]" f xs]] set_receivers [of f xs "[]"] by simp

lemma send_to_subscribed_sessions_eq:
  "send_to_subscribed_sessions b d ch w =
     (of_nat (card (channel_sessions ch w)),
      post (session_deliveries w (filter (\<lambda>s. ses_id s \<in> channel_sessions ch w) (get_sessions w))
             (text_of b d)) w)"
proof -
  let ?xs = "mi_equal_range sub_channel ch (st_subscriptions w)"
  let ?r = "fold (\<lambda>x r. if sub_session_id x \<in> set r then r else sub_session_id x # r) ?xs []"
  have set: "set ?r = channel_sessions ch w"
    by (auto simp: set_receivers channel_sessions_def)
  have len: "length ?r = card (channel_sessions ch w)"
    using distinct_card [OF distinct_receivers [of "[]" sub_session_id ?xs]] set by simp
  show ?thesis
  proof (cases "?r = []")
    case True
    then have "channel_sessions ch w = {}" using set by simp
    with True show ?thesis
      by (simp add: send_to_subscribed_sessions_def Let_def session_deliveries_def)
  next
    case False
    then show ?thesis
      by (simp add: send_to_subscribed_sessions_def Let_def set len fold_session_send)
  qed
qed

definition send_object :: "boost \<Rightarrow> uuid \<Rightarrow> uuid \<Rightarrow> uuid \<Rightarrow> json_object \<Rightarrow> json_object" where
  "send_object b tid from_client_id to_client_id payload =
     [(''transaction_id'', JString (uuid_to_string b tid)),
      (''action'', JString ''send''),
      (''params'', JObject
         [(''from_client_id'', JString (uuid_to_string b from_client_id)),
          (''to_client_id'', JString (uuid_to_string b to_client_id)),
          (''payload'', JObject payload)])]"

lemma draw_uuid_frame [simp, frame_simps]:
  "st_id (snd (draw_uuid b w)) = st_id w"
  "st_config (snd (draw_uuid b w)) = st_config w"
  "st_sessions (snd (draw_uuid b w)) = st_sessions w"
  "st_clients (snd (draw_uuid b w)) = st_clients w"
  "st_subscriptions (snd (draw_uuid b w)) = st_subscriptions w"
  "w_session_objs (snd (draw_uuid b w)) = w_session_objs w"
  "w_client_objs (snd (draw_uuid b w)) = w_client_objs w"
  "w_next_addr (snd (draw_uuid b w)) = w_next_addr w"
  "w_live_sessions (snd (draw_uuid b w)) = w_live_sessions w"
  "w_pending (snd (draw_uuid b w)) = w_pending w"
  "w_response (snd (draw_uuid b w)) = w_response w"
  "w_random (snd (draw_uuid b w)) = Suc (w_random w)"
  "w_clock (snd (draw_uuid b w)) = w_clock w"
  "fst (draw_uuid b w) = random_uuid b (w_random w)"
  "session_open (snd (draw_uuid b w)) = session_open w"
  "client_open (snd (draw_uuid b w)) = client_open w"
  by (simp_all add: draw_uuid_def fun_eq_iff session_open_def client_open_def device_defs)

lemma deliveries_draw [simp]:
  "session_deliveries (snd (draw_uuid b w)) ss m = session_deliveries w ss m"
  "client_deliveries (snd (draw_uuid b w)) cs m = client_deliveries w cs m"
  by (simp_all add: session_deliveries_def client_deliveries_def)

lemma registry_views_post [simp]:
  "get_sessions (post xs w) = get_sessions w"
  "get_clients (post xs w) = get_clients w"
  "other_clients sid cid (post xs w) = other_clients sid cid w"
  "channel_sessions ch (post xs w) = channel_sessions ch w"
  "get_sessions (snd (draw_uuid b w)) = get_sessions w"
  "get_clients (snd (draw_uuid b w)) = get_clients w"
  by (simp_all add: get_sessions_def get_clients_def other_clients_def channel_sessions_def draw_uuid_def)

lemma send_to_session_eq:
  "send_to_session b sid frm to payload w =
     post (session_deliveries w (filter (\<lambda>s. ses_id s = sid) (get_sessions w))
            (text_of b (send_object b (random_uuid b (w_random w)) frm to payload)))
       (snd (draw_uuid b w))"
  by (simp add: send_to_session_def Let_def case_prod_beta fold_session_send send_object_def)

definition join_object :: "boost \<Rightarrow> uuid \<Rightarrow> uuid \<Rightarrow> json_object" where
  "join_object b tid client_id =
     [(''transaction_id'', JString (uuid_to_string b tid)),
      (''action'', JString ''join''),
      (''params'', JObject [(''client_id'', JString (uuid_to_string b client_id))])]"

definition leave_object :: "boost \<Rightarrow> uuid \<Rightarrow> uuid \<Rightarrow> json_object" where
  "leave_object b tid client_id =
     [(''transaction_id'', JString (uuid_to_string b tid)),
      (''action'', JString ''leave''),
      (''params'', JObject [(''client_id'', JString (uuid_to_string b client_id))])]"

lemma join_to_sessions_eq:
  "join_to_sessions b i w =
     (of_nat (length (st_sessions w)),
      post (session_deliveries w (get_sessions w) (text_of b (join_object b (random_uuid b (w_random w)) i)))
        (snd (draw_uuid b w)))"
  by (simp add: join_to_sessions_def make_join_request_object_def Let_def case_prod_beta
      send_to_sessions_eq join_object_def get_sessions_def)

lemma leave_to_sessions_eq:
  "leave_to_sessions b i w =
     (of_nat (length (st_sessions w)),
      post (session_deliveries w (get_sessions w) (text_of b (leave_object b (random_uuid b (w_random w)) i)))
        (snd (draw_uuid b w)))"
  by (simp add: leave_to_sessions_def make_leave_request_object_def Let_def case_prod_beta
      send_to_sessions_eq leave_object_def get_sessions_def)

lemmas forward_defs = broadcast_to_sessions_def broadcast_to_clients_def publish_to_sessions_def
  publish_to_clients_def subscribe_to_sessions_def unsubscribe_to_sessions_def

lemmas send_eqs = send_to_sessions_eq send_to_others_clients_eq send_to_subscribed_sessions_eq
  send_to_session_eq join_to_sessions_eq leave_to_sessions_eq

section \<open>Operations that leave the registry alone\<close>

lemma state_of_sending [simp, frame_simps]:
  "state.truncate (snd (send_to_sessions b d w)) = state.truncate w"
  "state.truncate (snd (send_to_others_clients b d sid cid w)) = state.truncate w"
  "state.truncate (snd (send_to_subscribed_sessions b d ch w)) = state.truncate w"
  "state.truncate (send_to_session b sid frm to payload w) = state.truncate w"
  "state.truncate (snd (join_to_sessions b i w)) = state.truncate w"
  "state.truncate (snd (leave_to_sessions b i w)) = state.truncate w"
  "state.truncate (snd (broadcast_to_sessions b rq i d w)) = state.truncate w"
  "state.truncate (snd (broadcast_to_clients b rq sid i d w)) = state.truncate w"
  "state.truncate (snd (publish_to_sessions b rq i ch d w)) = state.truncate w"
  "state.truncate (snd (publish_to_clients b rq sid i ch d w)) = state.truncate w"
  "state.truncate (snd (subscribe_to_sessions b rq i ch w)) = state.truncate w"
  "state.truncate (snd (unsubscribe_to_sessions b rq i ch w)) = state.truncate w"
  by (simp_all add: send_eqs forward_defs)

lemma truncate_fold:
  assumes "\<And>x w. state.truncate (f x w) = state.truncate w"
  shows "state.truncate (fold f xs w) = state.truncate w"
  using assms by (induction xs arbitrary: w) auto

lemma state_of_sync_steps [simp, frame_simps]:
  "state.truncate (sync_sessions b s x w) = state.truncate w"
  "state.truncate (sync_client b s c w) = state.truncate w"
  "state.truncate (sync_subscription b s y w) = state.truncate w"
  by (simp_all add: sync_sessions_def sync_client_def sync_subscription_def Let_def case_prod_beta)

lemma state_of_sync [simp, frame_simps]: "state.truncate (sync b s r w) = state.truncate w"
  by (simp add: sync_def Let_def truncate_fold)

section \<open>The class invariant\<close>

definition wf_state :: "'a state_scheme \<Rightarrow> bool" where
  "wf_state w \<longleftrightarrow>
     ascending (st_sessions w) \<and>
     (\<forall>e\<in>set (st_sessions w). ses_id (snd e) = fst e) \<and>
     conflict_free client_conflict (st_clients w) \<and>
     conflict_free subscription_conflict (st_subscriptions w) \<and>
     (\<forall>c\<in>set (st_clients w). cl_is_local c \<longleftrightarrow> cl_session_id c = st_id w)"

lemma state_fields_of_truncate:
  assumes "state.truncate w' = state.truncate w"
  shows "st_id w' = st_id w" "st_created_at w' = st_created_at w" "st_config w' = st_config w"
    "st_sessions w' = st_sessions w" "st_clients w' = st_clients w"
    "st_subscriptions w' = st_subscriptions w"
  using assms by (simp_all add: state.truncate_def)

lemma wf_state_truncate: "wf_state (state.truncate w) = wf_state w"
  by (simp add: wf_state_def state.truncate_def)

lemma wf_state_cong: "state.truncate w' = state.truncate w \<Longrightarrow> wf_state w' = wf_state w"
  by (metis wf_state_truncate)

lemma wf_stateD:
  assumes "wf_state w"
  shows "ascending (st_sessions w)" "\<And>k s. (k, s) \<in> set (st_sessions w) \<Longrightarrow> ses_id s = k"
    "distinct (map cl_id (st_clients w))" "distinct (st_subscriptions w)"
    "\<And>c. c \<in> set (st_clients w) \<Longrightarrow> cl_is_local c \<longleftrightarrow> cl_session_id c = st_id w"
  using assms by (auto simp: wf_state_def clients_conflict_free_iff subscriptions_conflict_free_iff)

lemma wf_make_state: "wf_state (make_state b config r c)"
  by (simp add: wf_state_def make_state_def conflict_free_def)

lemma set_map_emplace: "set (snd (map_emplace k v m)) \<subseteq> insert (k, v) (set m)"
  by (auto simp: map_emplace_def set_insort_key split: option.splits)

lemma wf_add_session: "wf_state w \<Longrightarrow> wf_state (snd (add_session s w))"
  using set_map_emplace [of "ses_id s" s "st_sessions w"]
  by (fastforce simp: wf_state_def add_session_def case_prod_beta intro: ascending_map_emplace)

lemma wf_remove_session: "wf_state w \<Longrightarrow> wf_state (snd (remove_session i w))"
  using ascending_map_erase [of "st_sessions w" i]
  by (auto simp: wf_state_def remove_session_def case_prod_beta map_erase_def)

lemma wf_add_client:
  assumes "wf_state w" and "cl_is_local c \<longleftrightarrow> cl_session_id c = st_id w"
  shows "wf_state (snd (add_client c w))"
  using assms cls.insert_conflict_free [of "st_clients w" c]
  by (auto simp: wf_state_def add_client_def case_prod_beta cls.set_insert split: if_splits)

lemma push_client_eq: "push_client = add_client"
  by (simp add: push_client_def add_client_def fun_eq_iff)

lemma wf_remove_client: "wf_state w \<Longrightarrow> wf_state (snd (remove_client i w))"
  by (auto simp: wf_state_def remove_client_def Let_def mi_erase_range_def
      intro: cls.filter_conflict_free)

lemma wf_subscribe: "wf_state w \<Longrightarrow> wf_state (snd (subscribe s c ch w))"
  by (auto simp: wf_state_def subscribe_def case_prod_beta intro: subs.insert_conflict_free)

lemma unsubscribe_eq:
  "unsubscribe s c ch w =
     (let x = \<lparr>sub_session_id = s, sub_client_id = c, sub_channel = ch\<rparr>
      in if x \<in> set (st_subscriptions w)
         then (True, w\<lparr>st_subscriptions := remove1 x (st_subscriptions w)\<rparr>) else (False, w))"
proof (cases "mi_find (\<lambda>x. (sub_session_id x, sub_client_id x, sub_channel x)) (s, c, ch) (st_subscriptions w)")
  case None
  then have "\<lparr>sub_session_id = s, sub_client_id = c, sub_channel = ch\<rparr> \<notin> set (st_subscriptions w)"
    by (force simp: mi_find_None)
  with None show ?thesis by (simp add: unsubscribe_def Let_def)
next
  case (Some y)
  from mi_find_Some [OF this]
  have y: "y \<in> set (st_subscriptions w)" "y = \<lparr>sub_session_id = s, sub_client_id = c, sub_channel = ch\<rparr>"
    by auto
  with Some show ?thesis by (simp add: unsubscribe_def Let_def)
qed

lemma wf_unsubscribe: "wf_state w \<Longrightarrow> wf_state (snd (unsubscribe s c ch w))"
  by (auto simp: wf_state_def unsubscribe_eq Let_def subscriptions_conflict_free_iff)

lemma wf_remove_state_of_session: "wf_state w \<Longrightarrow> wf_state (remove_state_of_session i w)"
  by (auto simp: wf_state_def remove_state_of_session_def Let_def mi_erase_range_def
      intro: cls.filter_conflict_free subs.filter_conflict_free)

lemmas wf_registration = wf_add_session wf_remove_session wf_remove_client wf_subscribe
  wf_unsubscribe wf_remove_state_of_session

end
