(* ===== verification/Validators.thy ===== *)
theory Validators
  imports State_Facts
begin

text \<open>
  Request validation: the class \<^verbatim>\<open>validator\<close> that checks the envelope of every message
  (\<^verbatim>\<open>validator.cpp\<close>) and the per-action validators of \<^verbatim>\<open>validators/\<close>. The latter run
  in the effect type because they write the failure into the response, and because the first two
  lines of each (\<^verbatim>\<open>data_.at("params")\<close> and \<^verbatim>\<open>as_object()\<close>) throw when the
  message has no \<^verbatim>\<open>params\<close> object: no validator checks that it has one.
\<close>

section \<open>The envelope\<close>

record validator =
  va_passed :: bool
  va_bag :: "(string \<times> string) list"

definition is_uuid :: "boost \<Rightarrow> string \<Rightarrow> bool" where
  "is_uuid b uuid = (case string_generator b uuid of Some _ \<Rightarrow> True | None \<Rightarrow> False)"

definition make_validator :: "boost \<Rightarrow> json_object \<Rightarrow> validator" where
  "make_validator b data =
     (case map_of data ''action'' of
        None \<Rightarrow> \<lparr>va_passed = False, va_bag = [(''action'', ''action attribute must be present'')]\<rparr>
      | Some action \<Rightarrow>
          if \<not> is_string action then
            \<lparr>va_passed = False, va_bag = [(''action'', ''action attribute must be string'')]\<rparr>
          else
            (case map_of data ''transaction_id'' of
               None \<Rightarrow> \<lparr>va_passed = False,
                         va_bag = [(''transaction_id'', ''transaction_id attribute must be present'')]\<rparr>
             | Some transaction_id \<Rightarrow>
                 (case as_string transaction_id of
                    Ok s \<Rightarrow>
                      if \<not> is_uuid b (c_str s) then
                        \<lparr>va_passed = False,
                         va_bag = [(''transaction_id'', ''transaction_id attribute must be uuid'')]\<rparr>
                      else \<lparr>va_passed = True, va_bag = []\<rparr>
                  | _ \<Rightarrow> \<lparr>va_passed = False,
                            va_bag = [(''transaction_id'', ''transaction_id attribute must be string'')]\<rparr>)))"

definition get_passed :: "validator \<Rightarrow> bool" where
  "get_passed v = va_passed v"

definition get_bag :: "validator \<Rightarrow> (string \<times> string) list" where
  "get_bag v = va_bag v"

section \<open>The parameters of each action\<close>

definition reject :: "boost \<Rightarrow> request \<Rightarrow> string \<Rightarrow> bool eff_w" where
  "reject b request argument =
     bind_eff (modify (mark_as_invalid b request ''params'' argument)) (\<lambda>_. return False)"

definition id_validator :: "boost \<Rightarrow> request \<Rightarrow> json_object \<Rightarrow> string \<Rightarrow> bool eff_w" where
  "id_validator b request params attribute =
     (if \<not> contains params attribute then
        reject b request (''params '' @ attribute @ '' attribute must be present'')
      else
        bind_eff (lift_outcome (at params attribute)) (\<lambda>v.
        if \<not> is_string v then
          reject b request (''params '' @ attribute @ '' attribute must be string'')
        else
          bind_eff (lift_outcome (as_string v)) (\<lambda>s.
          if \<not> is_uuid b (c_str s) then
            reject b request (''params '' @ attribute @ '' attribute must be uuid'')
          else return True)))"

definition broadcast_validator :: "boost \<Rightarrow> request \<Rightarrow> bool eff_w" where
  "broadcast_validator b request =
     bind_eff (lift_outcome (get_params_as_value request)) (\<lambda>params.
     bind_eff (lift_outcome (as_object params)) (\<lambda>params_object.
     if \<not> contains params_object ''payload'' then
       reject b request ''params payload attribute must be present''
     else
       bind_eff (lift_outcome (at params_object ''payload'')) (\<lambda>payload.
       if \<not> is_object payload then
         reject b request ''params payload attribute must be object''
       else if rq_context request = On_session then
         id_validator b request params_object ''client_id''
       else return True)))"

definition is_subscribed_validator :: "boost \<Rightarrow> request \<Rightarrow> bool eff_w" where
  "is_subscribed_validator b request =
     bind_eff (lift_outcome (get_params_as_value request)) (\<lambda>params.
     bind_eff (lift_outcome (as_object params)) (\<lambda>params_object.
     if \<not> contains params_object ''channel'' then
       reject b request ''params channel attribute must be present''
     else
       bind_eff (lift_outcome (at params_object ''channel'')) (\<lambda>channel.
       if \<not> is_string channel then
         reject b request ''params channel attribute must be string''
       else return True)))"

definition publish_validator :: "boost \<Rightarrow> request \<Rightarrow> bool eff_w" where
  "publish_validator b request =
     bind_eff (lift_outcome (get_params_as_value request)) (\<lambda>params.
     bind_eff (lift_outcome (as_object params)) (\<lambda>params_object.
     if \<not> contains params_object ''channel'' then
       reject b request ''params channel attribute must be present''
     else
       bind_eff (lift_outcome (at params_object ''channel'')) (\<lambda>channel.
       if \<not> is_string channel then
         reject b request ''params channel attribute must be string''
       else if \<not> contains params_object ''payload'' then
         reject b request ''params payload attribute must be present''
       else
         bind_eff (lift_outcome (at params_object ''payload'')) (\<lambda>payload.
         if \<not> is_object payload then
           reject b request ''params payload attribute must be object''
         else if rq_context request = On_session then
           id_validator b request params_object ''client_id''
         else return True))))"

definition register_validator :: "boost \<Rightarrow> request \<Rightarrow> bool eff_w" where
  "register_validator b request =
     bind_eff (lift_outcome (get_params_as_value request)) (\<lambda>params.
     bind_eff (lift_outcome (as_object params)) (\<lambda>params_object.
     if \<not> contains params_object ''sessions_port'' then
       reject b request ''params sessions_port attribute must be present''
     else
       bind_eff (lift_outcome (at params_object ''sessions_port'')) (\<lambda>sessions_port.
       if \<not> is_number sessions_port then
         reject b request ''params sessions_port attribute must be number''
       else if \<not> contains params_object ''clients_port'' then
         reject b request ''params clients_port attribute must be present''
       else
         bind_eff (lift_outcome (at params_object ''clients_port'')) (\<lambda>clients_port.
         if \<not> is_number clients_port then
           reject b request ''params clients_port attribute must be number''
         else if \<not> contains params_object ''registered'' then
           reject b request ''params registered attribute must be present''
         else
           bind_eff (lift_outcome (at params_object ''registered'')) (\<lambda>registered.
           if \<not> is_bool registered then
             reject b request ''params registered attribute must be boolean''
           else return True)))))"

definition send_validator :: "boost \<Rightarrow> request \<Rightarrow> bool eff_w" where
  "send_validator b request =
     bind_eff (lift_outcome (get_params_as_value request)) (\<lambda>params.
     bind_eff (lift_outcome (as_object params)) (\<lambda>params_object.
     if \<not> contains params_object ''payload'' then
       reject b request ''params payload attribute must be present''
     else
       bind_eff (lift_outcome (at params_object ''payload'')) (\<lambda>payload.
       if \<not> is_object payload then
         reject b request ''params payload attribute must be object''
       else if rq_context request = On_session then
         bind_eff (id_validator b request params_object ''from_client_id'') (\<lambda>ok.
           if ok then id_validator b request params_object ''to_client_id'' else return False)
       else id_validator b request params_object ''to_client_id'')))"

definition session_validator :: "boost \<Rightarrow> request \<Rightarrow> bool eff_w" where
  "session_validator b request =
     bind_eff (lift_outcome (get_params_as_value request)) (\<lambda>params.
     bind_eff (lift_outcome (as_object params)) (\<lambda>params_object.
     if \<not> contains params_object ''host'' then
       reject b request ''params host attribute must be present''
     else
       bind_eff (lift_outcome (at params_object ''host'')) (\<lambda>host.
       if \<not> is_string host then
         reject b request ''params host attribute must be string''
       else if \<not> contains params_object ''sessions_port'' then
         reject b request ''params sessions_port attribute must be present''
       else
         bind_eff (lift_outcome (at params_object ''sessions_port'')) (\<lambda>sessions_port.
         if \<not> is_number sessions_port then
           reject b request ''params sessions_port attribute must be number''
         else if \<not> contains params_object ''clients_port'' then
           reject b request ''params clients_port attribute must be present''
         else
           bind_eff (lift_outcome (at params_object ''clients_port'')) (\<lambda>clients_port.
           if \<not> is_number clients_port then
             reject b request ''params clients_port attribute must be number''
           else return True)))))"

definition subscriptions_validator :: "boost \<Rightarrow> request \<Rightarrow> bool eff_w" where
  "subscriptions_validator b request =
     bind_eff (lift_outcome (get_params_as_value request)) (\<lambda>params.
     bind_eff (lift_outcome (as_object params)) (\<lambda>params_object.
     if \<not> contains params_object ''channel'' then
       reject b request ''params channel attribute must be present''
     else
       bind_eff (lift_outcome (at params_object ''channel'')) (\<lambda>channel.
       if \<not> is_string channel then
         reject b request ''params channel attribute must be string''
       else if rq_context request = On_session then
         id_validator b request params_object ''client_id''
       else return True)))"

end
