(* ===== verification/Handlers.thy ===== *)
theory Handlers
  imports Validators
begin

text \<open>
  The action handlers (\<^verbatim>\<open>handlers/\<close>), one definition per handler with every call that changes
  the node or posts a message, in the order of the sources. Logging has no effect and is left out.
\<close>

definition reply :: "boost \<Rightarrow> request \<Rightarrow> string \<Rightarrow> json_object \<Rightarrow> unit eff_w" where
  "reply b request status data = modify (next_reply b request status data)"

definition ping_handler :: "boost \<Rightarrow> request \<Rightarrow> unit eff_w" where
  "ping_handler b request = reply b request ''pong'' []"

definition unimplemented_handler :: "boost \<Rightarrow> request \<Rightarrow> unit eff_w" where
  "unimplemented_handler b request =
     modify (mark_as_invalid b request ''action'' ''action attribute isn't implemented'')"

definition broadcast_handler :: "boost \<Rightarrow> request \<Rightarrow> unit eff_w" where
  "broadcast_handler b request =
     bind_eff (broadcast_validator b request) (\<lambda>valid.
     if valid then
       bind_eff (lift_outcome (get_params request)) (\<lambda>params.
       bind_eff (lift_outcome (get_param_as_object params ''payload'')) (\<lambda>payload.
       bind_eff
         (case rq_context request of
            On_client \<Rightarrow>
              bind_eff (gets get_id) (\<lambda>state_id.
              bind_eff (call (broadcast_to_clients b request state_id (rq_entity_id request) payload)) (\<lambda>count.
              bind_eff (call (broadcast_to_sessions b request (rq_entity_id request) payload)) (\<lambda>_.
              return count)))
          | On_session \<Rightarrow>
              bind_eff (lift_outcome (get_param_as_id b params ''client_id'')) (\<lambda>client_id.
              bind_eff (gets get_id) (\<lambda>state_id.
              call (broadcast_to_clients b request state_id client_id payload))))
         (\<lambda>count.
            reply b request (get_status (count > 0) ''ok'' ''no effect'') [(''count'', JUint64 count)])))
     else return ())"

definition publish_handler :: "boost \<Rightarrow> request \<Rightarrow> unit eff_w" where
  "publish_handler b request =
     bind_eff (publish_validator b request) (\<lambda>valid.
     if valid then
       bind_eff (lift_outcome (get_params request)) (\<lambda>params.
       bind_eff (lift_outcome (get_param_as_string params ''channel'')) (\<lambda>channel.
       bind_eff (lift_outcome (get_param_as_object params ''payload'')) (\<lambda>payload.
       bind_eff
         (case rq_context request of
            On_client \<Rightarrow>
              bind_eff (gets get_id) (\<lambda>state_id.
              bind_eff (call (publish_to_clients b request state_id (rq_entity_id request) channel payload)) (\<lambda>count.
              bind_eff (call (publish_to_sessions b request (rq_entity_id request) channel payload)) (\<lambda>_.
              return count)))
          | On_session \<Rightarrow>
              bind_eff (lift_outcome (get_param_as_id b params ''client_id'')) (\<lambda>client_id.
              bind_eff (gets get_id) (\<lambda>state_id.
              call (publish_to_clients b request state_id client_id channel payload))))
         (\<lambda>count.
            reply b request (get_status (count > 0) ''ok'' ''no effect'') [(''count'', JUint64 count)]))))
     else return ())"

definition subscribe_handler :: "boost \<Rightarrow> request \<Rightarrow> unit eff_w" where
  "subscribe_handler b request =
     bind_eff (subscriptions_validator b request) (\<lambda>valid.
     if valid then
       bind_eff (lift_outcome (get_params request)) (\<lambda>params.
       bind_eff (lift_outcome (get_param_as_string params ''channel'')) (\<lambda>channel.
       case rq_context request of
         On_client \<Rightarrow>
           bind_eff (gets get_id) (\<lambda>state_id.
           bind_eff (call (subscribe state_id (rq_entity_id request) channel)) (\<lambda>success.
           bind_eff (reply b request (get_status success ''ok'' ''no effect'') []) (\<lambda>_.
           bind_eff (call (subscribe_to_sessions b request (rq_entity_id request) channel)) (\<lambda>_.
           return ()))))
       | On_session \<Rightarrow>
           bind_eff (lift_outcome (get_param_as_id b params ''client_id'')) (\<lambda>client_id.
           bind_eff (call (subscribe (rq_entity_id request) client_id channel)) (\<lambda>success.
           reply b request (get_status success ''ok'' ''no effect'') []))))
     else return ())"

definition unsubscribe_handler :: "boost \<Rightarrow> request \<Rightarrow> unit eff_w" where
  "unsubscribe_handler b request =
     bind_eff (subscriptions_validator b request) (\<lambda>valid.
     if valid then
       bind_eff (lift_outcome (get_params request)) (\<lambda>params.
       bind_eff (lift_outcome (get_param_as_string params ''channel'')) (\<lambda>channel.
       case rq_context request of
         On_client \<Rightarrow>
           bind_eff (gets get_id) (\<lambda>state_id.
           bind_eff (call (unsubscribe state_id (rq_entity_id request) channel)) (\<lambda>success.
           bind_eff (reply b request (get_status success ''ok'' ''no effect'') []) (\<lambda>_.
           bind_eff (call (unsubscribe_to_sessions b request (rq_entity_id request) channel)) (\<lambda>_.
           return ()))))
       | On_session \<Rightarrow>
           bind_eff (lift_outcome (get_param_as_id b params ''client_id'')) (\<lambda>client_id.
           bind_eff (call (unsubscribe (rq_entity_id request) client_id channel)) (\<lambda>success.
           reply b request (get_status success ''ok'' ''no effect'') []))))
     else return ())"

definition is_subscribed_handler :: "boost \<Rightarrow> request \<Rightarrow> unit eff_w" where
  "is_subscribed_handler b request =
     bind_eff (is_subscribed_validator b request) (\<lambda>valid.
     if valid then
       bind_eff (lift_outcome (get_params request)) (\<lambda>params.
       bind_eff (lift_outcome (get_param_as_string params ''channel'')) (\<lambda>channel.
       case rq_context request of
         On_client \<Rightarrow>
           bind_eff (gets (is_subscribed (rq_entity_id request) channel)) (\<lambda>success.
           reply b request (get_status success ''yes'' ''no'') [])
       | On_session \<Rightarrow> reply b request ''no effect'' []))
     else return ())"

definition join_handler :: "boost \<Rightarrow> request \<Rightarrow> unit eff_w" where
  "join_handler b request =
     (case rq_context request of
        On_client \<Rightarrow> reply b request ''no effect'' []
      | On_session \<Rightarrow>
          bind_eff (lift_outcome (get_params request)) (\<lambda>params.
          bind_eff (id_validator b request params ''client_id'') (\<lambda>valid.
          if valid then
            bind_eff (lift_outcome (get_param_as_id b params ''client_id'')) (\<lambda>client_id.
            bind_eff (call (new_client (rq_entity_id request) client_id)) (\<lambda>c.
            bind_eff (call (add_client c)) (\<lambda>inserted.
            reply b request (get_status inserted ''ok'' ''no effect'') [])))
          else return ())))"

definition leave_handler :: "boost \<Rightarrow> request \<Rightarrow> unit eff_w" where
  "leave_handler b request =
     (case rq_context request of
        On_client \<Rightarrow> reply b request ''no effect'' []
      | On_session \<Rightarrow>
          bind_eff (lift_outcome (get_params request)) (\<lambda>params.
          bind_eff (id_validator b request params ''client_id'') (\<lambda>valid.
          if valid then
            bind_eff (lift_outcome (get_param_as_id b params ''client_id'')) (\<lambda>client_id.
            bind_eff (call (remove_client client_id)) (\<lambda>removed.
            reply b request (get_status removed ''ok'' ''no effect'') []))
          else return ())))"

definition register_handler :: "boost \<Rightarrow> request \<Rightarrow> unit eff_w" where
  "register_handler b request =
     (case rq_context request of
        On_client \<Rightarrow> reply b request ''no effect'' []
      | On_session \<Rightarrow>
          bind_eff (register_validator b request) (\<lambda>valid.
          if valid then
            bind_eff (lift_outcome (get_params request)) (\<lambda>params.
            bind_eff (lift_outcome (get_param_as_number params ''sessions_port'')) (\<lambda>sessions_port.
            bind_eff (lift_outcome (get_param_as_number params ''clients_port'')) (\<lambda>clients_port.
            bind_eff (lift_outcome (get_param_as_bool params ''registered'')) (\<lambda>registered.
            bind_eff (gets (get_session (rq_entity_id request))) (\<lambda>found.
            case found of
              Some instance \<Rightarrow>
                bind_eff (modify (set_clients_port instance (ucast clients_port))) (\<lambda>_.
                bind_eff (modify (set_sessions_port instance (ucast sessions_port))) (\<lambda>_.
                bind_eff (modify (mark_as_registered instance)) (\<lambda>_.
                bind_eff (modify (sync b instance registered)) (\<lambda>_.
                reply b request ''ok'' []))))
            | None \<Rightarrow> reply b request ''no effect'' [])))))
          else return ()))"

definition send_object_to_client ::
    "boost \<Rightarrow> client \<Rightarrow> uuid \<Rightarrow> json_object \<Rightarrow> world \<Rightarrow> world" where
  "send_object_to_client b scoped_client from_client_id payload w =
     (let (tid, w') = draw_uuid b w;
          data = [(''transaction_id'', JString (uuid_to_string b tid)),
                  (''action'', JString ''send''),
                  (''params'', JObject
                     [(''from_client_id'', JString (uuid_to_string b from_client_id)),
                      (''to_client_id'', JString (uuid_to_string b (cl_id scoped_client))),
                      (''payload'', JObject payload)])]
      in client_send scoped_client (serialize b (JObject data)) w')"

definition send_handler :: "boost \<Rightarrow> request \<Rightarrow> unit eff_w" where
  "send_handler b request =
     bind_eff (send_validator b request) (\<lambda>valid.
     if valid then
       bind_eff (lift_outcome (get_params request)) (\<lambda>params.
       bind_eff (lift_outcome (get_param_as_id b params ''to_client_id'')) (\<lambda>to_client_id.
       bind_eff (lift_outcome (get_param_as_object params ''payload'')) (\<lambda>payload.
       case rq_context request of
         On_client \<Rightarrow>
           bind_eff (gets (get_client to_client_id)) (\<lambda>found.
           case found of
             Some scoped_client \<Rightarrow>
               bind_eff (gets get_id) (\<lambda>state_id.
               if cl_session_id scoped_client = state_id then
                 bind_eff (modify (send_object_to_client b scoped_client (rq_entity_id request) payload)) (\<lambda>_.
                 reply b request ''ok'' [])
               else
                 bind_eff (modify (send_to_session b (cl_session_id scoped_client) (rq_entity_id request)
                                     (cl_id scoped_client) payload)) (\<lambda>_.
                 reply b request ''ok'' []))
           | None \<Rightarrow> reply b request ''no effect'' [])
       | On_session \<Rightarrow>
           bind_eff (lift_outcome (get_param_as_id b params ''from_client_id'')) (\<lambda>from_client_id.
           bind_eff (gets (get_client to_client_id)) (\<lambda>found.
           case found of
             Some scoped_client \<Rightarrow>
               bind_eff (gets get_id) (\<lambda>state_id.
               if cl_session_id scoped_client = state_id then
                 bind_eff (modify (send_object_to_client b scoped_client from_client_id payload)) (\<lambda>_.
                 reply b request ''ok'' [])
               else reply b request ''no effect'' [])
           | None \<Rightarrow> reply b request ''no effect'' [])))))
     else return ())"

section \<open>Connecting to another node\<close>

text \<open>
  The loop \<^verbatim>\<open>while (!socket.is_open()) try { connect } catch { close; sleep }\<close>: it ends at the
  first attempt that succeeds and never otherwise, so its value is an option. It returns the number
  of the attempt after the successful one.
\<close>

partial_function (option) connect_loop :: "(nat \<Rightarrow> bool) \<Rightarrow> nat \<Rightarrow> nat option" where
  "connect_loop connect k = (if connect k then Some (Suc k) else connect_loop connect (Suc k))"

declare connect_loop.simps [code]

definition connect_until_open :: "boost \<Rightarrow> string \<Rightarrow> string \<Rightarrow> unit eff_w" where
  "connect_until_open b host service = (\<lambda>w.
     case connect_loop (connects b host service) (w_attempts w) of
       Some n \<Rightarrow> (Ok (), w\<lparr>w_attempts := n\<rparr>)
     | None \<Rightarrow> (Hang, w))"

definition session_found :: "string \<Rightarrow> size_t \<Rightarrow> size_t \<Rightarrow> world \<Rightarrow> bool" where
  "session_found host sessions_port clients_port w =
     fold (\<lambda>s found. if get_host w s = host \<and> ucast (get_sessions_port w s) = sessions_port
                       \<and> ucast (get_clients_port w s) = clients_port then True else found)
       (get_sessions w) False"

definition session_handler :: "boost \<Rightarrow> request \<Rightarrow> unit eff_w" where
  "session_handler b request =
     (case rq_context request of
        On_client \<Rightarrow> reply b request ''no effect'' []
      | On_session \<Rightarrow>
          bind_eff (session_validator b request) (\<lambda>valid.
          if valid then
            bind_eff (lift_outcome (get_params request)) (\<lambda>params.
            bind_eff (lift_outcome (get_param_as_string params ''host'')) (\<lambda>host.
            bind_eff (lift_outcome (get_param_as_number params ''sessions_port'')) (\<lambda>sessions_port.
            bind_eff (lift_outcome (get_param_as_number params ''clients_port'')) (\<lambda>clients_port.
            bind_eff (gets (session_found host sessions_port clients_port)) (\<lambda>found.
            if \<not> found then
              bind_eff (lift_outcome (if resolve b host (decimal (unat sessions_port)) then Ok ()
                                      else Throw Resolve_failure)) (\<lambda>_.
              bind_eff (call (make_session b)) (\<lambda>remote_session.
              bind_eff (connect_until_open b host (decimal (unat sessions_port))) (\<lambda>_.
              bind_eff (modify (set_clients_port remote_session (ucast clients_port))) (\<lambda>_.
              bind_eff (modify (set_sessions_port remote_session (ucast sessions_port))) (\<lambda>_.
              bind_eff (modify (session_run remote_session Remote)) (\<lambda>_.
              bind_eff (call (add_session remote_session)) (\<lambda>_.
              reply b request ''ok'' [])))))))
            else reply b request ''no effect'' [])))))
          else return ()))"

lemmas handler_defs = ping_handler_def unimplemented_handler_def broadcast_handler_def
  publish_handler_def subscribe_handler_def unsubscribe_handler_def is_subscribed_handler_def
  join_handler_def leave_handler_def register_handler_def send_handler_def session_handler_def

end
