(* ===== verification/Kernel.thy ===== *)
theory Kernel
  imports Handlers
begin

text \<open>
  The kernel (\<^verbatim>\<open>kernel.cpp\<close>): it allocates the response, validates the envelope, builds the
  request, dispatches on the action and marks the response as processed. An exception of a handler
  leaves the kernel (it has no \<^verbatim>\<open>try\<close>) with the changes made so far.
\<close>

definition respond_failed :: "boost \<Rightarrow> uuid \<Rightarrow> timestamp \<Rightarrow> (string \<times> string) list \<Rightarrow> world \<Rightarrow> world" where
  "respond_failed b tid timestamp bag w =
     (let (now, w') = read_clock b w
      in w'\<lparr>w_response := mark_as_failed b now tid ''unprocessable entity'' timestamp bag (w_response w')\<rparr>)"

definition dispatch :: "boost \<Rightarrow> string \<Rightarrow> request \<Rightarrow> unit eff_w" where
  "dispatch b action request =
     (if action = ''ping'' then ping_handler b request
      else if action = ''send'' then send_handler b request
      else if action = ''register'' then register_handler b request
      else if action = ''session'' then session_handler b request
      else if action = ''ack'' then modify (\<lambda>w. w\<lparr>w_response := mark_as_ack (w_response w)\<rparr>)
      else if action = ''subscribe'' then subscribe_handler b request
      else if action = ''is_subscribed'' then is_subscribed_handler b request
      else if action = ''unsubscribe'' then unsubscribe_handler b request
      else if action = ''broadcast'' then broadcast_handler b request
      else if action = ''publish'' then publish_handler b request
      else if action = ''join'' then join_handler b request
      else if action = ''leave'' then leave_handler b request
      else unimplemented_handler b request)"

definition kernel_rejected :: "boost \<Rightarrow> json_object \<Rightarrow> timestamp \<Rightarrow> validator \<Rightarrow> unit eff_w" where
  "kernel_rejected b data timestamp v =
     (if contains data ''transaction_id''
         \<and> (case map_of data ''transaction_id'' of
              Some (JString s) \<Rightarrow> is_uuid b (c_str s) | _ \<Rightarrow> False) then
        bind_eff (lift_outcome (get_param_as_id b data ''transaction_id'')) (\<lambda>tid.
        modify (respond_failed b tid timestamp (get_bag v)))
      else modify (respond_failed b nil_uuid timestamp (get_bag v)))"

definition kernel :: "boost \<Rightarrow> json_object \<Rightarrow> kernel_context \<Rightarrow> uuid \<Rightarrow> response eff_w" where
  "kernel b data ctx entity_id =
     bind_eff (call (read_clock b)) (\<lambda>timestamp.
     bind_eff (modify (\<lambda>w. w\<lparr>w_response := new_response\<rparr>)) (\<lambda>_.
     bind_eff
       (if get_passed (make_validator b data) then
          bind_eff (lift_outcome (get_param_as_id b data ''transaction_id'')) (\<lambda>tid.
          bind_eff (lift_outcome (get_param_as_string data ''action'')) (\<lambda>action.
          dispatch b action
            \<lparr>rq_transaction_id = tid, rq_entity_id = entity_id, rq_context = ctx, rq_data = data,
             rq_timestamp = timestamp, rq_is_local = False\<rparr>))
        else kernel_rejected b data timestamp (make_validator b data))
       (\<lambda>_.
     bind_eff (modify (\<lambda>w. w\<lparr>w_response := mark_as_processed (w_response w)\<rparr>)) (\<lambda>_.
     gets w_response))))"

end
