(* ===== verification/Validator_Facts.thy ===== *)
theory Validator_Facts
  imports Kernel
begin

text \<open>
  What the validators decide. Each one is a nest of early returns; its reference definition here is
  the list of its checks, of which the first that fails gives the complaint. The locale
  \<open>param_validator\<close> is the contract between the validators and the handlers: a validator throws
  exactly when the message has no \<^verbatim>\<open>params\<close> object, otherwise it either accepts without touching
  anything or writes its complaint into the response. It is interpreted on all seven validators.
\<close>

section \<open>Checks and complaints\<close>

fun first_complaint :: "string option list \<Rightarrow> string option" where
  "first_complaint [] = None"
| "first_complaint (None # cs) = first_complaint cs"
| "first_complaint (Some c # cs) = Some c"

definition field_complaint :: "json_object \<Rightarrow> string \<Rightarrow> (json \<Rightarrow> bool) \<Rightarrow> string \<Rightarrow> string option" where
  "field_complaint p field test kind =
     (case map_of p field of
        None \<Rightarrow> Some (''params '' @ field @ '' attribute must be present'')
      | Some v \<Rightarrow> if test v then None else Some (''params '' @ field @ '' attribute must be '' @ kind))"

definition id_complaint :: "boost \<Rightarrow> json_object \<Rightarrow> string \<Rightarrow> string option" where
  "id_complaint b p field =
     (case map_of p field of
        None \<Rightarrow> Some (''params '' @ field @ '' attribute must be present'')
      | Some (JString s) \<Rightarrow>
          if is_uuid b (c_str s) then None
          else Some (''params '' @ field @ '' attribute must be uuid'')
      | Some _ \<Rightarrow> Some (''params '' @ field @ '' attribute must be string''))"

definition peer_id_complaint :: "boost \<Rightarrow> request \<Rightarrow> json_object \<Rightarrow> string \<Rightarrow> string option" where
  "peer_id_complaint b rq p field =
     (if rq_context rq = On_session then id_complaint b p field else None)"

definition broadcast_complaint :: "boost \<Rightarrow> request \<Rightarrow> json_object \<Rightarrow> string option" where
  "broadcast_complaint b rq p = first_complaint
     [field_complaint p ''payload'' is_object ''object'', peer_id_complaint b rq p ''client_id'']"

definition is_subscribed_complaint :: "boost \<Rightarrow> request \<Rightarrow> json_object \<Rightarrow> string option" where
  "is_subscribed_complaint b rq p = first_complaint [field_complaint p ''channel'' is_string ''string'']"

definition publish_complaint :: "boost \<Rightarrow> request \<Rightarrow> json_object \<Rightarrow> string option" where
  "publish_complaint b rq p = first_complaint
     [field_complaint p ''channel'' is_string ''string'', field_complaint p ''payload'' is_object ''object'',
      peer_id_complaint b rq p ''client_id'']"

definition register_complaint :: "boost \<Rightarrow> request \<Rightarrow> json_object \<Rightarrow> string option" where
  "register_complaint b rq p = first_complaint
     [field_complaint p ''sessions_port'' is_number ''number'',
      field_complaint p ''clients_port'' is_number ''number'',
      field_complaint p ''registered'' is_bool ''boolean'']"

definition send_complaint :: "boost \<Rightarrow> request \<Rightarrow> json_object \<Rightarrow> string option" where
  "send_complaint b rq p = first_complaint
     [field_complaint p ''payload'' is_object ''object'', peer_id_complaint b rq p ''from_client_id'',
      id_complaint b p ''to_client_id'']"

definition session_complaint :: "boost \<Rightarrow> request \<Rightarrow> json_object \<Rightarrow> string option" where
  "session_complaint b rq p = first_complaint
     [field_complaint p ''host'' is_string ''string'',
      field_complaint p ''sessions_port'' is_number ''number'',
      field_complaint p ''clients_port'' is_number ''number'']"

definition subscriptions_complaint :: "boost \<Rightarrow> request \<Rightarrow> json_object \<Rightarrow> string option" where
  "subscriptions_complaint b rq p = first_complaint
     [field_complaint p ''channel'' is_string ''string'', peer_id_complaint b rq p ''client_id'']"

lemma first_complaint_None_iff: "first_complaint cs = None \<longleftrightarrow> (\<forall>c\<in>set cs. c = None)"
  by (induction cs rule: first_complaint.induct) auto

lemma first_complaint_Some: "first_complaint cs = Some c \<Longrightarrow> Some c \<in> set cs"
  by (induction cs rule: first_complaint.induct) auto

lemma field_complaint_None_iff:
  "field_complaint p field test kind = None \<longleftrightarrow> (\<exists>v. map_of p field = Some v \<and> test v)"
  by (simp add: field_complaint_def split: option.splits)

lemma id_complaint_None_iff:
  "id_complaint b p field = None \<longleftrightarrow> (\<exists>s. map_of p field = Some (JString s) \<and> is_uuid b (c_str s))"
  by (simp add: id_complaint_def split: option.splits json.splits)

lemma peer_id_complaint_None_iff:
  "peer_id_complaint b rq p field = None \<longleftrightarrow> (rq_context rq = On_session \<longrightarrow> id_complaint b p field = None)"
  by (simp add: peer_id_complaint_def)

lemmas complaint_defs = broadcast_complaint_def is_subscribed_complaint_def publish_complaint_def
  register_complaint_def send_complaint_def session_complaint_def subscriptions_complaint_def

lemmas no_complaint_iffs = first_complaint_None_iff field_complaint_None_iff id_complaint_None_iff
  peer_id_complaint_None_iff kind_iffs

section \<open>The contract\<close>

text \<open>What a validator with the given complaint does with a request, in one equation.\<close>

definition decided ::
    "(boost \<Rightarrow> request \<Rightarrow> json_object \<Rightarrow> string option) \<Rightarrow> boost \<Rightarrow> request \<Rightarrow> world \<Rightarrow> bool outcome \<times> world" where
  "decided complaint b rq w =
     (case map_of (rq_data rq) ''params'' of
        None \<Rightarrow> (Throw Out_of_range, w)
      | Some (JObject p) \<Rightarrow>
          (case complaint b rq p of
             None \<Rightarrow> (Ok True, w)
           | Some c \<Rightarrow> (Ok False, mark_as_invalid b rq ''params'' c w))
      | Some _ \<Rightarrow> (Throw Not_of_kind, w))"

locale param_validator =
  fixes validate :: "boost \<Rightarrow> request \<Rightarrow> bool eff_w"
    and complaint :: "boost \<Rightarrow> request \<Rightarrow> json_object \<Rightarrow> string option"
  assumes missing_params: "map_of (rq_data rq) ''params'' = None \<Longrightarrow> validate b rq w = (Throw Out_of_range, w)"
    and wrong_params: "map_of (rq_data rq) ''params'' = Some v \<Longrightarrow> \<not> is_object v \<Longrightarrow>
      validate b rq w = (Throw Not_of_kind, w)"
    and decides: "map_of (rq_data rq) ''params'' = Some (JObject p) \<Longrightarrow>
      validate b rq w = (case complaint b rq p of
          None \<Rightarrow> (Ok True, w)
        | Some c \<Rightarrow> (Ok False, mark_as_invalid b rq ''params'' c w))"
begin

lemma validate_cases:
  obtains (no_object) e where "validate b rq w = (Throw e, w)"
      "\<nexists>p. map_of (rq_data rq) ''params'' = Some (JObject p)"
  | (accepted) p where "map_of (rq_data rq) ''params'' = Some (JObject p)" "complaint b rq p = None"
      "validate b rq w = (Ok True, w)"
  | (refused) p c where "map_of (rq_data rq) ''params'' = Some (JObject p)" "complaint b rq p = Some c"
      "validate b rq w = (Ok False, mark_as_invalid b rq ''params'' c w)"
proof (cases "map_of (rq_data rq) ''params''")
  case None
  then show ?thesis using missing_params no_object by simp
next
  case (Some v)
  show ?thesis
  proof (cases "\<exists>p. v = JObject p")
    case True
    with Some obtain p where p: "map_of (rq_data rq) ''params'' = Some (JObject p)" by blast
    from decides [OF p] show ?thesis
      by (cases "complaint b rq p") (auto intro: accepted [OF p] refused [OF p])
  next
    case False
    then have "\<not> is_object v" by (cases v) auto
    with Some False show ?thesis using wrong_params no_object by simp
  qed
qed

lemma validate_True_iff:
  "validate b rq w = (Ok True, t) \<longleftrightarrow>
     t = w \<and> (\<exists>p. map_of (rq_data rq) ''params'' = Some (JObject p) \<and> complaint b rq p = None)"
  by (cases rule: validate_cases [where b = b and rq = rq and w = w]) auto

lemma validate_decided: "validate b rq w = decided complaint b rq w"
proof (cases "map_of (rq_data rq) ''params''")
  case None
  then show ?thesis by (simp add: decided_def missing_params)
next
  case (Some v)
  then show ?thesis by (cases v) (simp_all add: decided_def decides wrong_params)
qed

lemma validate_throws_iff:
  "(\<exists>e. fst (validate b rq w) = Throw e) \<longleftrightarrow> (\<nexists>p. map_of (rq_data rq) ''params'' = Some (JObject p))"
  by (cases rule: validate_cases [where b = b and rq = rq and w = w]) auto

lemma validate_state: "state.truncate (snd (validate b rq w)) = state.truncate w"
  by (cases rule: validate_cases [where b = b and rq = rq and w = w]) auto

text \<open>A handler is its validator followed by a body that runs only on an accepted request.\<close>

lemma guarded_cases:
  assumes "bind_eff (validate b rq) (\<lambda>valid. if valid then body else return ()) w = (Ok (), t)"
  obtains (accepted) p where "map_of (rq_data rq) ''params'' = Some (JObject p)"
      "complaint b rq p = None" "body w = (Ok (), t)"
  | (refused) p c where "map_of (rq_data rq) ''params'' = Some (JObject p)"
      "complaint b rq p = Some c" "t = mark_as_invalid b rq ''params'' c w"
proof (cases rule: validate_cases [where b = b and rq = rq and w = w])
  case (no_object e)
  with assms show ?thesis by simp
next
  case (accepted p)
  with assms that(1) show ?thesis by simp
next
  case (refused p c)
  from assms have "t = mark_as_invalid b rq ''params'' c w"
    by (simp add: bind_eff_def refused(3))
  with refused(1,2) show ?thesis by (rule that(2))
qed

end

section \<open>The validators meet the contract\<close>

lemma reject_eq: "reject b rq c w = (Ok False, mark_as_invalid b rq ''params'' c w)"
  by (simp add: reject_def bind_eff_modify)

lemma id_validator_eq:
  "id_validator b rq p field w =
     (case id_complaint b p field of
        None \<Rightarrow> (Ok True, w)
      | Some c \<Rightarrow> (Ok False, mark_as_invalid b rq ''params'' c w))"
  by (auto simp: id_validator_def id_complaint_def contains_def at_def bind_eff_lift reject_eq
      is_string_iff split: option.splits json.splits)

lemmas validator_eqs = bind_eff_lift reject_eq id_validator_eq at_def contains_def
  get_params_as_value_def complaint_defs field_complaint_def peer_id_complaint_def

lemma as_object_not_object: "\<not> is_object v \<Longrightarrow> as_object v = Throw Not_of_kind"
  by (cases v) auto

interpretation broadcast_v: param_validator broadcast_validator broadcast_complaint
  by unfold_locales
    (auto simp: broadcast_validator_def validator_eqs as_object_not_object split: option.splits)

interpretation is_subscribed_v: param_validator is_subscribed_validator is_subscribed_complaint
  by unfold_locales
    (auto simp: is_subscribed_validator_def validator_eqs as_object_not_object split: option.splits)

interpretation publish_v: param_validator publish_validator publish_complaint
  by unfold_locales
    (auto simp: publish_validator_def validator_eqs as_object_not_object split: option.splits)

interpretation register_v: param_validator register_validator register_complaint
  by unfold_locales
    (auto simp: register_validator_def validator_eqs as_object_not_object split: option.splits)

interpretation send_v: param_validator send_validator send_complaint
  by unfold_locales
    (auto simp: send_validator_def validator_eqs as_object_not_object bind_eff_def split: option.splits)

interpretation session_v: param_validator session_validator session_complaint
  by unfold_locales
    (auto simp: session_validator_def validator_eqs as_object_not_object split: option.splits)

interpretation subscriptions_v: param_validator subscriptions_validator subscriptions_complaint
  by unfold_locales
    (auto simp: subscriptions_validator_def validator_eqs as_object_not_object split: option.splits)

section \<open>The envelope\<close>

lemma passed_iff:
  "get_passed (make_validator b data) \<longleftrightarrow>
     (\<exists>action. map_of data ''action'' = Some (JString action)) \<and>
     (\<exists>s. map_of data ''transaction_id'' = Some (JString s) \<and> is_uuid b (c_str s))"
  by (auto simp: get_passed_def make_validator_def is_string_iff split: option.splits outcome.splits
      elim: as_string.elims)

lemma bag_empty_iff: "get_bag (make_validator b data) = [] \<longleftrightarrow> get_passed (make_validator b data)"
  by (auto simp: get_bag_def get_passed_def make_validator_def split: option.splits outcome.splits)

lemma bag_single:
  "\<not> get_passed (make_validator b data) \<Longrightarrow>
     \<exists>field argument. get_bag (make_validator b data) = [(field, argument)]"
  by (auto simp: get_bag_def get_passed_def make_validator_def split: option.splits outcome.splits if_splits)

end
