(* ===== verification/Handler_Facts.thy ===== *)
theory Handler_Facts
  imports Validator_Facts
begin

text \<open>
  What the handlers do on the requests their validators accept: one equation per handler and
  context, over the operations of \<open>State\<close> in their normal forms. The properties of the actions
  are read off these equations.
\<close>

section \<open>Frames\<close>

lemma next_reply_frame [simp, frame_simps]:
  "st_id (next_reply b rq m d w) = st_id w"
  "st_config (next_reply b rq m d w) = st_config w"
  "st_sessions (next_reply b rq m d w) = st_sessions w"
  "st_clients (next_reply b rq m d w) = st_clients w"
  "st_subscriptions (next_reply b rq m d w) = st_subscriptions w"
  "w_session_objs (next_reply b rq m d w) = w_session_objs w"
  "w_client_objs (next_reply b rq m d w) = w_client_objs w"
  "w_next_addr (next_reply b rq m d w) = w_next_addr w"
  "w_live_sessions (next_reply b rq m d w) = w_live_sessions w"
  "w_random (next_reply b rq m d w) = w_random w"
  "w_pending (next_reply b rq m d w) = w_pending w"
  "w_response (next_reply b rq m d w) =
     set_data b (clock_now b (w_clock w)) (rq_transaction_id rq) m (rq_timestamp rq) d (w_response w)"
  by (simp_all add: next_reply_def read_clock_def)

lemma mark_as_invalid_frame [simp, frame_simps]:
  "st_id (mark_as_invalid b rq f a w) = st_id w"
  "st_config (mark_as_invalid b rq f a w) = st_config w"
  "st_sessions (mark_as_invalid b rq f a w) = st_sessions w"
  "st_clients (mark_as_invalid b rq f a w) = st_clients w"
  "st_subscriptions (mark_as_invalid b rq f a w) = st_subscriptions w"
  "w_session_objs (mark_as_invalid b rq f a w) = w_session_objs w"
  "w_client_objs (mark_as_invalid b rq f a w) = w_client_objs w"
  "w_next_addr (mark_as_invalid b rq f a w) = w_next_addr w"
  "w_live_sessions (mark_as_invalid b rq f a w) = w_live_sessions w"
  "w_random (mark_as_invalid b rq f a w) = w_random w"
  "w_pending (mark_as_invalid b rq f a w) = w_pending w"
  "w_response (mark_as_invalid b rq f a w) =
     mark_as_failed b (clock_now b (w_clock w)) (rq_transaction_id rq) ''unprocessable entity''
       (rq_timestamp rq) [(f, a)] (w_response w)"
  by (simp_all add: mark_as_invalid_def read_clock_def)

section \<open>Extraction after validation\<close>

text \<open>The premises under which a handler's readers return: the forms of an accepted request.\<close>

definition has_params :: "request \<Rightarrow> json_object \<Rightarrow> bool" where
  "has_params rq p \<longleftrightarrow> map_of (rq_data rq) ''params'' = Some (JObject p)"

definition id_param :: "boost \<Rightarrow> json_object \<Rightarrow> string \<Rightarrow> uuid \<Rightarrow> bool" where
  "id_param b p field u \<longleftrightarrow> (case map_of p field of
      Some (JString s) \<Rightarrow> is_uuid b (c_str s) \<and> lexical_cast_uuid b s = Some u | _ \<Rightarrow> False)"

lemma id_param_iff:
  "id_param b p field u \<longleftrightarrow>
     (\<exists>s. map_of p field = Some (JString s) \<and> is_uuid b (c_str s) \<and> lexical_cast_uuid b s = Some u)"
  by (simp add: id_param_def split: option.splits json.splits)

lemma id_param_complaint: "id_param b p field u \<Longrightarrow> id_complaint b p field = None"
  by (auto simp: id_param_iff id_complaint_None_iff)

lemma id_param_get: "id_param b p field u \<Longrightarrow> get_param_as_id b p field = Ok u"
  by (auto simp: id_param_iff)

lemma id_param_to_string:
  "uuid_text_ok b \<Longrightarrow> map_of p field = Some (JString (uuid_to_string b u)) \<Longrightarrow> id_param b p field u"
  by (simp add: id_param_iff is_uuid_def uuid_text_okD)

lemma has_params_get: "has_params rq p \<Longrightarrow> get_params rq = Ok p"
  by (simp add: has_params_def)

lemma param_values:
  "map_of p field = Some (JString s) \<Longrightarrow> get_param_as_string p field = Ok s"
  "map_of p field = Some (JInt64 n) \<Longrightarrow> get_param_as_number p field = Ok n"
  "map_of p field = Some (JBool x) \<Longrightarrow> get_param_as_bool p field = Ok x"
  "map_of p field = Some (JObject obj) \<Longrightarrow> get_param_as_object p field = Ok obj"
  by simp_all

lemma param_id_value:
  "map_of p field = Some (JString s) \<Longrightarrow> lexical_cast_uuid b s = Some u \<Longrightarrow>
     get_param_as_id b p field = Ok u"
  by simp

lemmas accept_rules = broadcast_v.decides is_subscribed_v.decides publish_v.decides
  register_v.decides send_v.decides session_v.decides subscriptions_v.decides

lemmas accept_eqs = accept_rules [folded has_params_def] complaint_defs field_complaint_def
  peer_id_complaint_def id_param_complaint

lemmas run_defs = accept_eqs bind_eff_apply has_params_get id_param_get param_values forward_defs
  send_eqs get_id_def reply_def

section \<open>Equations\<close>

lemma ping_eq: "ping_handler b rq w = (Ok (), next_reply b rq ''pong'' [] w)"
  by (simp add: ping_handler_def reply_def)

lemma unimplemented_eq:
  "unimplemented_handler b rq w =
     (Ok (), mark_as_invalid b rq ''action'' ''action attribute isn't implemented'' w)"
  by (simp add: unimplemented_handler_def)

definition count_reply :: "boost \<Rightarrow> request \<Rightarrow> size_t \<Rightarrow> world \<Rightarrow> world" where
  "count_reply b rq n w =
     next_reply b rq (get_status (n > 0) ''ok'' ''no effect'') [(''count'', JUint64 n)] w"

lemma broadcast_on_client_eq:
  assumes "rq_context rq = On_client" and p: "has_params rq p"
    and payload: "map_of p ''payload'' = Some (JObject obj)"
  shows "broadcast_handler b rq w =
    (Ok (), count_reply b rq (of_nat (length (st_clients w)) - 1)
       (post (client_deliveries w (other_clients (st_id w) (rq_entity_id rq) w)
                (text_of b (make_broadcast_request_object b rq (rq_entity_id rq) obj)) @
              session_deliveries w (get_sessions w)
                (text_of b (make_broadcast_request_object b rq (rq_entity_id rq) obj))) w))"
  using assms by (simp add: broadcast_handler_def count_reply_def run_defs)

lemma broadcast_on_session_eq:
  assumes "rq_context rq = On_session" and "has_params rq p"
    and "map_of p ''payload'' = Some (JObject obj)" and "id_param b p ''client_id'' cid"
  shows "broadcast_handler b rq w =
    (Ok (), count_reply b rq (of_nat (length (st_clients w)) - 1)
       (post (client_deliveries w (other_clients (st_id w) cid w)
                (text_of b (make_broadcast_request_object b rq cid obj))) w))"
  using assms by (simp add: broadcast_handler_def count_reply_def run_defs)

lemma publish_on_client_eq:
  assumes "rq_context rq = On_client" and "has_params rq p"
    and "map_of p ''channel'' = Some (JString ch)" and "map_of p ''payload'' = Some (JObject obj)"
  shows "publish_handler b rq w =
    (Ok (), count_reply b rq (of_nat (length (st_clients w)) - 1)
       (post (client_deliveries w (other_clients (st_id w) (rq_entity_id rq) w)
                (text_of b (make_publish_request_object b rq (rq_entity_id rq) ch obj)) @
              session_deliveries w
                (filter (\<lambda>s. ses_id s \<in> channel_sessions ch w) (get_sessions w))
                (text_of b (make_publish_request_object b rq (rq_entity_id rq) ch obj))) w))"
  using assms
  by (simp add: publish_handler_def count_reply_def run_defs channel_sessions_def get_sessions_def)

lemma publish_on_session_eq:
  assumes "rq_context rq = On_session" and "has_params rq p"
    and "map_of p ''channel'' = Some (JString ch)" and "map_of p ''payload'' = Some (JObject obj)"
    and "id_param b p ''client_id'' cid"
  shows "publish_handler b rq w =
    (Ok (), count_reply b rq (of_nat (length (st_clients w)) - 1)
       (post (client_deliveries w (other_clients (st_id w) cid w)
                (text_of b (make_publish_request_object b rq cid ch obj))) w))"
  using assms by (simp add: publish_handler_def count_reply_def run_defs)

definition status_reply :: "boost \<Rightarrow> request \<Rightarrow> bool \<Rightarrow> world \<Rightarrow> world" where
  "status_reply b rq gate w = next_reply b rq (get_status gate ''ok'' ''no effect'') [] w"

lemma subscribe_on_client_eq:
  assumes "rq_context rq = On_client" and "has_params rq p"
    and "map_of p ''channel'' = Some (JString ch)"
  shows "subscribe_handler b rq w =
    (let (success, w1) = subscribe (st_id w) (rq_entity_id rq) ch w;
         w2 = status_reply b rq success w1
     in (Ok (), snd (subscribe_to_sessions b rq (rq_entity_id rq) ch w2)))"
  using assms
  by (simp add: subscribe_handler_def status_reply_def run_defs case_prod_beta Let_def
      del: next_reply_frame)

lemma subscribe_on_session_eq:
  assumes "rq_context rq = On_session" and "has_params rq p"
    and "map_of p ''channel'' = Some (JString ch)" and "id_param b p ''client_id'' cid"
  shows "subscribe_handler b rq w =
    (let (success, w1) = subscribe (rq_entity_id rq) cid ch w in (Ok (), status_reply b rq success w1))"
  using assms by (simp add: subscribe_handler_def status_reply_def run_defs case_prod_beta)

lemma unsubscribe_on_client_eq:
  assumes "rq_context rq = On_client" and "has_params rq p"
    and "map_of p ''channel'' = Some (JString ch)"
  shows "unsubscribe_handler b rq w =
    (let (success, w1) = unsubscribe (st_id w) (rq_entity_id rq) ch w;
         w2 = status_reply b rq success w1
     in (Ok (), snd (unsubscribe_to_sessions b rq (rq_entity_id rq) ch w2)))"
  using assms
  by (simp add: unsubscribe_handler_def status_reply_def run_defs case_prod_beta Let_def
      del: next_reply_frame)

lemma unsubscribe_on_session_eq:
  assumes "rq_context rq = On_session" and "has_params rq p"
    and "map_of p ''channel'' = Some (JString ch)" and "id_param b p ''client_id'' cid"
  shows "unsubscribe_handler b rq w =
    (let (success, w1) = unsubscribe (rq_entity_id rq) cid ch w in (Ok (), status_reply b rq success w1))"
  using assms by (simp add: unsubscribe_handler_def status_reply_def run_defs case_prod_beta)

lemma is_subscribed_eq:
  assumes "has_params rq p" and "map_of p ''channel'' = Some (JString ch)"
  shows "is_subscribed_handler b rq w =
    (Ok (), next_reply b rq
       (case rq_context rq of
          On_client \<Rightarrow> get_status (is_subscribed (rq_entity_id rq) ch w) ''yes'' ''no''
        | On_session \<Rightarrow> ''no effect'') [] w)"
  using assms by (cases "rq_context rq") (simp_all add: is_subscribed_handler_def run_defs)

lemma on_client_no_effect:
  assumes "rq_context rq = On_client"
  shows "join_handler b rq w = (Ok (), next_reply b rq ''no effect'' [] w)"
    "leave_handler b rq w = (Ok (), next_reply b rq ''no effect'' [] w)"
    "register_handler b rq w = (Ok (), next_reply b rq ''no effect'' [] w)"
    "session_handler b rq w = (Ok (), next_reply b rq ''no effect'' [] w)"
  using assms by (simp_all add: join_handler_def leave_handler_def register_handler_def
      session_handler_def reply_def)

lemma join_on_session_eq:
  assumes "rq_context rq = On_session" and "has_params rq p" and "id_param b p ''client_id'' cid"
  shows "join_handler b rq w =
    (let (c, w1) = new_client (rq_entity_id rq) cid w; (inserted, w2) = add_client c w1
     in (Ok (), status_reply b rq inserted w2))"
  using assms
  by (simp add: join_handler_def status_reply_def run_defs id_validator_eq case_prod_beta Let_def)

lemma leave_on_session_eq:
  assumes "rq_context rq = On_session" and "has_params rq p" and "id_param b p ''client_id'' cid"
  shows "leave_handler b rq w =
    (let (removed, w1) = remove_client cid w in (Ok (), status_reply b rq removed w1))"
  using assms
  by (simp add: leave_handler_def status_reply_def run_defs id_validator_eq case_prod_beta Let_def)

lemma register_on_session_eq:
  assumes "rq_context rq = On_session" and "has_params rq p"
    and "map_of p ''sessions_port'' = Some (JInt64 sp)" and "map_of p ''clients_port'' = Some (JInt64 cp)"
    and "map_of p ''registered'' = Some (JBool registered)"
  shows "register_handler b rq w =
    (case get_session (rq_entity_id rq) w of
       None \<Rightarrow> (Ok (), next_reply b rq ''no effect'' [] w)
     | Some s \<Rightarrow> (Ok (), next_reply b rq ''ok'' []
         (sync b s registered (mark_as_registered s (set_sessions_port s (ucast sp)
            (set_clients_port s (ucast cp) w))))))"
  using assms by (simp add: register_handler_def run_defs split: option.splits)

lemma send_object_to_client_eq:
  "send_object_to_client b c frm payload w =
     post (client_deliveries w [c] (text_of b (send_object b (random_uuid b (w_random w)) frm (cl_id c) payload)))
       (snd (draw_uuid b w))"
  by (simp add: send_object_to_client_def Let_def case_prod_beta client_send_post send_object_def)

lemma send_on_client_eq:
  assumes "rq_context rq = On_client" and "has_params rq p"
    and "map_of p ''payload'' = Some (JObject obj)" and "id_param b p ''to_client_id'' to"
  shows "send_handler b rq w =
    (Ok (), case get_client to w of
       None \<Rightarrow> next_reply b rq ''no effect'' [] w
     | Some c \<Rightarrow> next_reply b rq ''ok'' []
         (if cl_session_id c = st_id w then send_object_to_client b c (rq_entity_id rq) obj w
          else send_to_session b (cl_session_id c) (rq_entity_id rq) (cl_id c) obj w))"
  using assms by (simp add: send_handler_def run_defs del: next_reply_frame split: option.splits)

lemma send_on_session_eq:
  assumes "rq_context rq = On_session" and "has_params rq p"
    and "map_of p ''payload'' = Some (JObject obj)" and "id_param b p ''to_client_id'' to"
    and "id_param b p ''from_client_id'' frm"
  shows "send_handler b rq w =
    (Ok (), case get_client to w of
       None \<Rightarrow> next_reply b rq ''no effect'' [] w
     | Some c \<Rightarrow>
         (if cl_session_id c = st_id w
          then next_reply b rq ''ok'' [] (send_object_to_client b c frm obj w)
          else next_reply b rq ''no effect'' [] w))"
  using assms by (simp add: send_handler_def run_defs del: next_reply_frame split: option.splits)

end
