(* ===== verification/Wellformed.thy ===== *)
theory Wellformed
  imports Handler_Facts
begin

text \<open>
  The invariant of a node: the class invariant of \<^verbatim>\<open>state\<close> and the discipline of the object
  store (every registered session is alive, addresses are allocated and never shared). It is kept
  by every operation, every handler and the kernel, also when a call ends in an exception.
  \<open>core\<close> is the part of the world the invariant reads; most operations leave it alone.
\<close>

definition wf_world :: "world \<Rightarrow> bool" where
  "wf_world w \<longleftrightarrow>
     wf_state w \<and>
     snd ` set (st_sessions w) \<subseteq> set (w_live_sessions w) \<and>
     distinct (map ses_addr (w_live_sessions w)) \<and>
     (\<forall>s\<in>set (w_live_sessions w). ses_addr s < w_next_addr w) \<and>
     distinct (map cl_addr (st_clients w)) \<and>
     (\<forall>c\<in>set (st_clients w). cl_addr c < w_next_addr w)"

definition core :: "world \<Rightarrow> state \<times> nat \<times> session list" where
  "core w = (state.truncate w, w_next_addr w, w_live_sessions w)"

lemma wf_world_cong:
  assumes "core w' = core w"
  shows "wf_world w' = wf_world w"
proof -
  have t: "state.truncate w' = state.truncate w"
    and "w_next_addr w' = w_next_addr w" "w_live_sessions w' = w_live_sessions w"
    using assms by (simp_all add: core_def)
  then show ?thesis
    using wf_state_cong [OF t] state_fields_of_truncate [OF t] by (simp add: wf_world_def)
qed

lemma wf_world_core: "wf_world w \<Longrightarrow> core w' = core w \<Longrightarrow> wf_world w'"
  using wf_world_cong by blast

lemma wf_world_state: "wf_world w \<Longrightarrow> wf_state w"
  by (simp add: wf_world_def)

section \<open>Operations that leave the core alone\<close>

lemma core_devices [simp, frame_simps]:
  "core (post xs w) = core w"
  "core (snd (read_clock b w)) = core w"
  "core (snd (draw_uuid b w)) = core w"
  "core (update_session s f w) = core w"
  "core (update_client c g w) = core w"
  "core (w\<lparr>w_response := r\<rparr>) = core w"
  "core (w\<lparr>w_attempts := n\<rparr>) = core w"
  "core (w\<lparr>w_pending := xs\<rparr>) = core w"
  by (simp_all add: core_def device_defs post_def state.truncate_def)

lemma core_objects [simp, frame_simps]:
  "core (initiate x w) = core w"
  "core (set_sessions_port s p w) = core w"
  "core (set_clients_port s p w) = core w"
  "core (set_host s h w) = core w"
  "core (mark_as_registered s w) = core w"
  "core (session_send s m w) = core w"
  "core (session_run s ctx w) = core w"
  "core (set_socket c w) = core w"
  "core (client_run b c w) = core w"
  "core (client_send c m w) = core w"
  by (simp_all add: initiate_post object_defs session_send_post client_send_post Let_def
      case_prod_beta split: option.splits)

lemma core_sending [simp, frame_simps]:
  "core (next_reply b rq m d w) = core w"
  "core (mark_as_invalid b rq f a w) = core w"
  "core (respond_failed b tid ts bag w) = core w"
  "core (snd (send_to_sessions b d w)) = core w"
  "core (snd (send_to_others_clients b d sid cid w)) = core w"
  "core (snd (send_to_subscribed_sessions b d ch w)) = core w"
  "core (send_to_session b sid frm to payload w) = core w"
  "core (snd (join_to_sessions b i w)) = core w"
  "core (snd (leave_to_sessions b i w)) = core w"
  "core (snd (broadcast_to_sessions b rq i d w)) = core w"
  "core (snd (broadcast_to_clients b rq sid i d w)) = core w"
  "core (snd (publish_to_sessions b rq i ch d w)) = core w"
  "core (snd (publish_to_clients b rq sid i ch d w)) = core w"
  "core (snd (subscribe_to_sessions b rq i ch w)) = core w"
  "core (snd (unsubscribe_to_sessions b rq i ch w)) = core w"
  "core (send_object_to_client b c frm payload w) = core w"
  by (simp_all add: send_eqs forward_defs send_object_to_client_eq next_reply_def
      mark_as_invalid_def respond_failed_def Let_def case_prod_beta)

lemma core_fold:
  assumes "\<And>x w. core (f x w) = core w"
  shows "core (fold f xs w) = core w"
  using assms by (induction xs arbitrary: w) auto

lemma core_sync [simp, frame_simps]: "core (sync b s r w) = core w"
proof -
  have "core (sync_sessions b s x v) = core v" "core (sync_client b s c v) = core v"
    "core (sync_subscription b s y v) = core v" for x c y v
    by (simp_all add: sync_sessions_def sync_client_def sync_subscription_def Let_def case_prod_beta)
  then show ?thesis by (simp add: sync_def Let_def core_fold)
qed

section \<open>Operations that change the registry\<close>

lemma wf_new_session:
  "wf_world w \<Longrightarrow> wf_world (snd (new_session i w))"
  "fst (new_session i w) \<in> set (w_live_sessions (snd (new_session i w)))"
  by (auto simp: wf_world_def new_session_def Let_def wf_state_def less_Suc_eq)

lemma wf_make_session:
  "wf_world w \<Longrightarrow> wf_world (snd (make_session b w))"
  "fst (make_session b w) \<in> set (w_live_sessions (snd (make_session b w)))"
  using wf_new_session wf_world_cong [OF core_devices(3)]
  by (simp_all add: make_session_def case_prod_beta)

lemma add_session_frame [simp]:
  "w_live_sessions (snd (add_session s w)) = w_live_sessions w"
  "w_next_addr (snd (add_session s w)) = w_next_addr w"
  "st_clients (snd (add_session s w)) = st_clients w"
  "st_subscriptions (snd (add_session s w)) = st_subscriptions w"
  "st_id (snd (add_session s w)) = st_id w"
  by (simp_all add: add_session_def case_prod_beta)

lemma wf_world_add_session:
  assumes "wf_world w" and "s \<in> set (w_live_sessions w)"
  shows "wf_world (snd (add_session s w))"
proof -
  have "snd ` set (st_sessions (snd (add_session s w))) \<subseteq> insert s (snd ` set (st_sessions w))"
    using set_map_emplace [of "ses_id s" s "st_sessions w"]
    by (force simp: add_session_def case_prod_beta)
  with assms wf_add_session [of w s] show ?thesis
    by (auto simp: wf_world_def)
qed

lemma wf_world_remove_session:
  assumes "wf_world w"
  shows "wf_world (snd (remove_session i w))"
proof -
  have "snd ` set (st_sessions (snd (remove_session i w))) \<subseteq> snd ` set (st_sessions w)"
    by (auto simp: remove_session_def case_prod_beta map_erase_def)
  with assms wf_remove_session [of w i] show ?thesis
    by (auto simp: wf_world_def remove_session_def case_prod_beta)
qed

definition fresh_client :: "world \<Rightarrow> client \<Rightarrow> bool" where
  "fresh_client w c \<longleftrightarrow> cl_addr c < w_next_addr w \<and> cl_addr c \<notin> cl_addr ` set (st_clients w)
     \<and> (cl_is_local c \<longleftrightarrow> cl_session_id c = st_id w)"

lemma wf_new_client:
  assumes "wf_world w"
  shows "wf_world (snd (new_client sid i w))"
    and "fresh_client (snd (new_client sid i w)) (fst (new_client sid i w))"
  using assms
  by (auto simp: wf_world_def new_client_def Let_def wf_state_def less_Suc_eq fresh_client_def)

lemma wf_make_client:
  assumes "wf_world w"
  shows "wf_world (snd (make_client b sid w))"
    and "fresh_client (snd (make_client b sid w)) (fst (make_client b sid w))"
  using wf_new_client [of "snd (draw_uuid b w)"] assms wf_world_cong [OF core_devices(3)]
  by (simp_all add: make_client_def case_prod_beta)

lemma wf_world_add_client:
  assumes "wf_world w" and "fresh_client w c"
  shows "wf_world (snd (add_client c w))"
proof -
  have "wf_state (snd (add_client c w))"
    using assms by (simp add: wf_add_client wf_world_def fresh_client_def)
  with assms show ?thesis
    by (auto simp: wf_world_def fresh_client_def add_client_def case_prod_beta clients_insert_eq)
qed

lemma wf_world_fewer_clients:
  assumes "wf_world w" and "wf_state w'" and "st_clients w' = filter p (st_clients w)"
    and "st_sessions w' = st_sessions w" and "w_live_sessions w' = w_live_sessions w"
    and "w_next_addr w' = w_next_addr w"
  shows "wf_world w'"
proof -
  have "distinct (map cl_addr (st_clients w'))"
    using assms(1,3) by (simp add: wf_world_def distinct_map_filter)
  with assms show ?thesis by (simp add: wf_world_def)
qed

lemma wf_world_remove_client:
  assumes "wf_world w"
  shows "wf_world (snd (remove_client i w))"
  by (rule wf_world_fewer_clients [OF assms wf_remove_client [OF wf_world_state [OF assms]],
        where p = "\<lambda>c. cl_id c \<noteq> i"])
    (simp_all add: remove_client_def Let_def mi_erase_range_def)

lemma wf_world_subscribe:
  assumes "wf_world w"
  shows "wf_world (snd (subscribe s c ch w))"
  by (rule wf_world_fewer_clients [OF assms wf_subscribe [OF wf_world_state [OF assms]],
        where p = "\<lambda>c. True"])
    (simp_all add: subscribe_def case_prod_beta)

lemma wf_world_unsubscribe:
  assumes "wf_world w"
  shows "wf_world (snd (unsubscribe s c ch w))"
  by (rule wf_world_fewer_clients [OF assms wf_unsubscribe [OF wf_world_state [OF assms]],
        where p = "\<lambda>c. True"])
    (simp_all add: unsubscribe_eq Let_def)

lemma wf_world_remove_state_of_session:
  assumes "wf_world w"
  shows "wf_world (remove_state_of_session i w)"
  by (rule wf_world_fewer_clients [OF assms wf_remove_state_of_session [OF wf_world_state [OF assms]],
        where p = "\<lambda>c. cl_session_id c \<noteq> i"])
    (simp_all add: remove_state_of_session_def Let_def mi_erase_range_def)

lemmas wf_world_rules = wf_new_session(1) wf_make_session(1) wf_world_remove_session
  wf_new_client(1) wf_make_client(1) wf_world_remove_client wf_world_subscribe wf_world_unsubscribe
  wf_world_remove_state_of_session

section \<open>Handlers keep the invariant\<close>

lemma keeps_case_context [keeps_intros]:
  "keeps P m \<Longrightarrow> keeps P n \<Longrightarrow> keeps P (case ctx of On_session \<Rightarrow> m | On_client \<Rightarrow> n)"
  by (cases ctx) auto

lemma keeps_modify_core: "(\<And>w. core (f w) = core w) \<Longrightarrow> keeps wf_world (modify f)"
  by (auto simp: keeps_def intro: wf_world_core)

lemma keeps_call_core: "(\<And>w. core (snd (f w)) = core w) \<Longrightarrow> keeps wf_world (call f)"
  by (auto simp: keeps_def intro: wf_world_core)

lemma keeps_reply [keeps_intros]: "keeps wf_world (reply b rq m d)"
  by (simp add: reply_def keeps_modify_core)

context param_validator
begin

lemma validate_keeps: "keeps wf_world (validate b rq)"
proof (rule keepsI)
  fix w assume "wf_world w"
  then show "wf_world (snd (validate b rq w))"
    by (cases rule: validate_cases [where b = b and rq = rq and w = w])
      (auto simp: wf_world_cong [OF core_sending(2)])
qed

end

lemma keeps_id_validator [keeps_intros]: "keeps wf_world (id_validator b rq p field)"
  by (auto simp: keeps_def id_validator_eq wf_world_cong [OF core_sending(2)] split: option.splits)

lemmas keeps_validators [keeps_intros] = broadcast_v.validate_keeps is_subscribed_v.validate_keeps
  publish_v.validate_keeps register_v.validate_keeps send_v.validate_keeps
  session_v.validate_keeps subscriptions_v.validate_keeps

lemma keeps_registry_calls [keeps_intros]:
  "keeps wf_world (call (subscribe s c ch))"
  "keeps wf_world (call (unsubscribe s c ch))"
  "keeps wf_world (call (remove_client i))"
  "keeps wf_world (call (make_session b))"
  by (auto intro: keeps_call wf_world_rules)

lemma keeps_alloc_client:
  assumes f: "\<And>x. keeps wf_world (f x)"
  shows "keeps wf_world (bind_eff (call (new_client sid i)) (\<lambda>c. bind_eff (call (add_client c)) f))"
proof (rule keepsI)
  fix w assume w: "wf_world w"
  let ?c = "fst (new_client sid i w)" and ?w = "snd (new_client sid i w)"
  have "wf_world (snd (add_client ?c ?w))"
    using wf_new_client [OF w] by (rule wf_world_add_client)
  then show "wf_world (snd (bind_eff (call (new_client sid i)) (\<lambda>c. bind_eff (call (add_client c)) f) w))"
    by (simp add: bind_eff_apply keepsD [OF f])
qed

definition wf_live :: "session \<Rightarrow> world \<Rightarrow> bool" where
  "wf_live s w \<longleftrightarrow> wf_world w \<and> s \<in> set (w_live_sessions w)"

lemma wf_live_cong: "core w' = core w \<Longrightarrow> wf_live s w' = wf_live s w"
  using wf_world_cong [of w' w] by (simp add: wf_live_def) (simp add: core_def)

lemma wf_live_core: "wf_live s w \<Longrightarrow> core w' = core w \<Longrightarrow> wf_live s w'"
  using wf_live_cong by blast

lemma keeps_live_modify: "(\<And>w. core (f w) = core w) \<Longrightarrow> keeps (wf_live s) (modify f)"
  by (auto simp: keeps_def intro: wf_live_core)

lemma keeps_live_add_session: "keeps (wf_live s) (call (add_session s))"
  by (rule keeps_call) (simp add: wf_live_def wf_world_add_session)

lemma keeps_live_connect: "keeps (wf_live s) (connect_until_open b host service)"
  by (auto simp: keeps_def connect_until_open_def wf_live_cong [OF core_devices(7)] split: option.splits)

lemma keeps_alloc_session:
  assumes f: "\<And>s. keeps (wf_live s) (f s)"
  shows "keeps wf_world (bind_eff (call (make_session b)) f)"
proof (rule keepsI)
  fix w assume "wf_world w"
  then have "wf_live (fst (make_session b w)) (snd (make_session b w))"
    by (simp add: wf_live_def wf_make_session)
  from keepsD [OF f this]
  show "wf_world (snd (bind_eff (call (make_session b)) f w))"
    by (simp add: bind_eff_apply wf_live_def)
qed

lemmas keeps_live_rules = keeps_bind keeps_live_connect keeps_live_add_session keeps_live_modify

lemma keeps_handlers:
  "keeps wf_world (ping_handler b rq)"
  "keeps wf_world (unimplemented_handler b rq)"
  "keeps wf_world (is_subscribed_handler b rq)"
  "keeps wf_world (subscribe_handler b rq)"
  "keeps wf_world (unsubscribe_handler b rq)"
  "keeps wf_world (broadcast_handler b rq)"
  "keeps wf_world (publish_handler b rq)"
  "keeps wf_world (send_handler b rq)"
  "keeps wf_world (register_handler b rq)"
  "keeps wf_world (leave_handler b rq)"
  unfolding handler_defs
  by (intro keeps_intros keeps_modify_core keeps_call_core; simp)+

lemma keeps_join: "keeps wf_world (join_handler b rq)"
  unfolding join_handler_def
  by (rule keeps_case_context keeps_alloc_client keeps_reply keeps_if keeps_lift keeps_return
      keeps_id_validator keeps_bind)+

lemma keeps_session: "keeps wf_world (session_handler b rq)"
proof -
  have "keeps (wf_live s) (bind_eff (connect_until_open b host service) (\<lambda>_.
      bind_eff (modify (set_clients_port s cp)) (\<lambda>_.
      bind_eff (modify (set_sessions_port s sp)) (\<lambda>_.
      bind_eff (modify (session_run s Remote)) (\<lambda>_.
      bind_eff (call (add_session s)) (\<lambda>_. reply b rq ''ok'' [])))))) " for s host service cp sp
    unfolding reply_def by (intro keeps_live_rules) simp_all
  note connected = this
  show ?thesis
    unfolding session_handler_def
    by (rule keeps_case_context keeps_alloc_session connected keeps_reply keeps_if keeps_lift
        keeps_return keeps_gets keeps_validators keeps_bind)+
qed

lemma keeps_dispatch: "keeps wf_world (dispatch b action rq)"
  unfolding dispatch_def
  by (intro keeps_if keeps_handlers keeps_join keeps_session keeps_modify_core) simp

lemma keeps_kernel: "keeps wf_world (kernel b data ctx i)"
  unfolding kernel_def kernel_rejected_def
  by (intro keeps_intros keeps_dispatch keeps_modify_core keeps_call_core) simp_all

end
