(* ===== verification/Protocol.thy ===== *)
theory Protocol
  imports Wellformed
begin

text \<open>
  The protocol every handler and the kernel follow: a call that returns has written exactly one
  answer for its transaction into the response. The locale \<open>handler\<close> is the contract of a
  handler with the kernel (it keeps the node's invariant and it answers); it is interpreted on the
  twelve handlers, and the kernel's own theorems rest on it.
\<close>

section \<open>Answers\<close>

definition string_member :: "json_object \<Rightarrow> string \<Rightarrow> bool" where
  "string_member obj key = (case map_of obj key of Some (JString _) \<Rightarrow> True | _ \<Rightarrow> False)"

definition object_member :: "json_object \<Rightarrow> string \<Rightarrow> bool" where
  "object_member obj key = (case map_of obj key of Some (JObject _) \<Rightarrow> True | _ \<Rightarrow> False)"

text \<open>
  \<open>answered b tid r\<close>: the document is an acknowledgement with a message and a data object, its
  status agrees with the failed flag and it names the transaction (a failure of the nil transaction
  is answered with \<^verbatim>\<open>null\<close>).
\<close>

definition answered :: "boost \<Rightarrow> uuid \<Rightarrow> response \<Rightarrow> bool" where
  "answered b tid r \<longleftrightarrow>
     map_of (rs_data r) ''action'' = Some (JString ''ack'') \<and>
     string_member (rs_data r) ''message'' \<and> object_member (rs_data r) ''data'' \<and>
     map_of (rs_data r) ''status'' = Some (JString (if rs_failed r then ''failed'' else ''success'')) \<and>
     map_of (rs_data r) ''transaction_id'' =
       Some (if rs_failed r \<and> tid = nil_uuid then JNull else JString (uuid_to_string b tid))"

lemma answered_set_data: "\<not> rs_failed r \<Longrightarrow> answered b tid (set_data b now tid m ts d r)"
  by (simp add: answered_def set_data_def Let_def string_member_def object_member_def)

lemma answered_mark_as_failed: "answered b tid (mark_as_failed b now tid err ts bag r)"
  by (simp add: answered_def mark_as_failed_def Let_def string_member_def object_member_def)

definition pristine :: "response \<Rightarrow> bool" where
  "pristine r \<longleftrightarrow> \<not> rs_failed r \<and> \<not> rs_processed r \<and> \<not> rs_is_ack r"

definition settled :: "boost \<Rightarrow> uuid \<Rightarrow> response \<Rightarrow> bool" where
  "settled b tid r \<longleftrightarrow> answered b tid r \<and> \<not> rs_processed r \<and> \<not> rs_is_ack r"

abbreviation pristine_w :: "world \<Rightarrow> bool" where
  "pristine_w w \<equiv> pristine (w_response w)"

abbreviation settled_w :: "boost \<Rightarrow> request \<Rightarrow> world \<Rightarrow> bool" where
  "settled_w b rq w \<equiv> settled b (rq_transaction_id rq) (w_response w)"

section \<open>Rules for programs that answer\<close>

text \<open>\<open>answering\<close>: from an untouched response, a normal return has settled it.\<close>

definition answering :: "boost \<Rightarrow> request \<Rightarrow> unit eff_w \<Rightarrow> bool" where
  "answering b rq m \<longleftrightarrow> hoare pristine_w m (\<lambda>_. settled_w b rq)"

definition response_free :: "'a eff_w \<Rightarrow> bool" where
  "response_free m \<longleftrightarrow> (\<forall>w. w_response (snd (m w)) = w_response w)"

named_theorems answer_rules \<open>rules that build a proof of answering\<close>

lemma response_free_atoms [answer_rules]:
  "response_free (return a)"
  "response_free (lift_outcome r)"
  "response_free (gets f)"
  by (simp_all add: response_free_def)

lemma response_free_call: "(\<And>w. w_response (snd (f w)) = w_response w) \<Longrightarrow> response_free (call f)"
  by (simp add: response_free_def)

lemma response_free_modify: "(\<And>w. w_response (f w) = w_response w) \<Longrightarrow> response_free (modify f)"
  by (simp add: response_free_def)

lemma response_free_bind [answer_rules]:
  "response_free m \<Longrightarrow> (\<And>a. response_free (f a)) \<Longrightarrow> response_free (bind_eff m f)"
  by (auto simp: response_free_def bind_eff_apply split: outcome.splits)

lemma response_free_context [answer_rules]:
  "response_free m \<Longrightarrow> response_free n \<Longrightarrow> response_free (case ctx of On_session \<Rightarrow> m | On_client \<Rightarrow> n)"
  by (cases ctx) auto

lemma answering_reply [answer_rules]: "answering b rq (reply b rq m d)"
  by (auto simp: answering_def hoare_def reply_def pristine_def settled_def answered_set_data)

lemma answering_invalid [answer_rules]: "answering b rq (modify (mark_as_invalid b rq f a))"
  by (auto simp: answering_def hoare_def pristine_def settled_def answered_mark_as_failed)

lemma answering_bind [answer_rules]:
  "response_free m \<Longrightarrow> (\<And>a. answering b rq (f a)) \<Longrightarrow> answering b rq (bind_eff m f)"
  unfolding answering_def hoare_def response_free_def bind_eff_eq_Ok by (metis snd_conv)

lemma answering_then [answer_rules]:
  "answering b rq m \<Longrightarrow> (\<And>a. response_free (f a)) \<Longrightarrow> answering b rq (bind_eff m f)"
  unfolding answering_def hoare_def response_free_def bind_eff_eq_Ok by (metis snd_conv)

lemma answering_if [answer_rules]:
  "answering b rq m \<Longrightarrow> answering b rq n \<Longrightarrow> answering b rq (if c then m else n)"
  by simp

lemma answering_context [answer_rules]:
  "answering b rq m \<Longrightarrow> answering b rq n \<Longrightarrow>
     answering b rq (case ctx of On_session \<Rightarrow> m | On_client \<Rightarrow> n)"
  by (cases ctx) auto

lemma answering_option [answer_rules]:
  "answering b rq m \<Longrightarrow> (\<And>x. answering b rq (f x)) \<Longrightarrow>
     answering b rq (case opt of None \<Rightarrow> m | Some x \<Rightarrow> f x)"
  by (cases opt) auto

lemma mark_as_invalid_settles: "settled_w b rq (mark_as_invalid b rq f a w)" if "pristine_w w"
  using that by (simp add: settled_def pristine_def answered_mark_as_failed)

context param_validator
begin

lemma answering_guarded:
  assumes "answering b rq body"
  shows "answering b rq (bind_eff (validate b rq) (\<lambda>valid. if valid then body else return ()))"
  unfolding answering_def
proof (rule hoareI)
  fix w :: world and a t
  assume w: "pristine_w w"
    and run: "bind_eff (validate b rq) (\<lambda>valid. if valid then body else return ()) w = (Ok a, t)"
  from run have "bind_eff (validate b rq) (\<lambda>valid. if valid then body else return ()) w = (Ok (), t)"
    by simp
  then show "settled_w b rq t"
  proof (cases rule: guarded_cases)
    case (accepted p)
    with assms w show ?thesis unfolding answering_def by (blast dest: hoareD)
  next
    case (refused p c)
    with mark_as_invalid_settles [OF w] show ?thesis by simp
  qed
qed

end

lemma answering_id_guarded [answer_rules]:
  assumes "answering b rq body"
  shows "answering b rq (bind_eff (id_validator b rq p field) (\<lambda>valid. if valid then body else return ()))"
  unfolding answering_def
proof (rule hoareI)
  fix w :: world and a t
  assume w: "pristine_w w"
    and run: "bind_eff (id_validator b rq p field) (\<lambda>valid. if valid then body else return ()) w = (Ok a, t)"
  show "settled_w b rq t"
  proof (cases "id_complaint b p field")
    case None
    with run have "body w = (Ok (), t)" by (simp add: bind_eff_apply id_validator_eq)
    with assms w show ?thesis unfolding answering_def by (blast dest: hoareD)
  next
    case (Some c)
    with run have "t = mark_as_invalid b rq ''params'' c w"
      by (simp add: bind_eff_apply id_validator_eq)
    with mark_as_invalid_settles [OF w] show ?thesis by simp
  qed
qed

section \<open>Calls that leave the response alone\<close>

lemma response_of_registry [simp, frame_simps]:
  "w_response (snd (add_client c w)) = w_response w"
  "w_response (snd (remove_client i w)) = w_response w"
  "w_response (snd (add_session s w)) = w_response w"
  "w_response (snd (remove_session i w)) = w_response w"
  "w_response (snd (subscribe sid cid ch w)) = w_response w"
  "w_response (snd (unsubscribe sid cid ch w)) = w_response w"
  "w_response (snd (new_client sid i w)) = w_response w"
  "w_response (snd (make_session b w)) = w_response w"
  by (simp_all add: registration_defs object_defs case_prod_beta Let_def split: option.splits)

lemma response_of_sending [simp, frame_simps]:
  "w_response (snd (broadcast_to_sessions b rq i d w)) = w_response w"
  "w_response (snd (broadcast_to_clients b rq sid i d w)) = w_response w"
  "w_response (snd (publish_to_sessions b rq i ch d w)) = w_response w"
  "w_response (snd (publish_to_clients b rq sid i ch d w)) = w_response w"
  "w_response (snd (subscribe_to_sessions b rq i ch w)) = w_response w"
  "w_response (snd (unsubscribe_to_sessions b rq i ch w)) = w_response w"
  "w_response (send_to_session b sid frm to payload w) = w_response w"
  "w_response (send_object_to_client b c frm payload w) = w_response w"
  by (simp_all add: send_eqs forward_defs send_object_to_client_eq)

lemma response_of_objects [simp, frame_simps]:
  "w_response (set_sessions_port s p w) = w_response w"
  "w_response (set_clients_port s p w) = w_response w"
  "w_response (mark_as_registered s w) = w_response w"
  "w_response (session_run s ctx w) = w_response w"
  "w_response (session_send s m w) = w_response w"
  by (simp_all add: object_defs update_session_def initiate_post session_send_post)

lemma response_fold:
  assumes "\<And>x w. w_response (f x w) = w_response w"
  shows "w_response (fold f xs w) = w_response w"
  using assms by (induction xs arbitrary: w) auto

lemma response_of_sync [simp, frame_simps]: "w_response (sync b s r w) = w_response w"
proof -
  have "w_response (sync_sessions b s x v) = w_response v" "w_response (sync_client b s c v) = w_response v"
    "w_response (sync_subscription b s y v) = w_response v" for x c y v
    by (simp_all add: sync_sessions_def sync_client_def sync_subscription_def Let_def case_prod_beta)
  then show ?thesis by (simp add: sync_def Let_def response_fold)
qed

lemma response_free_connect [answer_rules]: "response_free (connect_until_open b host service)"
  by (simp add: response_free_def connect_until_open_def split: option.splits)

section \<open>The contract of a handler\<close>

locale handler =
  fixes handle :: "boost \<Rightarrow> request \<Rightarrow> unit eff_w"
  assumes keeps_wf: "keeps wf_world (handle b rq)"
    and answers: "answering b rq (handle b rq)"
begin

lemma handle_wf: "wf_world w \<Longrightarrow> wf_world (snd (handle b rq w))"
  using keeps_wf by (rule keepsD)

lemma handle_settles: "pristine_w w \<Longrightarrow> handle b rq w = (Ok (), t) \<Longrightarrow> settled_w b rq t"
  using answers [of b rq] unfolding answering_def by (blast dest: hoareD)

end

lemmas answer_step = answering_reply answering_invalid answering_id_guarded answering_context
  answering_option answering_if broadcast_v.answering_guarded is_subscribed_v.answering_guarded
  publish_v.answering_guarded register_v.answering_guarded send_v.answering_guarded
  session_v.answering_guarded subscriptions_v.answering_guarded

interpretation ping_h: handler ping_handler
  by unfold_locales (rule keeps_handlers, simp add: ping_handler_def answering_reply)

interpretation unimplemented_h: handler unimplemented_handler
  by unfold_locales (rule keeps_handlers, simp add: unimplemented_handler_def answering_invalid)

interpretation is_subscribed_h: handler is_subscribed_handler
proof
  show "answering b rq (is_subscribed_handler b rq)" for b rq
    unfolding is_subscribed_handler_def
    by (rule answer_step answering_bind response_free_atoms)+
qed (rule keeps_handlers)

interpretation leave_h: handler leave_handler
proof
  show "answering b rq (leave_handler b rq)" for b rq
    unfolding leave_handler_def
    by (rule answer_step answering_bind response_free_atoms response_free_call response_of_registry)+
qed (rule keeps_handlers)

interpretation join_h: handler join_handler
proof
  show "answering b rq (join_handler b rq)" for b rq
    unfolding join_handler_def
    by (rule answer_step answering_bind response_free_atoms response_free_call response_of_registry)+
qed (rule keeps_join)

interpretation subscribe_h: handler subscribe_handler
proof
  show "answering b rq (subscribe_handler b rq)" for b rq
    unfolding subscribe_handler_def
    by (rule answer_step answering_then [OF answering_reply] answering_bind response_free_bind
        response_free_atoms response_free_call response_of_registry response_of_sending)+
qed (rule keeps_handlers)

interpretation unsubscribe_h: handler unsubscribe_handler
proof
  show "answering b rq (unsubscribe_handler b rq)" for b rq
    unfolding unsubscribe_handler_def
    by (rule answer_step answering_then [OF answering_reply] answering_bind response_free_bind
        response_free_atoms response_free_call response_of_registry response_of_sending)+
qed (rule keeps_handlers)

interpretation broadcast_h: handler broadcast_handler
proof
  show "answering b rq (broadcast_handler b rq)" for b rq
    unfolding broadcast_handler_def
    by (rule answer_step answering_bind response_free_context response_free_bind
        response_free_atoms response_free_call response_of_sending)+
qed (rule keeps_handlers)

interpretation publish_h: handler publish_handler
proof
  show "answering b rq (publish_handler b rq)" for b rq
    unfolding publish_handler_def
    by (rule answer_step answering_bind response_free_context response_free_bind
        response_free_atoms response_free_call response_of_sending)+
qed (rule keeps_handlers)

interpretation send_h: handler send_handler
proof
  show "answering b rq (send_handler b rq)" for b rq
    unfolding send_handler_def
    by (rule answer_step answering_bind response_free_atoms response_free_modify response_of_sending)+
qed (rule keeps_handlers)

interpretation register_h: handler register_handler
proof
  show "answering b rq (register_handler b rq)" for b rq
    unfolding register_handler_def
    by (rule answer_step answering_bind response_free_atoms response_free_modify response_of_objects
        response_of_sync)+
qed (rule keeps_handlers)

interpretation session_h: handler session_handler
proof
  show "answering b rq (session_handler b rq)" for b rq
    unfolding session_handler_def
    by (rule answer_step answering_bind response_free_connect response_free_atoms response_free_call
        response_free_modify response_of_objects response_of_registry)+
qed (rule keeps_session)

end
