(* ===== verification/Kernel_Facts.thy ===== *)
theory Kernel_Facts
  imports Protocol
begin

text \<open>
  The kernel as a whole: what it returns (\<open>kernel_returns\<close>), when it throws (\<open>kernel_fault\<close>, an
  executable reading of the message that says which exception leaves the kernel, if any) and that
  every call, returning or not, keeps the node's invariant.
\<close>

section \<open>Dispatch\<close>

lemma dispatch_settles:
  assumes "pristine_w w" and "dispatch b action rq w = (Ok (), t)" and "action \<noteq> ''ack''"
  shows "settled_w b rq t"
proof -
  note settles = ping_h.handle_settles send_h.handle_settles register_h.handle_settles
    session_h.handle_settles subscribe_h.handle_settles is_subscribed_h.handle_settles
    unsubscribe_h.handle_settles broadcast_h.handle_settles publish_h.handle_settles
    join_h.handle_settles leave_h.handle_settles unimplemented_h.handle_settles
  show ?thesis
    using assms(2,3) unfolding dispatch_def by (auto split: if_splits intro: settles [OF assms(1)])
qed

lemma dispatch_ack:
  "dispatch b ''ack'' rq w = (Ok (), w\<lparr>w_response := mark_as_ack (w_response w)\<rparr>)"
  by (simp add: dispatch_def)

section \<open>What the kernel returns\<close>

definition kernel_request :: "boost \<Rightarrow> json_object \<Rightarrow> kernel_context \<Rightarrow> uuid \<Rightarrow> uuid \<Rightarrow> world \<Rightarrow> request" where
  "kernel_request b data ctx i tid w =
     \<lparr>rq_transaction_id = tid, rq_entity_id = i, rq_context = ctx, rq_data = data,
      rq_timestamp = clock_now b (w_clock w), rq_is_local = False\<rparr>"

definition kernel_entry :: "boost \<Rightarrow> world \<Rightarrow> world" where
  "kernel_entry b w = w\<lparr>w_clock := Suc (w_clock w), w_response := new_response\<rparr>"

lemma kernel_entry_frame [simp, frame_simps]:
  "core (kernel_entry b w) = core w"
  "st_id (kernel_entry b w) = st_id w"
  "st_config (kernel_entry b w) = st_config w"
  "st_sessions (kernel_entry b w) = st_sessions w"
  "st_clients (kernel_entry b w) = st_clients w"
  "st_subscriptions (kernel_entry b w) = st_subscriptions w"
  "w_session_objs (kernel_entry b w) = w_session_objs w"
  "w_client_objs (kernel_entry b w) = w_client_objs w"
  "w_random (kernel_entry b w) = w_random w"
  "w_pending (kernel_entry b w) = w_pending w"
  "w_response (kernel_entry b w) = new_response"
  "pristine_w (kernel_entry b w)"
  by (simp_all add: kernel_entry_def core_def state.truncate_def pristine_def new_response_def)

definition finish :: "'a outcome \<times> world \<Rightarrow> response outcome \<times> world" where
  "finish r = (case r of
       (Ok _, w) \<Rightarrow> (let x = mark_as_processed (w_response w) in (Ok x, w\<lparr>w_response := x\<rparr>))
     | (Throw e, w) \<Rightarrow> (Throw e, w)
     | (Hang, w) \<Rightarrow> (Hang, w))"

text \<open>The kernel's equation on an accepted envelope and on a refused one.\<close>

lemma kernel_accepted:
  assumes "map_of data ''action'' = Some (JString action)" and "id_param b data ''transaction_id'' tid"
  shows "kernel b data ctx i w =
    finish (dispatch b action (kernel_request b data ctx i tid w) (kernel_entry b w))"
proof -
  have "get_passed (make_validator b data)"
    using assms by (auto simp: passed_iff id_param_iff)
  with assms show ?thesis
    by (simp add: kernel_def bind_eff_apply id_param_get param_values read_clock_def
        kernel_request_def kernel_entry_def finish_def case_prod_beta Let_def split: outcome.splits)
qed

lemma kernel_unreadable_id:
  assumes "map_of data ''transaction_id'' = Some (JString s)" and "is_uuid b (c_str s)"
    and "lexical_cast_uuid b s = None"
  shows "kernel b data ctx i w = (Throw Bad_lexical_cast, kernel_entry b w)"
proof -
  have "get_param_as_id b data ''transaction_id'' = Throw Bad_lexical_cast"
    using assms by (simp add: get_param_as_id_def at_def)
  with assms show ?thesis
    by (simp add: kernel_def kernel_rejected_def bind_eff_apply read_clock_def contains_def
        kernel_entry_def)
qed

definition rejected_id :: "boost \<Rightarrow> json_object \<Rightarrow> uuid" where
  "rejected_id b data =
     (case map_of data ''transaction_id'' of
        Some (JString s) \<Rightarrow>
          if is_uuid b (c_str s) then (case lexical_cast_uuid b s of Some u \<Rightarrow> u | None \<Rightarrow> nil_uuid)
          else nil_uuid
      | _ \<Rightarrow> nil_uuid)"

lemma kernel_refused:
  assumes "\<not> get_passed (make_validator b data)"
    and "\<And>s. map_of data ''transaction_id'' = Some (JString s) \<Longrightarrow> is_uuid b (c_str s) \<Longrightarrow>
           lexical_cast_uuid b s \<noteq> None"
  shows "kernel b data ctx i w =
    finish (Ok (), respond_failed b (rejected_id b data) (clock_now b (w_clock w))
                     (get_bag (make_validator b data)) (kernel_entry b w))"
proof -
  have "kernel_rejected b data ts v u =
      (Ok (), respond_failed b (rejected_id b data) ts (get_bag v) u)" for ts v u
  proof (cases "\<exists>s. map_of data ''transaction_id'' = Some (JString s) \<and> is_uuid b (c_str s)")
    case True
    then obtain s where s: "map_of data ''transaction_id'' = Some (JString s)" "is_uuid b (c_str s)"
      by blast
    with assms(2) obtain t where t: "lexical_cast_uuid b s = Some t" by blast
    with s show ?thesis
      by (simp add: kernel_rejected_def rejected_id_def contains_def bind_eff_apply param_id_value)
  next
    case False
    then show ?thesis
      by (auto simp: kernel_rejected_def rejected_id_def split: option.splits json.splits)
  qed
  with assms(1) show ?thesis
    by (simp add: kernel_def bind_eff_apply read_clock_def kernel_entry_def finish_def Let_def)
qed

section \<open>When the kernel throws\<close>

text \<open>
  \<open>param_fault\<close> and the definitions after it read off a message the exception its handling throws.
\<close>

definition id_fault :: "boost \<Rightarrow> json_object \<Rightarrow> string \<Rightarrow> exn option" where
  "id_fault b p field = (case map_of p field of
      Some (JString s) \<Rightarrow> if lexical_cast_uuid b s = None then Some Bad_lexical_cast else None
    | _ \<Rightarrow> None)"

definition number_fault :: "json_object \<Rightarrow> string \<Rightarrow> exn option" where
  "number_fault p field = (case map_of p field of
      Some v \<Rightarrow> if is_int64 v then None else Some Not_of_kind
    | None \<Rightarrow> None)"

fun first_fault :: "exn option list \<Rightarrow> exn option" where
  "first_fault [] = None"
| "first_fault (None # fs) = first_fault fs"
| "first_fault (Some e # fs) = Some e"

definition with_params :: "request \<Rightarrow> (json_object \<Rightarrow> exn option) \<Rightarrow> exn option" where
  "with_params rq f = (case map_of (rq_data rq) ''params'' of
      None \<Rightarrow> Some Out_of_range
    | Some (JObject p) \<Rightarrow> f p
    | Some _ \<Rightarrow> Some Not_of_kind)"

definition peer_id_fault :: "boost \<Rightarrow> request \<Rightarrow> json_object \<Rightarrow> string \<Rightarrow> exn option" where
  "peer_id_fault b rq p field = (if rq_context rq = On_session then id_fault b p field else None)"

definition channel_fault :: "(boost \<Rightarrow> request \<Rightarrow> json_object \<Rightarrow> string option) \<Rightarrow> boost \<Rightarrow> request \<Rightarrow> exn option" where
  "channel_fault complaint b rq = with_params rq (\<lambda>p.
     if complaint b rq p \<noteq> None then None else peer_id_fault b rq p ''client_id'')"

definition is_subscribed_fault :: "boost \<Rightarrow> request \<Rightarrow> exn option" where
  "is_subscribed_fault b rq = with_params rq (\<lambda>p. None)"

definition send_fault :: "boost \<Rightarrow> request \<Rightarrow> exn option" where
  "send_fault b rq = with_params rq (\<lambda>p.
     if send_complaint b rq p \<noteq> None then None
     else first_fault [id_fault b p ''to_client_id'', peer_id_fault b rq p ''from_client_id''])"

definition member_fault :: "boost \<Rightarrow> request \<Rightarrow> exn option" where
  "member_fault b rq =
     (if rq_context rq = On_client then None
      else with_params rq (\<lambda>p.
        if id_complaint b p ''client_id'' \<noteq> None then None else id_fault b p ''client_id''))"

definition register_fault :: "boost \<Rightarrow> request \<Rightarrow> exn option" where
  "register_fault b rq =
     (if rq_context rq = On_client then None
      else with_params rq (\<lambda>p.
        if register_complaint b rq p \<noteq> None then None
        else first_fault [number_fault p ''sessions_port'', number_fault p ''clients_port'']))"

definition resolve_fault :: "boost \<Rightarrow> json_object \<Rightarrow> world \<Rightarrow> exn option" where
  "resolve_fault b p w =
     (case (map_of p ''host'', map_of p ''sessions_port'', map_of p ''clients_port'') of
        (Some (JString host), Some (JInt64 sp), Some (JInt64 cp)) \<Rightarrow>
          if session_found host sp cp w \<or> resolve b host (decimal (unat sp)) then None
          else Some Resolve_failure
      | _ \<Rightarrow> None)"

definition session_fault :: "boost \<Rightarrow> request \<Rightarrow> world \<Rightarrow> exn option" where
  "session_fault b rq w =
     (if rq_context rq = On_client then None
      else with_params rq (\<lambda>p.
        if session_complaint b rq p \<noteq> None then None
        else first_fault [number_fault p ''sessions_port'', number_fault p ''clients_port'',
                          resolve_fault b p w]))"

definition dispatch_fault :: "boost \<Rightarrow> string \<Rightarrow> request \<Rightarrow> world \<Rightarrow> exn option" where
  "dispatch_fault b action rq w =
     (if action = ''ping'' then None
      else if action = ''send'' then send_fault b rq
      else if action = ''register'' then register_fault b rq
      else if action = ''session'' then session_fault b rq w
      else if action = ''ack'' then None
      else if action = ''subscribe'' then channel_fault subscriptions_complaint b rq
      else if action = ''is_subscribed'' then is_subscribed_fault b rq
      else if action = ''unsubscribe'' then channel_fault subscriptions_complaint b rq
      else if action = ''broadcast'' then channel_fault broadcast_complaint b rq
      else if action = ''publish'' then channel_fault publish_complaint b rq
      else if action = ''join'' then member_fault b rq
      else if action = ''leave'' then member_fault b rq
      else None)"

definition throws :: "'a outcome \<Rightarrow> exn option" where
  "throws r = (case r of Throw e \<Rightarrow> Some e | _ \<Rightarrow> None)"

lemma throws_simps [simp]:
  "throws (Ok a) = None" "throws (Throw e) = Some e" "throws Hang = None"
  by (simp_all add: throws_def)

lemma throws_bind:
  "throws (fst (bind_eff m f w)) =
     (case fst (m w) of Ok a \<Rightarrow> throws (fst (f a (snd (m w)))) | Throw e \<Rightarrow> Some e | Hang \<Rightarrow> None)"
  by (simp add: bind_eff_apply split: outcome.splits)

lemma throws_first:
  "throws (fst (m w)) = Some e \<Longrightarrow> throws (fst (bind_eff m f w)) = Some e"
  by (simp add: throws_bind) (cases "fst (m w)"; simp)

lemma throws_reply [simp]: "throws (fst (reply b rq m d w)) = None"
  by (simp add: reply_def)

lemma with_params_cases:
  obtains (missing) "map_of (rq_data rq) ''params'' = None" "\<And>f. with_params rq f = Some Out_of_range"
  | (wrong) v where "map_of (rq_data rq) ''params'' = Some v" "\<not> is_object v"
      "\<And>f. with_params rq f = Some Not_of_kind"
  | (object) p where "map_of (rq_data rq) ''params'' = Some (JObject p)" "\<And>f. with_params rq f = f p"
proof (cases "map_of (rq_data rq) ''params''")
  case None
  then show ?thesis using missing by (simp add: with_params_def)
next
  case (Some v)
  then show ?thesis using wrong object by (cases v) (auto simp: with_params_def)
qed

context param_validator
begin

text \<open>The exception of a guarded handler: of its validator, or of its body on accepted parameters.\<close>

lemma throws_guarded:
  "throws (fst (bind_eff (validate b rq) (\<lambda>valid. if valid then body else return ()) w)) =
     with_params rq (\<lambda>p. if complaint b rq p \<noteq> None then None else throws (fst (body w)))"
proof (cases rule: with_params_cases [of rq])
  case missing
  then show ?thesis by (simp add: throws_bind missing_params)
next
  case (wrong v)
  then show ?thesis by (simp add: throws_bind wrong_params)
next
  case (object p)
  then show ?thesis
    by (cases "complaint b rq p") (simp_all add: throws_bind decides)
qed

end

lemma with_params_cong:
  assumes "\<And>p. map_of (rq_data rq) ''params'' = Some (JObject p) \<Longrightarrow> f p = g p"
  shows "with_params rq f = with_params rq g"
  using assms by (cases rule: with_params_cases [of rq]) simp_all

lemmas fault_simps = throws_bind param_values reply_def get_id_def

lemma id_fault_get:
  assumes "id_complaint b p field = None"
  shows "get_param_as_id b p field =
    (case id_fault b p field of Some e \<Rightarrow> Throw e
     | None \<Rightarrow> Ok (the (lexical_cast_uuid b (case map_of p field of Some (JString s) \<Rightarrow> s | _ \<Rightarrow> []))))"
  using assms
  by (auto simp: id_complaint_None_iff get_param_as_id_def at_def id_fault_def
      split: option.splits if_splits)

lemma is_subscribed_throws: "throws (fst (is_subscribed_handler b rq w)) = is_subscribed_fault b rq"
  unfolding is_subscribed_handler_def is_subscribed_v.throws_guarded is_subscribed_fault_def
  by (rule with_params_cong)
    (auto simp: fault_simps is_subscribed_complaint_def field_complaint_None_iff no_complaint_iffs
      split: kernel_context.splits)

lemma params_value: "map_of (rq_data rq) ''params'' = Some (JObject p) \<Longrightarrow> get_params rq = Ok p"
  by simp

lemma subscriptions_accepted:
  assumes "subscriptions_complaint b rq p = None"
  obtains ch where "map_of p ''channel'' = Some (JString ch)"
    "rq_context rq = On_session \<Longrightarrow> id_complaint b p ''client_id'' = None"
  using assms by (auto simp: subscriptions_complaint_def first_complaint_None_iff
      field_complaint_None_iff peer_id_complaint_None_iff kind_iffs)

lemma broadcast_accepted:
  assumes "broadcast_complaint b rq p = None"
  obtains obj where "map_of p ''payload'' = Some (JObject obj)"
    "rq_context rq = On_session \<Longrightarrow> id_complaint b p ''client_id'' = None"
  using assms by (auto simp: broadcast_complaint_def first_complaint_None_iff
      field_complaint_None_iff peer_id_complaint_None_iff kind_iffs)

lemma publish_accepted:
  assumes "publish_complaint b rq p = None"
  obtains ch obj where "map_of p ''channel'' = Some (JString ch)" "map_of p ''payload'' = Some (JObject obj)"
    "rq_context rq = On_session \<Longrightarrow> id_complaint b p ''client_id'' = None"
  using assms by (auto simp: publish_complaint_def first_complaint_None_iff
      field_complaint_None_iff peer_id_complaint_None_iff kind_iffs)

lemma send_accepted:
  assumes "send_complaint b rq p = None"
  obtains obj where "map_of p ''payload'' = Some (JObject obj)" "id_complaint b p ''to_client_id'' = None"
    "rq_context rq = On_session \<Longrightarrow> id_complaint b p ''from_client_id'' = None"
  using assms by (auto simp: send_complaint_def first_complaint_None_iff
      field_complaint_None_iff peer_id_complaint_None_iff kind_iffs)

lemma register_accepted:
  assumes "register_complaint b rq p = None"
  obtains sp cp x where "map_of p ''sessions_port'' = Some sp" "map_of p ''clients_port'' = Some cp"
    "map_of p ''registered'' = Some (JBool x)"
  using assms by (auto simp: register_complaint_def first_complaint_None_iff
      field_complaint_None_iff kind_iffs)

lemma session_accepted:
  assumes "session_complaint b rq p = None"
  obtains host sp cp where "map_of p ''host'' = Some (JString host)" "map_of p ''sessions_port'' = Some sp"
    "map_of p ''clients_port'' = Some cp"
  using assms by (auto simp: session_complaint_def first_complaint_None_iff
      field_complaint_None_iff kind_iffs)

lemmas fault_defs = channel_fault_def peer_id_fault_def send_fault_def member_fault_def
  register_fault_def session_fault_def

lemma subscribe_throws:
  "throws (fst (subscribe_handler b rq w)) = channel_fault subscriptions_complaint b rq"
  "throws (fst (unsubscribe_handler b rq w)) = channel_fault subscriptions_complaint b rq"
  unfolding subscribe_handler_def unsubscribe_handler_def subscriptions_v.throws_guarded channel_fault_def
  by (rule with_params_cong, cases "rq_context rq",
      auto simp: fault_simps params_value peer_id_fault_def id_fault_get elim!: subscriptions_accepted
        split: option.splits)+

lemma broadcast_throws:
  "throws (fst (broadcast_handler b rq w)) = channel_fault broadcast_complaint b rq"
  unfolding broadcast_handler_def broadcast_v.throws_guarded channel_fault_def
  by (rule with_params_cong, cases "rq_context rq")
    (auto simp: fault_simps bind_eff_apply params_value peer_id_fault_def id_fault_get
      elim!: broadcast_accepted split: option.splits)

lemma publish_throws:
  "throws (fst (publish_handler b rq w)) = channel_fault publish_complaint b rq"
  unfolding publish_handler_def publish_v.throws_guarded channel_fault_def
  by (rule with_params_cong, cases "rq_context rq")
    (auto simp: fault_simps bind_eff_apply params_value peer_id_fault_def id_fault_get
      elim!: publish_accepted split: option.splits)

lemma send_throws: "throws (fst (send_handler b rq w)) = send_fault b rq"
  unfolding send_handler_def send_v.throws_guarded send_fault_def
  by (rule with_params_cong, cases "rq_context rq")
    (auto simp: fault_simps bind_eff_apply params_value peer_id_fault_def id_fault_get
      elim!: send_accepted split: option.splits)

lemma get_params_fault:
  "map_of (rq_data rq) ''params'' = None \<Longrightarrow> get_params rq = Throw Out_of_range"
  "map_of (rq_data rq) ''params'' = Some v \<Longrightarrow> \<not> is_object v \<Longrightarrow> get_params rq = Throw Not_of_kind"
  by (simp_all add: get_params_def at_def as_object_not_object)

lemma throws_id_guarded:
  "throws (fst (bind_eff (id_validator b rq p field) (\<lambda>valid. if valid then body else return ()) w)) =
     (if id_complaint b p field \<noteq> None then None else throws (fst (body w)))"
  by (simp add: throws_bind id_validator_eq split: option.splits)

lemma throws_params:
  "throws (fst (bind_eff (lift_outcome (get_params rq)) f w)) = with_params rq (\<lambda>p. throws (fst (f p w)))"
  by (cases rule: with_params_cases [of rq]) (simp_all add: throws_bind get_params_fault params_value)

lemma throws_opaque:
  assumes "\<And>w. throws (fst (m w)) = None" and "\<And>a w. throws (fst (f a w)) = None"
  shows "throws (fst (bind_eff m f w)) = None"
  using assms(1) [of w] assms(2) by (cases "fst (m w)") (simp_all add: throws_bind)

lemma throws_id:
  assumes "id_complaint b p field = None" and "\<And>u w. throws (fst (g u w)) = None"
  shows "throws (fst (bind_eff (lift_outcome (get_param_as_id b p field)) g w)) = id_fault b p field"
  using assms by (simp add: throws_bind id_fault_get split: option.splits)

lemma member_throws:
  "throws (fst (join_handler b rq w)) = member_fault b rq"
  "throws (fst (leave_handler b rq w)) = member_fault b rq"
proof -
  have "throws (fst (bind_eff (lift_outcome (get_params rq)) (\<lambda>params.
          bind_eff (id_validator b rq params ''client_id'') (\<lambda>valid.
          if valid then bind_eff (lift_outcome (get_param_as_id b params ''client_id'')) g
          else return ())) w)) =
        with_params rq (\<lambda>p.
          if id_complaint b p ''client_id'' \<noteq> None then None else id_fault b p ''client_id'')"
    if g: "\<And>u w. throws (fst (g u w)) = None" for g
    unfolding throws_params throws_id_guarded
    by (rule with_params_cong) (simp add: throws_id [OF _ g])
  note guarded = this
  show "throws (fst (join_handler b rq w)) = member_fault b rq"
    by (cases "rq_context rq")
      (simp_all add: join_handler_def member_fault_def guarded throws_opaque)
  show "throws (fst (leave_handler b rq w)) = member_fault b rq"
    by (cases "rq_context rq")
      (simp_all add: leave_handler_def member_fault_def guarded throws_opaque)
qed

lemma number_fault_get:
  assumes "map_of p field = Some v"
  shows "get_param_as_number p field =
    (case number_fault p field of Some e \<Rightarrow> Throw e | None \<Rightarrow> Ok (case v of JInt64 n \<Rightarrow> n | _ \<Rightarrow> 0))"
  using assms by (cases v) (simp_all add: get_param_as_number_def at_def number_fault_def)

lemma register_throws: "throws (fst (register_handler b rq w)) = register_fault b rq"
proof (cases "rq_context rq")
  case On_session
  then show ?thesis
    unfolding register_handler_def register_fault_def
    by (simp add: register_v.throws_guarded, intro with_params_cong)
      (auto simp: fault_simps params_value number_fault_get elim!: register_accepted
        split: option.splits)
qed (simp add: register_handler_def register_fault_def)

lemma throws_connect: "throws (fst (connect_until_open b host service w)) = None"
  by (simp add: connect_until_open_def split: option.splits)

lemma number_accepted:
  assumes "number_fault p field = None" and "map_of p field = Some v"
  shows "\<exists>n. v = JInt64 n"
  using assms by (simp add: number_fault_def is_int64_iff split: if_splits)

lemma session_throws: "throws (fst (session_handler b rq w)) = session_fault b rq w"
proof (cases "rq_context rq")
  case On_session
  have connected: "throws (fst (bind_eff (call (make_session b)) (\<lambda>s.
      bind_eff (connect_until_open b host service) (\<lambda>_.
      bind_eff (modify (set_clients_port s cp)) (\<lambda>_.
      bind_eff (modify (set_sessions_port s sp)) (\<lambda>_.
      bind_eff (modify (session_run s Remote)) (\<lambda>_.
      bind_eff (call (add_session s)) (\<lambda>_. reply b rq ''ok'' [])))))) w)) = None" for host service cp sp w
    by (intro throws_opaque throws_connect) simp_all
  show ?thesis
  proof -
    have "throws (fst (bind_eff (lift_outcome (get_params rq)) (\<lambda>params.
            bind_eff (lift_outcome (get_param_as_string params ''host'')) (\<lambda>host.
            bind_eff (lift_outcome (get_param_as_number params ''sessions_port'')) (\<lambda>sessions_port.
            bind_eff (lift_outcome (get_param_as_number params ''clients_port'')) (\<lambda>clients_port.
            bind_eff (gets (session_found host sessions_port clients_port)) (\<lambda>found.
            if \<not> found then
              bind_eff (lift_outcome (if resolve b host (decimal (unat sessions_port)) then Ok ()
                                      else Throw Resolve_failure)) (\<lambda>_.
              bind_eff (call (make_session b)) (\<lambda>s.
              bind_eff (connect_until_open b host (decimal (unat sessions_port))) (\<lambda>_.
              bind_eff (modify (set_clients_port s (ucast clients_port))) (\<lambda>_.
              bind_eff (modify (set_sessions_port s (ucast sessions_port))) (\<lambda>_.
              bind_eff (modify (session_run s Remote)) (\<lambda>_.
              bind_eff (call (add_session s)) (\<lambda>_.
              reply b rq ''ok'' [])))))))
            else reply b rq ''no effect'' []))))) w)) =
        first_fault [number_fault p ''sessions_port'', number_fault p ''clients_port'', resolve_fault b p w]"
      if p: "map_of (rq_data rq) ''params'' = Some (JObject p)" "session_complaint b rq p = None" for p
    proof -
      obtain host sp cp where m: "map_of p ''host'' = Some (JString host)"
        "map_of p ''sessions_port'' = Some sp" "map_of p ''clients_port'' = Some cp"
        using session_accepted [OF p(2)] by metis
      show ?thesis
        using m p(1) connected
        by (cases sp; cases cp)
          (simp_all add: throws_bind [of "lift_outcome _"] throws_bind [of "gets _"] params_value
            param_values number_fault_get [OF m(2)] number_fault_get [OF m(3)] number_fault_def
            resolve_fault_def)
    qed
    then show ?thesis
      unfolding session_handler_def session_fault_def using On_session
      by (simp add: session_v.throws_guarded) (intro with_params_cong, simp)
  qed
qed (simp add: session_handler_def session_fault_def)

lemma dispatch_throws: "throws (fst (dispatch b action rq w)) = dispatch_fault b action rq w"
  by (simp add: dispatch_def dispatch_fault_def ping_eq unimplemented_eq is_subscribed_throws
      subscribe_throws broadcast_throws publish_throws send_throws member_throws register_throws
      session_throws)

definition kernel_fault :: "boost \<Rightarrow> json_object \<Rightarrow> kernel_context \<Rightarrow> uuid \<Rightarrow> world \<Rightarrow> exn option" where
  "kernel_fault b data ctx i w =
     (case map_of data ''transaction_id'' of
        Some (JString s) \<Rightarrow>
          if is_uuid b (c_str s) then
            (case lexical_cast_uuid b s of
               None \<Rightarrow> Some Bad_lexical_cast
             | Some tid \<Rightarrow>
                 (case map_of data ''action'' of
                    Some (JString action) \<Rightarrow>
                      dispatch_fault b action (kernel_request b data ctx i tid w) (kernel_entry b w)
                  | _ \<Rightarrow> None))
          else None
      | _ \<Rightarrow> None)"

lemma throws_finish [simp]: "throws (fst (finish r)) = throws (fst r)"
  by (simp add: finish_def Let_def case_prod_beta split: outcome.splits)

lemma kernel_throws: "throws (fst (kernel b data ctx i w)) = kernel_fault b data ctx i w"
proof (cases "\<exists>s. map_of data ''transaction_id'' = Some (JString s) \<and> is_uuid b (c_str s)")
  case True
  then obtain s where s: "map_of data ''transaction_id'' = Some (JString s)" "is_uuid b (c_str s)"
    by blast
  show ?thesis
  proof (cases "lexical_cast_uuid b s")
    case None
    with s show ?thesis by (simp add: kernel_unreadable_id kernel_fault_def)
  next
    case (Some tid)
    with s have tid: "id_param b data ''transaction_id'' tid" by (simp add: id_param_iff)
    show ?thesis
    proof (cases "\<exists>action. map_of data ''action'' = Some (JString action)")
      case True
      then obtain action where "map_of data ''action'' = Some (JString action)" by blast
      with tid s Some show ?thesis
        by (simp add: kernel_accepted dispatch_throws kernel_fault_def)
    next
      case False
      then have "\<not> get_passed (make_validator b data)" by (simp add: passed_iff)
      with tid have "kernel b data ctx i w =
          finish (Ok (), respond_failed b (rejected_id b data) (clock_now b (w_clock w))
                           (get_bag (make_validator b data)) (kernel_entry b w))"
        by (intro kernel_refused) (auto simp: id_param_iff)
      with False s Some show ?thesis
        by (auto simp: kernel_fault_def split: option.splits json.splits)
    qed
  qed
next
  case False
  then have "\<not> get_passed (make_validator b data)" by (auto simp: passed_iff)
  with False have "kernel b data ctx i w =
      finish (Ok (), respond_failed b (rejected_id b data) (clock_now b (w_clock w))
                       (get_bag (make_validator b data)) (kernel_entry b w))"
    by (intro kernel_refused) auto
  with False show ?thesis
    by (auto simp: kernel_fault_def split: option.splits json.splits)
qed

section \<open>How a call of the kernel can return\<close>

lemma finish_Ok: "finish m = (Ok r, w') \<longleftrightarrow>
    (\<exists>a t. m = (Ok a, t) \<and> r = mark_as_processed (w_response t) \<and> w' = t\<lparr>w_response := r\<rparr>)"
  by (auto simp: finish_def Let_def split: prod.splits outcome.splits)

lemma kernel_returns:
  assumes "kernel b data ctx i w = (Ok r, w')"
  obtains (accepted) action tid t where "map_of data ''action'' = Some (JString action)"
      "id_param b data ''transaction_id'' tid" "get_passed (make_validator b data)"
      "dispatch b action (kernel_request b data ctx i tid w) (kernel_entry b w) = (Ok (), t)"
      "r = mark_as_processed (w_response t)" "w' = t\<lparr>w_response := r\<rparr>"
  | (refused) t where "\<not> get_passed (make_validator b data)"
      "t = respond_failed b (rejected_id b data) (clock_now b (w_clock w))
             (get_bag (make_validator b data)) (kernel_entry b w)"
      "r = mark_as_processed (w_response t)" "w' = t\<lparr>w_response := r\<rparr>"
proof -
  have cast: "lexical_cast_uuid b s \<noteq> None"
    if "map_of data ''transaction_id'' = Some (JString s)" "is_uuid b (c_str s)" for s
    using assms kernel_unreadable_id [OF that, of ctx i w] by auto
  show ?thesis
  proof (cases "get_passed (make_validator b data)")
    case True
    then obtain action s where a: "map_of data ''action'' = Some (JString action)"
      and s: "map_of data ''transaction_id'' = Some (JString s)" "is_uuid b (c_str s)"
      by (auto simp: passed_iff)
    from cast [OF s] obtain tid where tid: "id_param b data ''transaction_id'' tid"
      using s by (auto simp: id_param_iff)
    from assms kernel_accepted [OF a tid] accepted [OF a tid True] show ?thesis
      by (auto simp: finish_Ok)
  next
    case False
    from assms kernel_refused [OF False cast] refused [OF False] show ?thesis
      by (auto simp: finish_Ok)
  qed
qed

end
