(* ===== verification/Connections.thy ===== *)
theory Connections
  imports Kernel_Facts
begin

text \<open>
  The callbacks of the two connection classes (\<^verbatim>\<open>session.cpp\<close>, \<^verbatim>\<open>client.cpp\<close>): what a session
  and a client do when a handshake, a read or a write completes and when a posted send runs, and the
  destructor of a session. A completion's result is an argument: whether it carries an error code,
  the peer's address (\<open>None\<close>: \<^verbatim>\<open>remote_endpoint\<close> throws), the text read.
  The write queue the two classes share is the subject of the theory \<open>Write_Queue\<close>.
\<close>

datatype read_result = Read_closed | Read_error | Read_text string

section \<open>Sessions\<close>

definition register_object :: "boost \<Rightarrow> uuid \<Rightarrow> config \<Rightarrow> json_object" where
  "register_object b tid config =
     [(''transaction_id'', JString (uuid_to_string b tid)),
      (''action'', JString ''register''),
      (''params'', JObject
         [(''registered'', JBool (cfg_registered config)),
          (''clients_port'', JUint64 (ucast (cfg_clients_port config))),
          (''sessions_port'', JUint64 (ucast (cfg_sessions_port config)))])]"

definition unprocessable_object :: "timestamp \<Rightarrow> timestamp \<Rightarrow> json_object" where
  "unprocessable_object now read_at =
     [(''transaction_id'', JNull),
      (''status'', JString ''failed''),
      (''message'', JString ''unprocessable entity''),
      (''data'', JObject [(''body'', JString ''body must be json object'')]),
      (''timestamp'', JInt64 now),
      (''runtime'', JInt64 (now - read_at))]"

definition session_on_run :: "session \<Rightarrow> session_context \<Rightarrow> world \<Rightarrow> world" where
  "session_on_run s ctx w =
     (case ctx of
        Local \<Rightarrow> initiate (Session_accept s ctx) w
      | Remote \<Rightarrow>
          initiate (Session_handshake s
            (cfg_remote_address (st_config w) @ '':'' @ decimal (unat (cfg_remote_sessions_port (st_config w))))
            ctx) w)"

definition session_register :: "boost \<Rightarrow> session \<Rightarrow> world \<Rightarrow> world" where
  "session_register b s w =
     (let (tid, w1) = draw_uuid b w;
          response = register_object b tid (st_config w1);
          w2 = w1\<lparr>st_config := (st_config w1)\<lparr>cfg_registered := True\<rparr>\<rparr>
      in session_send s (serialize b (JObject response)) w2)"

definition session_do_read :: "session \<Rightarrow> world \<Rightarrow> world" where
  "session_do_read s w = initiate (Session_read s) w"

definition session_on_accept ::
    "boost \<Rightarrow> session \<Rightarrow> session_context \<Rightarrow> bool \<Rightarrow> string option \<Rightarrow> unit eff_w" where
  "session_on_accept b s ctx ec endpoint =
     (if ec then bind_eff (call (remove_session (ses_id s))) (\<lambda>_. return ())
      else
        bind_eff (lift_outcome (case endpoint of Some host \<Rightarrow> Ok host | None \<Rightarrow> Throw Endpoint_failure))
          (\<lambda>host.
        bind_eff (modify (set_host s host)) (\<lambda>_.
        bind_eff (if ctx = Remote then modify (session_register b s) else return ()) (\<lambda>_.
        modify (session_do_read s)))))"

definition session_unprocessable :: "boost \<Rightarrow> session \<Rightarrow> timestamp \<Rightarrow> world \<Rightarrow> world" where
  "session_unprocessable b s read_at w =
     (let (now, w') = read_clock b w
      in session_send s (serialize b (JObject (unprocessable_object now read_at))) w')"

definition session_on_read :: "boost \<Rightarrow> session \<Rightarrow> read_result \<Rightarrow> unit eff_w" where
  "session_on_read b s result =
     (case result of
        Read_closed \<Rightarrow> bind_eff (call (remove_session (ses_id s))) (\<lambda>_. return ())
      | Read_error \<Rightarrow> bind_eff (call (remove_session (ses_id s))) (\<lambda>_. return ())
      | Read_text stream \<Rightarrow>
          bind_eff (call (read_clock b)) (\<lambda>read_at.
          bind_eff
            (case json_parse b stream of
               Some (JObject data) \<Rightarrow>
                 bind_eff (kernel b data On_session (ses_id s)) (\<lambda>response.
                 if \<not> is_ack response
                 then modify (session_send s (serialize b (JObject (get_data response))))
                 else return ())
             | _ \<Rightarrow> modify (session_unprocessable b s read_at)) (\<lambda>_.
          modify (session_do_read s))))"

definition session_queue :: "session \<Rightarrow> world \<Rightarrow> string list" where
  "session_queue s w = so_queue (session_obj_of w s)"

definition session_on_send :: "session \<Rightarrow> string \<Rightarrow> world \<Rightarrow> world" where
  "session_on_send s data w =
     (let w' = update_session s (\<lambda>x. x\<lparr>so_queue := so_queue x @ [data]\<rparr>) w
      in if length (session_queue s w') > 1 then w'
         else initiate (Session_write s (hd (session_queue s w'))) w')"

definition session_on_write :: "session \<Rightarrow> bool \<Rightarrow> unit eff_w" where
  "session_on_write s ec =
     (if ec then return ()
      else
        bind_eff (gets (session_queue s)) (\<lambda>queue.
        if queue = [] then lift_outcome (Throw Undefined_behaviour)
        else
          bind_eff (modify (update_session s (\<lambda>x. x\<lparr>so_queue := tl (so_queue x)\<rparr>))) (\<lambda>_.
          bind_eff (gets (session_queue s)) (\<lambda>queue.
          if queue \<noteq> [] then modify (initiate (Session_write s (hd queue))) else return ()))))"

text \<open>The destructor, when the last \<^verbatim>\<open>shared_ptr\<close> to the session goes away.\<close>

definition destroy_session :: "session \<Rightarrow> world \<Rightarrow> world" where
  "destroy_session s w =
     (let w' = remove_state_of_session (ses_id s) w
      in w'\<lparr>w_live_sessions := remove1 s (w_live_sessions w')\<rparr>)"

section \<open>Clients\<close>

definition welcome_object :: "boost \<Rightarrow> uuid \<Rightarrow> timestamp \<Rightarrow> timestamp \<Rightarrow> uuid \<Rightarrow> json_object" where
  "welcome_object b tid now run_at client_id =
     [(''transaction_id'', JString (uuid_to_string b tid)),
      (''action'', JString ''welcome''),
      (''status'', JString ''success''),
      (''message'', JString ''accepted''),
      (''timestamp'', JInt64 now),
      (''runtime'', JInt64 (now - run_at)),
      (''data'', JObject [(''client_id'', JString (uuid_to_string b client_id))])]"

definition client_disconnected :: "boost \<Rightarrow> client \<Rightarrow> unit eff_w" where
  "client_disconnected b c =
     bind_eff (call (remove_client (cl_id c))) (\<lambda>_.
     bind_eff (call (leave_to_sessions b (cl_id c))) (\<lambda>_. return ()))"

definition client_do_read :: "client \<Rightarrow> unit eff_w" where
  "client_do_read c =
     bind_eff (gets (\<lambda>w. co_socket (client_obj_of w c))) (\<lambda>socket.
     case socket of
       None \<Rightarrow> lift_outcome (Throw Bad_optional_access)
     | Some _ \<Rightarrow> modify (initiate (Client_read c)))"

definition client_welcome :: "boost \<Rightarrow> client \<Rightarrow> timestamp \<Rightarrow> world \<Rightarrow> world" where
  "client_welcome b c run_at w =
     (let (now, w1) = read_clock b w;
          (tid, w2) = draw_uuid b w1
      in client_send c (serialize b (JObject (welcome_object b tid now run_at (cl_id c)))) w2)"

definition client_on_accept :: "boost \<Rightarrow> client \<Rightarrow> timestamp \<Rightarrow> bool \<Rightarrow> unit eff_w" where
  "client_on_accept b c run_at ec =
     (if ec then client_disconnected b c
      else
        bind_eff (modify (client_welcome b c run_at)) (\<lambda>_. client_do_read c))"

definition client_unprocessable :: "boost \<Rightarrow> client \<Rightarrow> timestamp \<Rightarrow> world \<Rightarrow> world" where
  "client_unprocessable b c read_at w =
     (let (now, w') = read_clock b w
      in client_send c (serialize b (JObject (unprocessable_object now read_at))) w')"

definition client_on_read :: "boost \<Rightarrow> client \<Rightarrow> read_result \<Rightarrow> unit eff_w" where
  "client_on_read b c result =
     (case result of
        Read_closed \<Rightarrow> client_disconnected b c
      | Read_error \<Rightarrow> client_disconnected b c
      | Read_text stream \<Rightarrow>
          bind_eff (call (read_clock b)) (\<lambda>read_at.
          bind_eff
            (case json_parse b stream of
               Some (JObject data) \<Rightarrow>
                 bind_eff (kernel b data On_client (cl_id c)) (\<lambda>response.
                 modify (client_send c (serialize b (JObject (get_data response)))))
             | _ \<Rightarrow> modify (client_unprocessable b c read_at)) (\<lambda>_.
          client_do_read c)))"

definition client_queue :: "client \<Rightarrow> world \<Rightarrow> string list" where
  "client_queue c w = co_queue (client_obj_of w c)"

definition client_on_send :: "client \<Rightarrow> string \<Rightarrow> world \<Rightarrow> world" where
  "client_on_send c data w =
     (let w' = update_client c (\<lambda>x. x\<lparr>co_queue := co_queue x @ [data]\<rparr>) w
      in if length (client_queue c w') > 1 then w'
         else
           case co_socket (client_obj_of w' c) of
             None \<Rightarrow> w'
           | Some is_open \<Rightarrow>
               if is_open then initiate (Client_write c (hd (client_queue c w'))) w' else w')"

definition client_on_write :: "client \<Rightarrow> bool \<Rightarrow> unit eff_w" where
  "client_on_write c ec =
     (if ec then return ()
      else
        bind_eff (gets (client_queue c)) (\<lambda>queue.
        if queue = [] then lift_outcome (Throw Undefined_behaviour)
        else
          bind_eff (modify (update_client c (\<lambda>x. x\<lparr>co_queue := tl (co_queue x)\<rparr>))) (\<lambda>_.
          bind_eff (gets (\<lambda>w. (client_queue c w, co_socket (client_obj_of w c)))) (\<lambda>(queue, socket).
          if queue \<noteq> [] \<and> socket = Some True then modify (initiate (Client_write c (hd queue)))
          else return ()))))"

end
