(* ===== verification/Write_Queue.thy ===== *)
theory Write_Queue
  imports Connections
begin

text \<open>
  The write queue of a connection: the same code in \<^verbatim>\<open>session\<close> and in \<^verbatim>\<open>client\<close>
  (\<^verbatim>\<open>on_send\<close>, \<^verbatim>\<open>on_write\<close>). The locale \<open>write_queue\<close> states its contract over the queue of an
  address, the writes in progress for it and the two callbacks; its two interpretations show that a
  connection never has two writes in progress, that the message being written is the head of the
  queue for as long as the write lasts (so its buffer is alive), and that a completed write never
  erases from an empty queue.
\<close>

section \<open>Writes in progress\<close>

fun session_write_of :: "nat \<Rightarrow> op \<Rightarrow> string list" where
  "session_write_of a (Session_write s m) = (if ses_addr s = a then [m] else [])"
| "session_write_of a _ = []"

fun client_write_of :: "nat \<Rightarrow> op \<Rightarrow> string list" where
  "client_write_of a (Client_write c m) = (if cl_addr c = a then [m] else [])"
| "client_write_of a _ = []"

definition session_writes :: "nat \<Rightarrow> op list \<Rightarrow> string list" where
  "session_writes a xs = concat (map (session_write_of a) xs)"

definition client_writes :: "nat \<Rightarrow> op list \<Rightarrow> string list" where
  "client_writes a xs = concat (map (client_write_of a) xs)"

lemma session_writes_simps [simp]:
  "session_writes a [] = []"
  "session_writes a (x # xs) = session_write_of a x @ session_writes a xs"
  "session_writes a (xs @ ys) = session_writes a xs @ session_writes a ys"
  by (simp_all add: session_writes_def)

lemma client_writes_simps [simp]:
  "client_writes a [] = []"
  "client_writes a (x # xs) = client_write_of a x @ client_writes a xs"
  "client_writes a (xs @ ys) = client_writes a xs @ client_writes a ys"
  by (simp_all add: client_writes_def)

text \<open>
  \<open>disciplined q ws\<close>: at most one write is in progress and it writes the head of the queue.
  \<open>flowing q ws\<close>: moreover one is in progress whenever the queue is not empty.
\<close>

definition disciplined :: "string list \<Rightarrow> string list \<Rightarrow> bool" where
  "disciplined q ws \<longleftrightarrow> ws = [] \<or> (q \<noteq> [] \<and> ws = [hd q])"

definition flowing :: "string list \<Rightarrow> string list \<Rightarrow> bool" where
  "flowing q ws \<longleftrightarrow> ws = take 1 q"

lemma flowing_disciplined: "flowing q ws \<Longrightarrow> disciplined q ws"
  by (cases q) (auto simp: flowing_def disciplined_def)

lemma disciplined_Nil [simp]: "disciplined q []"
  by (simp add: disciplined_def)

lemma disciplined_write: "disciplined q ws \<Longrightarrow> m \<in> set ws \<Longrightarrow> q \<noteq> [] \<and> m = hd q \<and> ws = [m]"
  by (auto simp: disciplined_def)

section \<open>The contract\<close>

locale write_queue =
  fixes addr :: "'c \<Rightarrow> nat"
    and queue_at :: "nat \<Rightarrow> world \<Rightarrow> string list"
    and writes_at :: "nat \<Rightarrow> op list \<Rightarrow> string list"
    and ready :: "'c \<Rightarrow> world \<Rightarrow> bool"
    and written :: "'c \<Rightarrow> string \<Rightarrow> op"
    and on_send :: "'c \<Rightarrow> string \<Rightarrow> world \<Rightarrow> world"
    and on_write :: "'c \<Rightarrow> bool \<Rightarrow> unit eff_w"
  assumes writes_append: "writes_at a (xs @ ys) = writes_at a xs @ writes_at a ys"
    and writes_written: "writes_at a [written c m] = (if addr c = a then [m] else [])"
    and writes_Nil: "writes_at a [] = []"
    and queue_pending: "queue_at a (w\<lparr>w_pending := xs\<rparr>) = queue_at a w"
    and ready_pending: "ready c (w\<lparr>w_pending := xs\<rparr>) = ready c w"
    and send_queue: "queue_at a (on_send c m w) =
          (if addr c = a then queue_at a w @ [m] else queue_at a w)"
    and send_pending: "w_pending (on_send c m w) = w_pending w @
          (if queue_at (addr c) w = [] \<and> ready c w then [written c m] else [])"
    and send_ready: "ready d (on_send c m w) = ready d w"
    and write_error: "on_write c True w = (Ok (), w)"
    and write_empty: "queue_at (addr c) w = [] \<Longrightarrow> on_write c False w = (Throw Undefined_behaviour, w)"
    and write_ok: "queue_at (addr c) w \<noteq> [] \<Longrightarrow> fst (on_write c False w) = Ok ()"
    and write_queue: "queue_at (addr c) w \<noteq> [] \<Longrightarrow> queue_at a (snd (on_write c False w)) =
          (if addr c = a then tl (queue_at a w) else queue_at a w)"
    and write_pending: "queue_at (addr c) w \<noteq> [] \<Longrightarrow> w_pending (snd (on_write c False w)) =
          w_pending w @ (if tl (queue_at (addr c) w) \<noteq> [] \<and> ready c w
                         then [written c (hd (tl (queue_at (addr c) w)))] else [])"
begin

definition orderly :: "nat \<Rightarrow> world \<Rightarrow> bool" where
  "orderly a w \<longleftrightarrow> disciplined (queue_at a w) (writes_at a (w_pending w))"

lemma writes_Cons:
  "writes_at a (written c m # ys) = (if addr c = a then [m] else []) @ writes_at a ys"
  using writes_append [of a "[written c m]" ys] by (simp add: writes_written)

lemma send_orderly: "orderly a w \<Longrightarrow> orderly a (on_send c m w)"
  by (auto simp: orderly_def disciplined_def send_queue send_pending writes_append writes_written writes_Nil)

text \<open>The completion of a write that is in progress, after it has left the pending operations.\<close>

definition completing :: "'c \<Rightarrow> string \<Rightarrow> op list \<Rightarrow> op list \<Rightarrow> world \<Rightarrow> bool" where
  "completing c m xs ys w \<longleftrightarrow> w_pending w = xs @ written c m # ys \<and> orderly (addr c) w"

lemma completing_writes:
  assumes "completing c m xs ys w"
  shows "queue_at (addr c) w \<noteq> []" and "m = hd (queue_at (addr c) w)"
    and "writes_at (addr c) (xs @ ys) = []"
proof -
  have "disciplined (queue_at (addr c) w) (writes_at (addr c) xs @ m # writes_at (addr c) ys)"
    using assms unfolding completing_def orderly_def by (auto simp: writes_append writes_Cons)
  from disciplined_write [OF this, of m]
  have one: "writes_at (addr c) xs @ m # writes_at (addr c) ys = [m]"
    and q: "queue_at (addr c) w \<noteq> []" "m = hd (queue_at (addr c) w)" by auto
  from one have "writes_at (addr c) xs = []" "writes_at (addr c) ys = []"
    by (cases "writes_at (addr c) xs"; simp)+
  with q show "queue_at (addr c) w \<noteq> []" "m = hd (queue_at (addr c) w)"
    "writes_at (addr c) (xs @ ys) = []" by (simp_all add: writes_append)
qed

lemma complete_returns:
  assumes "completing c m xs ys w"
  shows "fst (on_write c ec (w\<lparr>w_pending := xs @ ys\<rparr>)) = Ok ()"
  using completing_writes [OF assms] by (cases ec) (simp_all add: write_error write_ok queue_pending)

lemma complete_queue:
  assumes "completing c m xs ys w"
  shows "queue_at a (snd (on_write c ec (w\<lparr>w_pending := xs @ ys\<rparr>))) =
     (if addr c = a \<and> \<not> ec then tl (queue_at a w) else queue_at a w)"
  using completing_writes [OF assms] by (cases ec) (simp_all add: write_error write_queue queue_pending)

lemma complete_pending:
  assumes "completing c m xs ys w"
  shows "w_pending (snd (on_write c ec (w\<lparr>w_pending := xs @ ys\<rparr>))) = xs @ ys @
     (if \<not> ec \<and> tl (queue_at (addr c) w) \<noteq> [] \<and> ready c w
      then [written c (hd (tl (queue_at (addr c) w)))] else [])"
  using completing_writes [OF assms]
  by (cases ec) (simp_all add: write_error write_pending queue_pending ready_pending)

lemma complete_orderly:
  assumes c: "completing c m xs ys w" and a: "orderly a w"
  shows "orderly a (snd (on_write c ec (w\<lparr>w_pending := xs @ ys\<rparr>)))"
proof (cases "addr c = a")
  case True
  have none: "writes_at a xs = []" "writes_at a ys = []"
    using completing_writes(3) [OF c] True by (simp_all add: writes_append)
  show ?thesis
    unfolding orderly_def complete_queue [OF c] complete_pending [OF c]
    using True none
    by (auto simp: writes_append writes_written writes_Nil disciplined_def)
next
  case False
  have "w_pending w = xs @ written c m # ys" using c by (simp add: completing_def)
  with a False have "disciplined (queue_at a w) (writes_at a xs @ writes_at a ys)"
    by (simp add: orderly_def writes_Cons writes_append)
  with False show ?thesis
    by (simp add: orderly_def complete_queue [OF c] complete_pending [OF c] writes_append
        writes_written writes_Nil)
qed

text \<open>While the socket stays ready and no write fails, a non-empty queue is being written.\<close>

lemma send_flowing:
  assumes "flowing (queue_at (addr c) w) (writes_at (addr c) (w_pending w))" and "ready c w"
  shows "flowing (queue_at (addr c) (on_send c m w)) (writes_at (addr c) (w_pending (on_send c m w)))"
  using assms
  by (cases "queue_at (addr c) w")
    (simp_all add: flowing_def send_queue send_pending writes_append writes_written writes_Nil)

lemma complete_flowing:
  assumes c: "completing c m xs ys w" and "ready c w"
  shows "flowing (queue_at (addr c) (snd (on_write c False (w\<lparr>w_pending := xs @ ys\<rparr>))))
     (writes_at (addr c) (w_pending (snd (on_write c False (w\<lparr>w_pending := xs @ ys\<rparr>)))))"
proof -
  have none: "writes_at (addr c) xs = []" "writes_at (addr c) ys = []"
    using completing_writes(3) [OF c] by (simp_all add: writes_append)
  show ?thesis
    unfolding complete_queue [OF c] complete_pending [OF c]
    using \<open>ready c w\<close> none
    by (cases "tl (queue_at (addr c) w)")
      (simp_all add: flowing_def writes_append writes_written writes_Nil)
qed

end

section \<open>Sessions and clients\<close>

definition session_queue_at :: "nat \<Rightarrow> world \<Rightarrow> string list" where
  "session_queue_at a w = so_queue (w_session_objs w a)"

definition client_queue_at :: "nat \<Rightarrow> world \<Rightarrow> string list" where
  "client_queue_at a w = co_queue (w_client_objs w a)"

lemma session_queue_eq: "session_queue s w = session_queue_at (ses_addr s) w"
  by (simp add: session_queue_def session_queue_at_def session_obj_of_def)

lemma client_queue_eq: "client_queue c w = client_queue_at (cl_addr c) w"
  by (simp add: client_queue_def client_queue_at_def client_obj_of_def)

lemmas queue_defs = session_queue_def session_queue_at_def client_queue_def client_queue_at_def
  device_defs

interpretation ses: write_queue ses_addr session_queue_at session_writes "\<lambda>s w. True" Session_write
  session_on_send session_on_write
  by unfold_locales
    (auto simp: session_on_send_def session_on_write_def queue_defs bind_eff_apply Let_def neq_Nil_conv)

interpretation cli: write_queue cl_addr client_queue_at client_writes "\<lambda>c w. client_open w c"
  Client_write client_on_send client_on_write
  by unfold_locales
    (auto simp: client_on_send_def client_on_write_def client_open_def queue_defs bind_eff_apply Let_def
      neq_Nil_conv split: option.splits)

end
