(* ===== verification/Server.thy ===== *)
theory Server
  imports Write_Queue
begin

text \<open>
  The parts that start a node and feed it: the two listeners (\<^verbatim>\<open>session_listener.cpp\<close>,
  \<^verbatim>\<open>client_listener.cpp\<close>), the console (\<^verbatim>\<open>repl.cpp\<close>), the server
  (\<^verbatim>\<open>server.cpp\<close>; its \<open>stop\<close> is in \<open>Node\<close>), \<^verbatim>\<open>version.cpp\<close> and \<^verbatim>\<open>main.cpp\<close>.
\<close>

section \<open>Listeners\<close>

definition session_listener_open :: "boost \<Rightarrow> string \<Rightarrow> ushort \<Rightarrow> world \<Rightarrow> world" where
  "session_listener_open b address port w =
     (let a = acceptor b address port
      in if \<not> as_opens a then w
         else if \<not> as_reuses a then w
         else if \<not> as_binds a then w
         else if \<not> as_listens a then w
         else w\<lparr>st_config := (st_config w)\<lparr>cfg_sessions_port := as_port a\<rparr>\<rparr>)"

definition session_listener_do_accept :: "world \<Rightarrow> world" where
  "session_listener_do_accept w = initiate Listener_accept_session w"

definition session_listener_start :: "world \<Rightarrow> world" where
  "session_listener_start w = session_listener_do_accept w"

definition session_listener_on_accept :: "boost \<Rightarrow> bool \<Rightarrow> unit eff_w" where
  "session_listener_on_accept b ec =
     bind_eff
       (if ec then return ()
        else
          bind_eff (call (make_session b)) (\<lambda>s.
          bind_eff (call (add_session s)) (\<lambda>_.
          modify (session_run s Local)))) (\<lambda>_.
     modify session_listener_do_accept)"

definition client_listener_open :: "boost \<Rightarrow> string \<Rightarrow> ushort \<Rightarrow> world \<Rightarrow> world" where
  "client_listener_open b address port w =
     (let a = acceptor b address port
      in if \<not> as_opens a then w
         else if \<not> as_reuses a then w
         else if \<not> as_binds a then w
         else if \<not> as_listens a then w
         else w\<lparr>st_config := (st_config w)\<lparr>cfg_clients_port := as_port a\<rparr>\<rparr>)"

definition client_listener_do_accept :: "world \<Rightarrow> world" where
  "client_listener_do_accept w = initiate Listener_accept_client w"

definition client_listener_start :: "world \<Rightarrow> world" where
  "client_listener_start w = client_listener_do_accept w"

definition client_listener_on_accept :: "boost \<Rightarrow> bool \<Rightarrow> unit eff_w" where
  "client_listener_on_accept b ec =
     bind_eff
       (if ec then return ()
        else
          bind_eff (gets get_id) (\<lambda>state_id.
          bind_eff (call (make_client b state_id)) (\<lambda>c.
          bind_eff (modify (set_socket c)) (\<lambda>_.
          bind_eff (call (add_client c)) (\<lambda>_.
          bind_eff (call (join_to_sessions b (cl_id c))) (\<lambda>_.
          modify (client_run b c))))))) (\<lambda>_.
     modify client_listener_do_accept)"

section \<open>The console\<close>

definition newline :: string where
  "newline = [CHR 0x0A]"

definition print_text :: "string \<Rightarrow> world \<Rightarrow> world" where
  "print_text s w = w\<lparr>w_output := w_output w @ [s]\<rparr>"

definition rule_line :: string where
  "rule_line = ''============'' @ newline"

definition session_lines :: "boost \<Rightarrow> world \<Rightarrow> session \<Rightarrow> string list" where
  "session_lines b w s =
     [''id #'' @ uuid_to_string b (ses_id s) @ newline,
      ''sessions_port='' @ decimal (unat (get_sessions_port w s)) @ '' clients_port='' @
        decimal (unat (get_clients_port w s)) @ newline @ newline]"

definition client_lines :: "boost \<Rightarrow> client \<Rightarrow> string list" where
  "client_lines b c =
     [''id '' @ uuid_to_string b (cl_id c) @ '' session_id='' @ uuid_to_string b (cl_session_id c) @
        newline @ newline]"

definition subscription_lines :: "boost \<Rightarrow> subscription \<Rightarrow> string list" where
  "subscription_lines b x =
     [''client_id='' @ uuid_to_string b (sub_client_id x) @ '' session_id='' @
        uuid_to_string b (sub_session_id x) @ '' channel='' @ sub_channel x @ newline @ newline]"

definition dump_lines :: "boost \<Rightarrow> world \<Rightarrow> string list" where
  "dump_lines b w =
     [''sessions '' @ decimal (length (get_sessions w)) @ newline, rule_line] @
     concat (map (session_lines b w) (get_sessions w)) @ [rule_line] @
     [''clients '' @ decimal (length (get_clients w)) @ newline, rule_line] @
     concat (map (client_lines b) (get_clients w)) @ [rule_line] @
     [''subscriptions '' @ decimal (length (get_subscriptions w)) @ newline, rule_line] @
     concat (map (subscription_lines b) (get_subscriptions w)) @ [rule_line]"

definition repl_start :: "world \<Rightarrow> world" where
  "repl_start w = initiate Repl_read w"

datatype repl_error = No_error | End_of_file | Failed string

definition repl_read :: "boost \<Rightarrow> repl_error \<Rightarrow> nat \<Rightarrow> world \<Rightarrow> world" where
  "repl_read b error bytes w =
     (case error of
        No_error \<Rightarrow>
          let line = (if bytes = 0 then w_input w else take (bytes - 1) (w_input w));
              w1 = w\<lparr>w_input := drop bytes (w_input w)\<rparr>;
              w2 = (if line = ''dump'' then fold print_text (dump_lines b w1) w1 else w1)
          in if line = ''exit'' then w2
             else initiate (Repl_write (''EVALUATED: '' @ line @ newline)) w2
      | End_of_file \<Rightarrow> print_text (''EOF received. Exiting REPL.'' @ newline) w
      | Failed message \<Rightarrow> print_text (''Error during read: '' @ message @ newline) w)"

definition repl_write :: "repl_error \<Rightarrow> world \<Rightarrow> world" where
  "repl_write error w =
     (case error of
        No_error \<Rightarrow> repl_start w
      | End_of_file \<Rightarrow> print_text (''Error during write: '' @ ''End of file'' @ newline) w
      | Failed message \<Rightarrow> print_text (''Error during write: '' @ message @ newline) w)"

section \<open>The server\<close>

text \<open>
  \<open>boot\<close> is the world after the constructor of \<^verbatim>\<open>server\<close>: a state on the configuration, nothing
  allocated and nothing pending.
\<close>

definition boot :: "boost \<Rightarrow> config \<Rightarrow> world" where
  "boot b config = state.extend (make_state b config 0 0)
     (world.fields
       (\<lambda>_. \<lparr>so_sessions_port = 0, so_clients_port = 0, so_host = '''', so_registered = False,
             so_open = False, so_queue = []\<rparr>)
       (\<lambda>_. \<lparr>co_socket = None, co_queue = []\<rparr>)
       0 [] new_response 1 1 0 [] [] [])"

definition server_connect :: "boost \<Rightarrow> config \<Rightarrow> unit eff_w" where
  "server_connect b config =
     (let host = cfg_remote_address config;
          service = decimal (unat (cfg_remote_sessions_port config))
      in bind_eff (lift_outcome (if resolve b host service then Ok () else Throw Resolve_failure)) (\<lambda>_.
         bind_eff (call (make_session b)) (\<lambda>s.
         bind_eff (connect_until_open b host service) (\<lambda>_.
         bind_eff (modify (set_sessions_port s (cfg_remote_sessions_port config))) (\<lambda>_.
         bind_eff (modify (set_clients_port s (cfg_remote_clients_port config))) (\<lambda>_.
         bind_eff (modify (session_run s Remote)) (\<lambda>_.
         bind_eff (call (add_session s)) (\<lambda>_. return ()))))))))"

text \<open>The result is the number of threads that run the event loop, the calling one included.\<close>

definition server_start :: "boost \<Rightarrow> nat eff_w" where
  "server_start b =
     bind_eff (gets get_config) (\<lambda>config.
     bind_eff (lift_outcome (if make_address b (cfg_address config) then Ok () else Throw Bad_address)) (\<lambda>_.
     bind_eff (if cfg_is_node config then server_connect b config else return ()) (\<lambda>_.
     bind_eff (modify (\<lambda>w. session_listener_open b (cfg_address config) (cfg_sessions_port (get_config w)) w)) (\<lambda>_.
     bind_eff (modify session_listener_start) (\<lambda>_.
     bind_eff (modify (\<lambda>w. client_listener_open b (cfg_address config) (cfg_clients_port (get_config w)) w)) (\<lambda>_.
     bind_eff (modify client_listener_start) (\<lambda>_.
     bind_eff (if cfg_repl_enabled config then modify repl_start else return ()) (\<lambda>_.
     if cfg_threads config = 0 then lift_outcome (Throw Length_error)
     else return (unat (cfg_threads config))))))))))"

section \<open>The program\<close>

definition get_major :: "32 word" where
  "get_major = 0"

definition get_minor :: "32 word" where
  "get_minor = 0"

definition get_patch :: "32 word" where
  "get_patch = 0"

record options =
  opt_address :: string
  opt_threads :: ushort
  opt_is_node :: bool
  opt_sessions_port :: ushort
  opt_clients_port :: ushort
  opt_remote_address :: string
  opt_remote_sessions_port :: ushort
  opt_remote_clients_port :: ushort

definition default_options :: options where
  "default_options =
     \<lparr>opt_address = ''0.0.0.0'', opt_threads = 4, opt_is_node = False, opt_sessions_port = 11000,
      opt_clients_port = 12000, opt_remote_address = ''localhost'', opt_remote_sessions_port = 9000,
      opt_remote_clients_port = 10000\<rparr>"

definition configure :: "options \<Rightarrow> config \<Rightarrow> config" where
  "configure opts config =
     config\<lparr>cfg_address := opt_address opts,
            cfg_threads := opt_threads opts,
            cfg_is_node := opt_is_node opts,
            cfg_sessions_port := opt_sessions_port opts,
            cfg_clients_port := opt_clients_port opts,
            cfg_remote_address := opt_remote_address opts,
            cfg_remote_sessions_port := opt_remote_sessions_port opts,
            cfg_remote_clients_port := opt_remote_clients_port opts\<rparr>"

text \<open>
  \<open>parsed\<close> is what \<^verbatim>\<open>parse_command_line\<close> and \<^verbatim>\<open>store\<close> make of the arguments, with the
  defaults filled in (\<open>None\<close>: they throw).
\<close>

definition main_program :: "boost \<Rightarrow> options option \<Rightarrow> nat outcome \<times> world option" where
  "main_program b parsed =
     (case parsed of
        None \<Rightarrow> (Throw Bad_option, None)
      | Some opts \<Rightarrow>
          let w = boot b default_config;
              (threads, w') = server_start b (w\<lparr>st_config := configure opts (st_config w)\<rparr>)
          in (threads, Some w'))"

end
