(* ===== verification/Calm.thy ===== *)
theory Calm
  imports Server
begin

text \<open>
  What the code does to the pending operations and the write queues outside the queues' own
  callbacks. \<open>calm v w\<close> relates a node \<open>v\<close> to a later \<open>w\<close>: the invariant holds, operations
  have only been added, each of them on an object that exists and none of them a write, nothing
  has been released (a client that has a socket keeps it), and no write queue has changed. The handlers, the kernel and the callbacks
  of the connections are calm, also when they throw.
\<close>

definition has_socket :: "world \<Rightarrow> nat \<Rightarrow> bool" where
  "has_socket w a \<longleftrightarrow> co_socket (w_client_objs w a) \<noteq> None"

definition client_live :: "world \<Rightarrow> client \<Rightarrow> bool" where
  "client_live w c \<longleftrightarrow> cl_addr c < w_next_addr w \<and> has_socket w (cl_addr c)"

fun op_live :: "world \<Rightarrow> op \<Rightarrow> bool" where
  "op_live w (Session_on_run s ctx) = (s \<in> set (w_live_sessions w))"
| "op_live w (Session_accept s ctx) = (s \<in> set (w_live_sessions w))"
| "op_live w (Session_handshake s host ctx) = (s \<in> set (w_live_sessions w))"
| "op_live w (Session_read s) = (s \<in> set (w_live_sessions w))"
| "op_live w (Session_on_send s m) = (s \<in> set (w_live_sessions w))"
| "op_live w (Session_write s m) = (s \<in> set (w_live_sessions w))"
| "op_live w (Client_accept c t) = client_live w c"
| "op_live w (Client_read c) = client_live w c"
| "op_live w (Client_on_send c m) = client_live w c"
| "op_live w (Client_write c m) = client_live w c"
| "op_live w Listener_accept_session = True"
| "op_live w Listener_accept_client = True"
| "op_live w Repl_read = True"
| "op_live w (Repl_write m) = True"

fun is_write :: "op \<Rightarrow> bool" where
  "is_write (Session_write s m) = True"
| "is_write (Client_write c m) = True"
| "is_write _ = False"

lemma op_live_mono:
  "op_live v x \<Longrightarrow> set (w_live_sessions v) \<subseteq> set (w_live_sessions w) \<Longrightarrow>
     w_next_addr v \<le> w_next_addr w \<Longrightarrow> (\<And>a. has_socket v a \<Longrightarrow> has_socket w a) \<Longrightarrow> op_live w x"
  by (cases x) (auto simp: client_live_def)

definition queues :: "world \<Rightarrow> (nat \<Rightarrow> string list) \<times> (nat \<Rightarrow> string list)" where
  "queues w = (\<lambda>a. session_queue_at a w, \<lambda>a. client_queue_at a w)"

definition fresh_queues :: "world \<Rightarrow> bool" where
  "fresh_queues w \<longleftrightarrow>
     (\<forall>a \<ge> w_next_addr w. session_queue_at a w = [] \<and> client_queue_at a w = [] \<and> \<not> has_socket w a)"

definition added :: "world \<Rightarrow> op list \<Rightarrow> bool" where
  "added w xs \<longleftrightarrow> (\<forall>x\<in>set xs. op_live w x \<and> \<not> is_write x)"

definition calm :: "world \<Rightarrow> world \<Rightarrow> bool" where
  "calm v w \<longleftrightarrow>
     wf_world w \<and> fresh_queues w \<and> queues w = queues v \<and>
     set (w_live_sessions v) \<subseteq> set (w_live_sessions w) \<and> w_next_addr v \<le> w_next_addr w \<and>
     (\<forall>a. has_socket v a \<longrightarrow> has_socket w a) \<and>
     (\<exists>xs. w_pending w = w_pending v @ xs \<and> added w xs)"

lemma added_simps [simp]:
  "added w []"
  "added w (x # xs) \<longleftrightarrow> op_live w x \<and> \<not> is_write x \<and> added w xs"
  "added w (xs @ ys) \<longleftrightarrow> added w xs \<and> added w ys"
  by (auto simp: added_def)

lemma added_mono:
  "added v xs \<Longrightarrow> set (w_live_sessions v) \<subseteq> set (w_live_sessions w) \<Longrightarrow>
     w_next_addr v \<le> w_next_addr w \<Longrightarrow> (\<And>a. has_socket v a \<Longrightarrow> has_socket w a) \<Longrightarrow> added w xs"
  by (auto simp: added_def intro: op_live_mono)

lemma calm_refl: "wf_world w \<Longrightarrow> fresh_queues w \<Longrightarrow> calm w w"
  by (auto simp: calm_def)

lemma calm_self: "calm v w \<Longrightarrow> calm w w"
  by (auto simp: calm_def)

lemma calm_wf: "calm v w \<Longrightarrow> wf_world w"
  by (simp add: calm_def)

lemma calm_trans:
  assumes "calm u v" and "calm v w"
  shows "calm u w"
proof -
  obtain xs ys where "w_pending v = w_pending u @ xs" "added v xs"
    "w_pending w = w_pending v @ ys" "added w ys"
    using assms by (auto simp: calm_def)
  moreover from this(2) assms(2) have "added w xs"
    by (auto simp: calm_def intro: added_mono)
  ultimately have "w_pending w = w_pending u @ (xs @ ys)" "added w (xs @ ys)" by simp_all
  with assms show ?thesis unfolding calm_def by fastforce
qed

section \<open>Steps\<close>

text \<open>A step that leaves alone everything \<open>calm\<close> reads.\<close>

definition quiet :: "world \<Rightarrow> world \<Rightarrow> bool" where
  "quiet v w \<longleftrightarrow> core w = core v \<and> w_pending w = w_pending v \<and> queues w = queues v
     \<and> has_socket w = has_socket v"

lemma core_fields:
  "core w = core v \<Longrightarrow> w_next_addr w = w_next_addr v \<and> w_live_sessions w = w_live_sessions v"
  by (simp add: core_def)

lemma fresh_queues_cong:
  "queues w = queues v \<Longrightarrow> (\<And>a. a \<ge> w_next_addr w \<Longrightarrow> has_socket w a \<Longrightarrow> has_socket v a) \<Longrightarrow>
     w_next_addr v \<le> w_next_addr w \<Longrightarrow> fresh_queues v \<Longrightarrow> fresh_queues w"
  unfolding fresh_queues_def queues_def by (metis Pair_inject order_trans)

lemma calm_quiet: "calm u v \<Longrightarrow> quiet v w \<Longrightarrow> calm u w"
proof (rule calm_trans [of u v])
  assume v: "calm u v" and q: "quiet v w"
  from q have "w_next_addr w = w_next_addr v" "w_live_sessions w = w_live_sessions v"
    by (auto simp: quiet_def core_def)
  moreover have "wf_world w" using q calm_wf [OF v] by (auto simp: quiet_def intro: wf_world_core)
  moreover have "fresh_queues w"
    using v q \<open>w_next_addr w = w_next_addr v\<close> fresh_queues_cong [of w v]
    by (auto simp: calm_def quiet_def)
  ultimately show "calm v w" using q by (auto simp: calm_def quiet_def)
qed

lemma queues_frame [simp]:
  "queues (post xs w) = queues w"
  "queues (snd (draw_uuid b w)) = queues w"
  "queues (snd (read_clock b w)) = queues w"
  "queues (initiate x w) = queues w"
  "queues (next_reply b rq m d w) = queues w"
  "queues (mark_as_invalid b rq f a w) = queues w"
  "queues (respond_failed b tid ts bag w) = queues w"
  by (simp_all add: queues_def queue_defs post_def next_reply_def mark_as_invalid_def
      respond_failed_def Let_def case_prod_beta)

lemma has_socket_frame [simp]:
  "has_socket (post xs w) = has_socket w"
  "has_socket (snd (draw_uuid b w)) = has_socket w"
  "has_socket (snd (read_clock b w)) = has_socket w"
  "has_socket (initiate x w) = has_socket w"
  "has_socket (next_reply b rq m d w) = has_socket w"
  "has_socket (mark_as_invalid b rq f a w) = has_socket w"
  "has_socket (respond_failed b tid ts bag w) = has_socket w"
  "has_socket (update_session s g w) = has_socket w"
  by (simp_all add: has_socket_def fun_eq_iff device_defs post_def next_reply_def mark_as_invalid_def
      respond_failed_def Let_def case_prod_beta)

lemma pending_frame [simp]:
  "w_pending (snd (read_clock b w)) = w_pending w"
  "w_pending (respond_failed b tid ts bag w) = w_pending w"
  by (simp_all add: read_clock_def respond_failed_def Let_def case_prod_beta)

lemma quiet_basic:
  "quiet w w"
  "quiet w (snd (draw_uuid b w))"
  "quiet w (snd (read_clock b w))"
  "quiet w (next_reply b rq m d w)"
  "quiet w (mark_as_invalid b rq f a w)"
  "quiet w (respond_failed b tid ts bag w)"
  "quiet w (w\<lparr>w_response := r\<rparr>)"
  "quiet w (w\<lparr>w_attempts := n\<rparr>)"
  by (simp_all add: quiet_def) (simp_all add: queues_def queue_defs core_def state.truncate_def has_socket_def fun_eq_iff)

lemma quiet_update_session:
  assumes "\<And>x. so_queue (f x) = so_queue x"
  shows "quiet w (update_session s f w)"
proof -
  have "session_queue_at a (update_session s f w) = session_queue_at a w" for a
    using assms by (simp add: session_queue_at_def update_session_def)
  then show ?thesis
    by (simp add: quiet_def queues_def client_queue_at_def) (simp add: update_session_def)
qed

lemma quiet_members:
  "quiet w (set_sessions_port s p w)"
  "quiet w (set_clients_port s p w)"
  "quiet w (set_host s h w)"
  "quiet w (mark_as_registered s w)"
  by (simp_all add: set_sessions_port_def set_clients_port_def set_host_def mark_as_registered_def
      quiet_update_session)

lemma calm_post:
  assumes "calm v w" and "added w xs"
  shows "calm v (post xs w)"
proof -
  have wf: "wf_world (post xs w)" using calm_wf [OF assms(1)] by (rule wf_world_core) simp
  have "added (post xs w) ys = added w ys" for ys
    using added_mono [of w ys "post xs w"] added_mono [of "post xs w" ys w] by auto
  with assms wf have "calm w (post xs w)"
    using calm_self [OF assms(1)] by (auto simp: calm_def fresh_queues_def session_queue_at_def client_queue_at_def)
  with assms(1) show ?thesis by (rule calm_trans)
qed

text \<open>A step of the registry: only the members of \<^verbatim>\<open>state\<close> change.\<close>

lemma calm_registry:
  assumes "calm v w" and "wf_world w'"
    and "w_pending w' = w_pending w" "w_live_sessions w' = w_live_sessions w"
    "w_next_addr w' = w_next_addr w" "w_session_objs w' = w_session_objs w"
    "w_client_objs w' = w_client_objs w"
  shows "calm v w'"
proof -
  have q: "queues w' = queues w" using assms by (simp add: queues_def session_queue_at_def client_queue_at_def)
  have k: "has_socket w' = has_socket w" using assms by (simp add: has_socket_def fun_eq_iff)
  with q assms have "fresh_queues w'" by (metis calm_def fresh_queues_cong order_refl)
  with assms q k calm_self [OF assms(1)] have "calm w w'" by (auto simp: calm_def)
  with assms(1) show ?thesis by (rule calm_trans)
qed

lemma wf_registered_live:
  "wf_world w \<Longrightarrow> s \<in> set (get_sessions w) \<Longrightarrow> s \<in> set (w_live_sessions w)"
  by (auto simp: wf_world_def get_sessions_def)

lemma wf_client_allocated:
  "wf_world w \<Longrightarrow> c \<in> set (get_clients w) \<Longrightarrow> cl_addr c < w_next_addr w"
  by (auto simp: wf_world_def get_clients_def)

lemma added_session_deliveries:
  assumes "wf_world w" and "set ss \<subseteq> set (w_live_sessions w)"
  shows "added w (session_deliveries w ss m)"
  using assms by (auto simp: added_def session_deliveries_def)

lemma added_registered:
  assumes "wf_world w" and "set ss \<subseteq> set (get_sessions w)"
  shows "added w (session_deliveries w ss m)"
  using assms wf_registered_live by (intro added_session_deliveries) auto

lemma client_open_socket: "client_open w c \<Longrightarrow> has_socket w (cl_addr c)"
  by (simp add: client_open_def has_socket_def client_obj_of_def)

lemma added_clients:
  assumes "wf_world w" and "set cs \<subseteq> set (get_clients w)"
  shows "added w (client_deliveries w cs m)"
  using assms wf_client_allocated by (auto simp: added_def client_deliveries_def client_live_def client_open_socket)

lemma added_draw [simp]: "added (snd (draw_uuid b w)) xs = added w xs"
  using added_mono [of w xs "snd (draw_uuid b w)"] added_mono [of "snd (draw_uuid b w)" xs w] by auto

section \<open>Operations\<close>

text \<open>\<open>gentle f\<close>: the operation is calm wherever it starts.\<close>

definition gentle :: "(world \<Rightarrow> world) \<Rightarrow> bool" where
  "gentle f \<longleftrightarrow> (\<forall>v w. calm v w \<longrightarrow> calm v (f w))"

lemma gentleD: "gentle f \<Longrightarrow> calm v w \<Longrightarrow> calm v (f w)"
  by (simp add: gentle_def)

lemma gentle_quiet: "(\<And>w. quiet w (f w)) \<Longrightarrow> gentle f"
  by (auto simp: gentle_def intro: calm_quiet)

lemma gentle_sending:
  "gentle (\<lambda>w. snd (send_to_sessions b d w))"
  "gentle (\<lambda>w. snd (send_to_others_clients b d sid cid w))"
  "gentle (\<lambda>w. snd (send_to_subscribed_sessions b d ch w))"
  "gentle (send_to_session b sid frm to payload)"
  "gentle (\<lambda>w. snd (join_to_sessions b i w))"
  "gentle (\<lambda>w. snd (leave_to_sessions b i w))"
  unfolding gentle_def send_eqs snd_conv
  by (intro allI impI calm_post calm_quiet [OF _ quiet_basic(2)] added_registered [OF calm_wf]
      added_clients [OF calm_wf]; (assumption | auto simp: other_clients_def added_registered [OF calm_wf])?)+

lemma gentle_forwarding:
  "gentle (\<lambda>w. snd (broadcast_to_sessions b rq i d w))"
  "gentle (\<lambda>w. snd (broadcast_to_clients b rq sid i d w))"
  "gentle (\<lambda>w. snd (publish_to_sessions b rq i ch d w))"
  "gentle (\<lambda>w. snd (publish_to_clients b rq sid i ch d w))"
  "gentle (\<lambda>w. snd (subscribe_to_sessions b rq i ch w))"
  "gentle (\<lambda>w. snd (unsubscribe_to_sessions b rq i ch w))"
  by (simp_all add: forward_defs gentle_sending)

lemma gentle_registry:
  assumes "\<And>w. wf_world w \<Longrightarrow> wf_world (f w)"
    and "\<And>w. w_pending (f w) = w_pending w \<and> w_live_sessions (f w) = w_live_sessions w
           \<and> w_next_addr (f w) = w_next_addr w \<and> w_session_objs (f w) = w_session_objs w
           \<and> w_client_objs (f w) = w_client_objs w"
  shows "gentle f"
  unfolding gentle_def using assms by (blast intro: calm_registry dest: calm_wf)

lemma gentle_registration:
  "gentle (\<lambda>w. snd (subscribe s c ch w))"
  "gentle (\<lambda>w. snd (unsubscribe s c ch w))"
  "gentle (\<lambda>w. snd (remove_client i w))"
  "gentle (\<lambda>w. snd (remove_session i w))"
  "gentle (remove_state_of_session i)"
  by (rule gentle_registry, erule wf_world_rules,
      simp add: registration_defs case_prod_beta Let_def split: option.splits)+

text \<open>Allocation.\<close>

lemma calm_new_session:
  assumes "calm v w"
  shows "calm v (snd (new_session i w))" and "fst (new_session i w) \<in> set (w_live_sessions (snd (new_session i w)))"
proof -
  let ?w = "snd (new_session i w)"
  have "session_queue_at (w_next_addr w) w = []"
    using assms by (auto simp: calm_def fresh_queues_def)
  then have "queues ?w = queues w"
    by (auto simp: queues_def session_queue_at_def client_queue_at_def new_session_def Let_def)
  moreover have "w_next_addr ?w = Suc (w_next_addr w)" "w_pending ?w = w_pending w"
    "set (w_live_sessions w) \<subseteq> set (w_live_sessions ?w)" "has_socket ?w = has_socket w"
    by (auto simp: new_session_def Let_def has_socket_def)
  ultimately have "calm w ?w"
    using calm_self [OF assms] wf_new_session(1) [OF calm_wf [OF assms]] fresh_queues_cong [of ?w w]
    by (auto simp: calm_def)
  with assms show "calm v ?w" by (rule calm_trans)
qed (rule wf_new_session(2))

lemma calm_make_session:
  assumes "calm v w"
  shows "calm v (snd (make_session b w))" and "fst (make_session b w) \<in> set (w_live_sessions (snd (make_session b w)))"
  using calm_new_session [OF calm_quiet [OF assms quiet_basic(2)]]
  by (simp_all add: make_session_def case_prod_beta)

lemma calm_add_session:
  assumes "calm v w" and "s \<in> set (w_live_sessions w)"
  shows "calm v (snd (add_session s w))"
  using assms(1) wf_world_add_session [OF calm_wf [OF assms(1)] assms(2)]
  by (rule calm_registry) (simp_all add: add_session_def case_prod_beta)

lemma calm_new_client:
  assumes "calm v w"
  shows "calm v (snd (new_client sid i w))"
proof -
  let ?w = "snd (new_client sid i w)"
  have "client_queue_at (w_next_addr w) w = []"
    using assms by (auto simp: calm_def fresh_queues_def)
  then have "queues ?w = queues w"
    by (auto simp: queues_def session_queue_at_def client_queue_at_def new_client_def Let_def)
  moreover have "w_next_addr ?w = Suc (w_next_addr w)" "w_pending ?w = w_pending w"
    "w_live_sessions w = w_live_sessions ?w"
    by (auto simp: new_client_def Let_def)
  moreover have "has_socket ?w = has_socket w"
    using assms by (auto simp: calm_def fresh_queues_def has_socket_def new_client_def Let_def fun_eq_iff)
  ultimately have "calm w ?w"
    using calm_self [OF assms] wf_new_client(1) [OF calm_wf [OF assms]] fresh_queues_cong [of ?w w]
    by (auto simp: calm_def)
  with assms show "calm v ?w" by (rule calm_trans)
qed

lemma calm_add_client:
  assumes "calm v w" and "fresh_client w c"
  shows "calm v (snd (add_client c w))"
  using assms(1) wf_world_add_client [OF calm_wf [OF assms(1)] assms(2)]
  by (rule calm_registry) (simp_all add: add_client_def case_prod_beta)

text \<open>Sending to, and running, an object that exists.\<close>

lemma calm_session_send: "calm v w \<Longrightarrow> s \<in> set (w_live_sessions w) \<Longrightarrow> calm v (session_send s m w)"
  unfolding session_send_post by (intro calm_post added_session_deliveries [OF calm_wf]) auto

lemma calm_initiate: "calm v w \<Longrightarrow> op_live w x \<Longrightarrow> \<not> is_write x \<Longrightarrow> calm v (initiate x w)"
  unfolding initiate_post by (intro calm_post) simp_all

lemma calm_live: "calm v w \<Longrightarrow> s \<in> set (w_live_sessions v) \<Longrightarrow> s \<in> set (w_live_sessions w)"
  by (auto simp: calm_def)

lemma calm_allocated: "calm v w \<Longrightarrow> cl_addr c < w_next_addr v \<Longrightarrow> cl_addr c < w_next_addr w"
  by (auto simp: calm_def)

lemma calm_client_send: "calm v w \<Longrightarrow> cl_addr c < w_next_addr w \<Longrightarrow> calm v (client_send c m w)"
  unfolding client_send_post
  by (intro calm_post) (auto simp: added_def client_deliveries_def client_live_def client_open_socket)

lemma calm_send_object:
  assumes "calm v w" and "cl_addr c < w_next_addr w"
  shows "calm v (send_object_to_client b c frm payload w)"
proof -
  have "calm v (snd (draw_uuid b w))" using assms(1) quiet_basic(2) by (rule calm_quiet)
  then show ?thesis unfolding send_object_to_client_eq
    by (rule calm_post) (use assms(2) in \<open>auto simp: added_def client_deliveries_def client_live_def client_open_socket\<close>)
qed

lemma calm_sync_steps:
  assumes "calm v w" and "s \<in> set (w_live_sessions w)"
  shows "calm v (sync_sessions b s x w)" "calm v (sync_client b s c w)" "calm v (sync_subscription b s y w)"
  using calm_session_send [OF calm_quiet [OF assms(1) quiet_basic(2)]] assms
  by (simp_all add: sync_sessions_def sync_client_def sync_subscription_def Let_def case_prod_beta)

lemma calm_fold:
  assumes "\<And>x w. calm v w \<Longrightarrow> calm v (f x w)" and "calm v w"
  shows "calm v (fold f xs w)"
  using assms by (induction xs arbitrary: w) auto

lemma calm_sync:
  assumes "calm v w" and "s \<in> set (w_live_sessions v)"
  shows "calm v (sync b s r w)"
proof -
  have steps: "calm v (sync_sessions b s x u)" "calm v (sync_client b s c u)" "calm v (sync_subscription b s y u)"
    if "calm v u" for x c y u
    using calm_sync_steps [OF that calm_live [OF that assms(2)]] by simp_all
  show ?thesis
    unfolding sync_def Let_def
    by (intro calm_fold [of v "sync_subscription b s"] calm_fold [of v "sync_client b s"]
        steps) (simp_all add: assms steps calm_fold)
qed

end
