(* ===== verification/Calm_Handlers.thy ===== *)
theory Calm_Handlers
  imports Calm
begin

text \<open>
  The handlers, the kernel and the callbacks of the connections are calm: whatever a
  message makes a node do, it only adds operations on objects that exist and leaves every write
  queue to its own callbacks. In particular all of them keep the node's invariant.
\<close>

abbreviation calming :: "'a eff_w \<Rightarrow> bool" where
  "calming m \<equiv> (\<forall>v. keeps (calm v) m)"

named_theorems calm_rules \<open>rules that build a proof of calmness\<close>

lemma calming_modify [calm_rules]: "gentle f \<Longrightarrow> calming (modify f)"
  by (simp add: keeps_modify gentle_def)

lemma calming_call [calm_rules]: "gentle (\<lambda>w. snd (f w)) \<Longrightarrow> calming (call f)"
  by (simp add: keeps_call gentle_def)

lemma calming_bind [calm_rules]: "calming m \<Longrightarrow> (\<And>a. calming (f a)) \<Longrightarrow> calming (bind_eff m f)"
  by (simp add: keeps_bind)

lemma calming_atoms [calm_rules]:
  "calming (return a)" "calming (lift_outcome r)" "calming (gets g)"
  by (simp_all add: keeps_intros)

lemma calming_if [calm_rules]: "calming m \<Longrightarrow> calming n \<Longrightarrow> calming (if c then m else n)"
  by simp

lemma calming_context [calm_rules]:
  "calming m \<Longrightarrow> calming n \<Longrightarrow> calming (case ctx of On_session \<Rightarrow> m | On_client \<Rightarrow> n)"
  by (cases ctx) auto

lemma calming_reply [calm_rules]: "calming (reply b rq m d)"
  unfolding reply_def by (intro calm_rules gentle_quiet quiet_basic)

lemma calming_invalid [calm_rules]: "calming (modify (mark_as_invalid b rq f a))"
  by (intro calm_rules gentle_quiet quiet_basic)

lemmas gentle_rules = gentle_sending gentle_forwarding gentle_registration

lemma calming_id_validator [calm_rules]: "calming (id_validator b rq p field)"
  by (auto simp: keeps_def id_validator_eq split: option.splits intro: calm_quiet quiet_basic)

context param_validator
begin

lemma validate_calm: "calming (validate b rq)"
proof (intro allI keepsI)
  fix v w assume "calm v w"
  then show "calm v (snd (validate b rq w))"
    by (cases rule: validate_cases [where b = b and rq = rq and w = w])
      (auto intro: calm_quiet quiet_basic)
qed

end

lemmas calming_validators [calm_rules] = broadcast_v.validate_calm is_subscribed_v.validate_calm
  publish_v.validate_calm register_v.validate_calm send_v.validate_calm session_v.validate_calm
  subscriptions_v.validate_calm

text \<open>Programs that go on from a state they have looked at.\<close>

lemma keeps_from:
  assumes "\<And>w. calm v w \<Longrightarrow> keeps (calm w) (m w)"
  shows "keeps (calm v) (\<lambda>w. m w w)"
proof (rule keepsI)
  fix w assume w: "calm v w"
  from keepsD [OF assms [OF w] calm_self [OF w]] have "calm w (snd (m w w))" .
  with w show "calm v (snd (m w w))" by (rule calm_trans)
qed

lemma keeps_gets_calm:
  assumes "\<And>w. calm v w \<Longrightarrow> keeps (calm w) (f (g w))"
  shows "keeps (calm v) (bind_eff (gets g) f)"
proof -
  have "bind_eff (gets g) f = (\<lambda>w. f (g w) w)" by (simp add: fun_eq_iff)
  with keeps_from [of v "\<lambda>w. f (g w)"] assms show ?thesis by simp
qed

lemma keeps_call_calm:
  assumes "\<And>w. calm v w \<Longrightarrow> calm v (snd (g w))"
    and "\<And>w. calm v w \<Longrightarrow> keeps (calm (snd (g w))) (f (fst (g w)))"
  shows "keeps (calm v) (bind_eff (call g) f)"
proof (rule keepsI)
  fix w assume w: "calm v w"
  from assms(1) [OF w] have g: "calm v (snd (g w))" .
  from keepsD [OF assms(2) [OF w] calm_self [OF g]]
  have "calm (snd (g w)) (snd (bind_eff (call g) f w))" by simp
  with g show "calm v (snd (bind_eff (call g) f w))" by (rule calm_trans)
qed

lemma keeps_modify_live:
  assumes "\<And>w. calm v w \<Longrightarrow> s \<in> set (w_live_sessions w) \<Longrightarrow> calm v (f w)"
    and "s \<in> set (w_live_sessions v)"
  shows "keeps (calm v) (modify f)"
  using assms calm_live by (intro keeps_modify) blast

lemma keeps_modify_allocated:
  assumes "\<And>w. calm v w \<Longrightarrow> cl_addr c < w_next_addr w \<Longrightarrow> calm v (f w)"
    and "cl_addr c < w_next_addr v"
  shows "keeps (calm v) (modify f)"
  using assms calm_allocated by (intro keeps_modify) blast

lemma calm_connect: "keeps (calm v) (connect_until_open b host service)"
  by (auto simp: keeps_def connect_until_open_def intro: calm_quiet quiet_basic split: option.splits)

lemma calm_run:
  "s \<in> set (w_live_sessions v) \<Longrightarrow> keeps (calm v) (modify (session_run s ctx))"
  unfolding session_run_def by (rule keeps_modify_live) (auto intro: calm_initiate)

lemma calm_add:
  "s \<in> set (w_live_sessions v) \<Longrightarrow> keeps (calm v) (call (add_session s))"
  by (auto intro!: keeps_call calm_add_session dest: calm_live)

section \<open>Handlers\<close>

lemma calming_simple_handlers:
  "calming (ping_handler b rq)"
  "calming (unimplemented_handler b rq)"
  "calming (is_subscribed_handler b rq)"
  "calming (subscribe_handler b rq)"
  "calming (unsubscribe_handler b rq)"
  "calming (broadcast_handler b rq)"
  "calming (publish_handler b rq)"
  "calming (leave_handler b rq)"
  unfolding handler_defs
  by (rule calm_rules gentle_rules)+

lemma calming_alloc_client:
  assumes "\<And>x. calming (f x)"
  shows "calming (bind_eff (call (new_client sid i)) (\<lambda>c. bind_eff (call (add_client c)) f))"
proof (intro allI keepsI)
  fix v w assume w: "calm v w"
  let ?c = "fst (new_client sid i w)" and ?w = "snd (new_client sid i w)"
  have "calm v (snd (add_client ?c ?w))"
    using calm_new_client [OF w] wf_new_client(2) [OF calm_wf [OF w]] by (rule calm_add_client)
  with assms show "calm v (snd (bind_eff (call (new_client sid i)) (\<lambda>c. bind_eff (call (add_client c)) f) w))"
    by (simp add: bind_eff_apply keeps_def)
qed

lemma calming_join: "calming (join_handler b rq)"
  unfolding join_handler_def
  by (rule calming_alloc_client calm_rules gentle_rules)+

lemma get_session_live: "wf_world w \<Longrightarrow> get_session i w = Some s \<Longrightarrow> s \<in> set (w_live_sessions w)"
  by (rule wf_registered_live) (force simp: get_session_def get_sessions_def dest: map_of_SomeD)+

lemma get_client_allocated: "wf_world w \<Longrightarrow> get_client i w = Some c \<Longrightarrow> cl_addr c < w_next_addr w"
  by (rule wf_client_allocated) (auto simp: get_client_def get_clients_def dest: mi_find_Some)

lemma calming_found_session:
  assumes "calming m" and "\<And>s v. s \<in> set (w_live_sessions v) \<Longrightarrow> keeps (calm v) (f s)"
  shows "calming (bind_eff (gets (get_session i)) (\<lambda>found. case found of None \<Rightarrow> m | Some s \<Rightarrow> f s))"
proof (intro allI keeps_gets_calm)
  fix v w assume w: "calm v w"
  show "keeps (calm w) (case get_session i w of None \<Rightarrow> m | Some s \<Rightarrow> f s)"
    using assms get_session_live [OF calm_wf [OF w]] by (cases "get_session i w") simp_all
qed

lemma calming_found_client:
  assumes "calming m" and "\<And>c v. cl_addr c < w_next_addr v \<Longrightarrow> keeps (calm v) (f c)"
  shows "calming (bind_eff (gets (get_client i)) (\<lambda>found. case found of None \<Rightarrow> m | Some c \<Rightarrow> f c))"
proof (intro allI keeps_gets_calm)
  fix v w assume w: "calm v w"
  show "keeps (calm w) (case get_client i w of None \<Rightarrow> m | Some c \<Rightarrow> f c)"
    using assms get_client_allocated [OF calm_wf [OF w]] by (cases "get_client i w") simp_all
qed

lemma keeps_calm_reply: "keeps (calm v) (reply b rq m d)"
  using calming_reply by blast

lemma keeps_quiet: "(\<And>w. quiet w (f w)) \<Longrightarrow> keeps (calm v) (modify f)"
  by (auto intro: keeps_modify calm_quiet)

lemma calming_register: "calming (register_handler b rq)"
proof -
  have "keeps (calm v) (bind_eff (modify (set_clients_port s cp)) (\<lambda>_.
          bind_eff (modify (set_sessions_port s sp)) (\<lambda>_.
          bind_eff (modify (mark_as_registered s)) (\<lambda>_.
          bind_eff (modify (sync b s registered)) (\<lambda>_. reply b rq ''ok'' [])))))"
    if "s \<in> set (w_live_sessions v)" for s v cp sp registered
    by (intro keeps_bind keeps_calm_reply keeps_quiet quiet_members keeps_modify calm_sync that)
  note found = this
  show ?thesis
    unfolding register_handler_def
    by (rule calming_found_session found calm_rules | assumption)+
qed

lemma calming_send: "calming (send_handler b rq)"
proof -
  have own: "keeps (calm v) (modify (send_object_to_client b c frm payload))"
    if "cl_addr c < w_next_addr v" for c v frm payload
    using that by (auto intro!: keeps_modify calm_send_object dest: calm_allocated)
  have peer: "calming (modify (send_to_session b sid frm to payload))" for sid frm to payload
    by (intro calm_rules gentle_rules)
  show ?thesis
    unfolding send_handler_def
    by (rule calming_found_client keeps_bind keeps_gets keeps_if own peer [rule_format]
        keeps_calm_reply calm_rules | assumption)+
qed

lemma calming_session: "calming (session_handler b rq)"
proof -
  have "calming (bind_eff (call (make_session b)) (\<lambda>s.
          bind_eff (connect_until_open b host service) (\<lambda>_.
          bind_eff (modify (set_clients_port s cp)) (\<lambda>_.
          bind_eff (modify (set_sessions_port s sp)) (\<lambda>_.
          bind_eff (modify (session_run s Remote)) (\<lambda>_.
          bind_eff (call (add_session s)) (\<lambda>_. reply b rq ''ok'' [])))))))" for host service cp sp
  proof (intro allI keeps_call_calm)
    fix v w assume w: "calm v w"
    show "calm v (snd (make_session b w))" by (rule calm_make_session [OF w])
    show "keeps (calm (snd (make_session b w)))
        (bind_eff (connect_until_open b host service) (\<lambda>_.
          bind_eff (modify (set_clients_port (fst (make_session b w)) cp)) (\<lambda>_.
          bind_eff (modify (set_sessions_port (fst (make_session b w)) sp)) (\<lambda>_.
          bind_eff (modify (session_run (fst (make_session b w)) Remote)) (\<lambda>_.
          bind_eff (call (add_session (fst (make_session b w)))) (\<lambda>_. reply b rq ''ok'' []))))))"
      by (intro keeps_bind calm_connect keeps_quiet quiet_members calm_run calm_add keeps_calm_reply
          calm_make_session(2) [OF w])
  qed
  note connected = this
  show ?thesis
    unfolding session_handler_def
    by (rule connected calm_rules)+
qed

lemma calming_dispatch: "calming (dispatch b action rq)"
  unfolding dispatch_def
  by (intro calming_if calming_simple_handlers calming_join calming_register calming_send calming_session
      calming_modify gentle_quiet quiet_basic)

lemma calming_kernel: "calming (kernel b data ctx i)"
  unfolding kernel_def kernel_rejected_def
  by (rule calming_dispatch calm_rules gentle_quiet quiet_basic)+

section \<open>Callbacks\<close>

lemma gentle_config:
  "gentle (\<lambda>w. w\<lparr>st_config := f (st_config w)\<rparr>)"
  by (rule gentle_registry) (simp_all add: wf_world_def wf_state_def)

lemma keeps_gentle_modify: "gentle f \<Longrightarrow> keeps (calm v) (modify f)"
  using calming_modify by blast

lemma keeps_gentle_call: "gentle (\<lambda>w. snd (f w)) \<Longrightarrow> keeps (calm v) (call f)"
  using calming_call by blast

lemma calm_session_on_run:
  "s \<in> set (w_live_sessions v) \<Longrightarrow> keeps (calm v) (modify (session_on_run s ctx))"
  unfolding session_on_run_def
  by (rule keeps_modify_live [where s = s]) (cases ctx; simp add: calm_initiate)+

lemma calm_session_do_read:
  "s \<in> set (w_live_sessions v) \<Longrightarrow> keeps (calm v) (modify (session_do_read s))"
  unfolding session_do_read_def by (rule keeps_modify_live [where s = s]) (simp_all add: calm_initiate)

lemma calm_sending_session:
  "s \<in> set (w_live_sessions v) \<Longrightarrow> keeps (calm v) (modify (session_send s m))"
  by (rule keeps_modify_live [where s = s]) (simp_all add: calm_session_send)

lemma calm_session_register:
  assumes "calm v w" and "s \<in> set (w_live_sessions w)"
  shows "calm v (session_register b s w)"
proof -
  have "calm v (snd (draw_uuid b w))" using assms(1) quiet_basic(2) by (rule calm_quiet)
  from gentleD [OF gentle_config this] assms(2)
  show ?thesis by (simp add: session_register_def case_prod_beta Let_def calm_session_send)
qed

lemma calm_session_on_accept:
  assumes "s \<in> set (w_live_sessions v)"
  shows "keeps (calm v) (session_on_accept b s ctx ec endpoint)"
proof -
  have "keeps (calm v) (modify (session_register b s))"
    using assms by (intro keeps_modify_live [OF calm_session_register])
  moreover have "keeps (calm v) (modify (set_host s host))" for host
    by (intro keeps_quiet quiet_members)
  ultimately show ?thesis
    unfolding session_on_accept_def
    by (intro keeps_if keeps_bind keeps_lift keeps_return keeps_gentle_call gentle_registration
        calm_session_do_read assms)
qed

lemma calm_unprocessable_session:
  "calm v w \<Longrightarrow> s \<in> set (w_live_sessions w) \<Longrightarrow> calm v (session_unprocessable b s t w)"
  using calm_session_send [OF calm_quiet [OF _ quiet_basic(3)]]
  by (simp add: session_unprocessable_def case_prod_beta Let_def read_clock_def)

lemma keeps_calm_kernel: "keeps (calm v) (kernel b data ctx i)"
  using calming_kernel by blast

lemma keeps_read_clock: "keeps (calm v) (call (read_clock b))"
  by (auto intro: keeps_call calm_quiet quiet_basic)

lemma calm_session_on_read:
  assumes "s \<in> set (w_live_sessions v)"
  shows "keeps (calm v) (session_on_read b s result)"
proof -
  note live = calm_session_do_read [OF assms] calm_sending_session [OF assms]
    keeps_modify_live [OF calm_unprocessable_session assms]
  have answer: "keeps (calm v) (case parsed of
      Some (JObject data) \<Rightarrow>
        bind_eff (kernel b data On_session (ses_id s)) (\<lambda>response.
        if \<not> is_ack response
        then modify (session_send s (serialize b (JObject (get_data response)))) else return ())
    | _ \<Rightarrow> modify (session_unprocessable b s t))" for parsed t
    by (cases parsed; (simp add: live)?; case_tac a; simp add: live keeps_bind keeps_calm_kernel keeps_return)
  have gone: "keeps (calm v) (bind_eff (call (remove_session (ses_id s))) (\<lambda>_. return ()))"
    by (intro keeps_bind keeps_gentle_call gentle_registration keeps_return)
  show ?thesis
  proof (cases result)
    case (Read_text stream)
    then show ?thesis unfolding session_on_read_def
      by (simp del: bind_eff_assoc) (intro keeps_bind keeps_read_clock answer live)
  qed (simp_all add: session_on_read_def gone)
qed

lemma client_live_mono: "calm v w \<Longrightarrow> client_live v c \<Longrightarrow> client_live w c"
  by (auto simp: calm_def client_live_def)

lemma keeps_modify_client:
  assumes "\<And>w. calm v w \<Longrightarrow> client_live w c \<Longrightarrow> calm v (f w)" and "client_live v c"
  shows "keeps (calm v) (modify f)"
  using assms client_live_mono by (intro keeps_modify) blast

lemma calm_sending_client:
  "client_live v c \<Longrightarrow> keeps (calm v) (modify (client_send c m))"
  by (rule keeps_modify_client [where c = c]) (simp_all add: calm_client_send client_live_def)

lemma calm_client_do_read:
  assumes "client_live v c"
  shows "keeps (calm v) (client_do_read c)"
proof -
  have "keeps (calm v) (modify (initiate (Client_read c)))"
    using assms by (intro keeps_modify_client [where c = c]) (simp_all add: calm_initiate)
  then show ?thesis unfolding client_do_read_def
    by (intro keeps_bind keeps_gets keeps_case_option keeps_lift)
qed

lemma client_do_read_returns:
  "client_live w c \<Longrightarrow> client_do_read c w = (Ok (), initiate (Client_read c) w)"
  by (auto simp: client_do_read_def client_live_def has_socket_def client_obj_of_def split: option.splits)

lemma keeps_client_disconnected: "keeps (calm v) (client_disconnected b c)"
  unfolding client_disconnected_def
  by (intro keeps_bind keeps_gentle_call gentle_rules keeps_return)

lemma client_live_clock [simp]:
  "client_live (snd (draw_uuid b w)) c = client_live w c"
  "client_live (snd (read_clock b w)) c = client_live w c"
  by (simp_all add: client_live_def) (simp add: read_clock_def)

lemma calm_client_welcome: "calm v w \<Longrightarrow> client_live w c \<Longrightarrow> calm v (client_welcome b c t w)"
  using calm_client_send [OF calm_quiet [OF calm_quiet [OF _ quiet_basic(3)] quiet_basic(2)]]
  by (simp add: client_welcome_def case_prod_beta Let_def client_live_def read_clock_def)

lemma calm_client_on_accept:
  assumes "client_live v c"
  shows "keeps (calm v) (client_on_accept b c t ec)"
proof -
  have "keeps (calm v) (modify (client_welcome b c t))"
    using assms by (intro keeps_modify_client [OF calm_client_welcome])
  then show ?thesis
    unfolding client_on_accept_def
    by (intro keeps_if keeps_client_disconnected keeps_bind calm_client_do_read assms)
qed

lemma calm_unprocessable_client:
  "calm v w \<Longrightarrow> client_live w c \<Longrightarrow> calm v (client_unprocessable b c t w)"
  using calm_client_send [OF calm_quiet [OF _ quiet_basic(3)]]
  by (simp add: client_unprocessable_def case_prod_beta Let_def client_live_def read_clock_def)

lemma calm_client_on_read:
  assumes "client_live v c"
  shows "keeps (calm v) (client_on_read b c result)"
proof -
  note live = calm_client_do_read [OF assms] calm_sending_client [OF assms]
    keeps_modify_client [OF calm_unprocessable_client assms]
  have answer: "keeps (calm v) (case parsed of
      Some (JObject data) \<Rightarrow>
        bind_eff (kernel b data On_client (cl_id c)) (\<lambda>response.
        modify (client_send c (serialize b (JObject (get_data response)))))
    | _ \<Rightarrow> modify (client_unprocessable b c t))" for parsed t
    by (cases parsed; (simp add: live)?; case_tac a; simp add: live keeps_bind keeps_calm_kernel)
  show ?thesis
  proof (cases result)
    case (Read_text stream)
    then show ?thesis unfolding client_on_read_def
      by simp (intro keeps_bind keeps_read_clock answer live)
  qed (simp_all add: client_on_read_def keeps_client_disconnected)
qed

end
