(* ===== verification/Node.thy ===== *)
theory Node
  imports Calm_Handlers
begin

text \<open>
  A running node as a step relation. A step takes one pending operation and runs its handler: a
  posted task (the posted tasks of one connection run in the order they were posted, since each
  connection has its own strand), the completion of an asynchronous operation, with whatever result the
  environment chooses, or the destruction of a session no one refers to. An exception that leaves a
  handler leaves \<^verbatim>\<open>io_context::run\<close> and ends the process (\<open>Crashed\<close>); a handler that never
  returns is \<open>Stuck\<close>. The labels record the messages that enter and leave the write
  queues, the texts read from a session or a client and the clients the listener makes.
\<close>

datatype node = Running world | Crashed exn | Stuck | Stopped world

text \<open>\<^verbatim>\<open>server::stop\<close> stops the event loop: no further handler runs.\<close>

definition server_stop :: "world \<Rightarrow> node" where
  "server_stop w = Stopped w"

declare server_stop_def [simp]

datatype event =
    Internal
  | Session_queued session string
  | Session_sent session string
  | Client_queued client string
  | Client_sent client string
  | Session_got session string
  | Client_got client string
  | Client_accepted client

definition settle :: "'a outcome \<times> world \<Rightarrow> node" where
  "settle r = (case r of (Ok _, w) \<Rightarrow> Running w | (Throw e, _) \<Rightarrow> Crashed e | (Hang, _) \<Rightarrow> Stuck)"

fun op_session :: "op \<Rightarrow> session option" where
  "op_session (Session_on_run s ctx) = Some s"
| "op_session (Session_accept s ctx) = Some s"
| "op_session (Session_handshake s host ctx) = Some s"
| "op_session (Session_read s) = Some s"
| "op_session (Session_on_send s m) = Some s"
| "op_session (Session_write s m) = Some s"
| "op_session _ = None"

fun posted_on_session :: "nat \<Rightarrow> op \<Rightarrow> bool" where
  "posted_on_session a (Session_on_run s ctx) = (ses_addr s = a)"
| "posted_on_session a (Session_on_send s m) = (ses_addr s = a)"
| "posted_on_session a _ = False"

fun posted_on_client :: "nat \<Rightarrow> op \<Rightarrow> bool" where
  "posted_on_client a (Client_on_send c m) = (cl_addr c = a)"
| "posted_on_client a _ = False"

definition set_session_open :: "bool \<Rightarrow> session \<Rightarrow> world \<Rightarrow> world" where
  "set_session_open x s w = update_session s (\<lambda>so. so\<lparr>so_open := x\<rparr>) w"

definition set_client_open :: "bool \<Rightarrow> client \<Rightarrow> world \<Rightarrow> world" where
  "set_client_open x c w = update_client c (\<lambda>co. co\<lparr>co_socket := map_option (\<lambda>_. x) (co_socket co)\<rparr>) w"

fun is_text :: "read_result \<Rightarrow> bool" where
  "is_text (Read_text s) = True"
| "is_text _ = False"

fun read_event :: "session \<Rightarrow> read_result \<Rightarrow> event" where
  "read_event s (Read_text m) = Session_got s m"
| "read_event s r = Internal"

fun client_read_event :: "client \<Rightarrow> read_result \<Rightarrow> event" where
  "client_read_event c (Read_text m) = Client_got c m"
| "client_read_event c r = Internal"

lemma read_event_iffs [simp]:
  "client_read_event c r = Client_got d m \<longleftrightarrow> c = d \<and> r = Read_text m"
  "Client_got d m = client_read_event c r \<longleftrightarrow> c = d \<and> r = Read_text m"
  "Session_queued s m \<noteq> client_read_event c r" "Session_got s m \<noteq> client_read_event c r"
  "Client_got d m \<noteq> read_event s r" "Session_queued s m \<noteq> read_event t r"
  by (cases r; auto)+

definition after_session_read :: "session \<Rightarrow> read_result \<Rightarrow> world \<Rightarrow> world" where
  "after_session_read s r w = (if is_text r then w else set_session_open False s w)"

definition after_client_read :: "client \<Rightarrow> read_result \<Rightarrow> world \<Rightarrow> world" where
  "after_client_read c r w = (if is_text r then w else set_client_open False c w)"

definition type_input :: "string \<Rightarrow> world \<Rightarrow> world" where
  "type_input s w = w\<lparr>w_input := w_input w @ s\<rparr>"

definition line_length :: "string \<Rightarrow> nat" where
  "line_length s = Suc (length (takeWhile (\<lambda>c. c \<noteq> CHR 0x0A) s))"

text \<open>\<open>without xs ys w\<close>: the operation between \<open>xs\<close> and \<open>ys\<close> has left the pending ones.\<close>

definition without :: "op list \<Rightarrow> op list \<Rightarrow> world \<Rightarrow> world" where
  "without xs ys w = w\<lparr>w_pending := xs @ ys\<rparr>"

text \<open>The client the listener makes.\<close>

definition accepted_client :: "boost \<Rightarrow> world \<Rightarrow> client" where
  "accepted_client b w = \<lparr>cl_addr = w_next_addr w, cl_id = random_uuid b (w_random w), cl_session_id = st_id w,
     cl_is_local = True\<rparr>"

inductive node_step :: "boost \<Rightarrow> world \<Rightarrow> event \<Rightarrow> node \<Rightarrow> bool" for b where
  run_session:
    "w_pending w = xs @ Session_on_run s ctx # ys \<Longrightarrow> \<not> list_ex (posted_on_session (ses_addr s)) xs \<Longrightarrow>
     node_step b w Internal (Running (session_on_run s ctx (without xs ys w)))"
| accept_session:
    "w_pending w = xs @ Session_accept s ctx # ys \<Longrightarrow>
     node_step b w Internal
       (settle (session_on_accept b s ctx ec endpoint (set_session_open (\<not> ec) s (without xs ys w))))"
| handshake_session:
    "w_pending w = xs @ Session_handshake s host ctx # ys \<Longrightarrow>
     node_step b w Internal
       (settle (session_on_accept b s ctx ec endpoint (set_session_open (\<not> ec) s (without xs ys w))))"
| read_session:
    "w_pending w = xs @ Session_read s # ys \<Longrightarrow>
     node_step b w (read_event s r) (settle (session_on_read b s r (after_session_read s r (without xs ys w))))"
| send_session:
    "w_pending w = xs @ Session_on_send s m # ys \<Longrightarrow> \<not> list_ex (posted_on_session (ses_addr s)) xs \<Longrightarrow>
     node_step b w (Session_queued s m) (Running (session_on_send s m (without xs ys w)))"
| write_session:
    "w_pending w = xs @ Session_write s m # ys \<Longrightarrow>
     node_step b w (if ec then Internal else Session_sent s m)
       (settle (session_on_write s ec (without xs ys w)))"
| accept_client:
    "w_pending w = xs @ Client_accept c run_at # ys \<Longrightarrow>
     node_step b w Internal
       (settle (client_on_accept b c run_at ec (set_client_open (\<not> ec) c (without xs ys w))))"
| read_client:
    "w_pending w = xs @ Client_read c # ys \<Longrightarrow>
     node_step b w (client_read_event c r) (settle (client_on_read b c r (after_client_read c r (without xs ys w))))"
| send_client:
    "w_pending w = xs @ Client_on_send c m # ys \<Longrightarrow> \<not> list_ex (posted_on_client (cl_addr c)) xs \<Longrightarrow>
     node_step b w (Client_queued c m) (Running (client_on_send c m (without xs ys w)))"
| write_client:
    "w_pending w = xs @ Client_write c m # ys \<Longrightarrow>
     node_step b w (if ec then Internal else Client_sent c m)
       (settle (client_on_write c ec (without xs ys w)))"
| listen_session:
    "w_pending w = xs @ Listener_accept_session # ys \<Longrightarrow>
     node_step b w Internal (settle (session_listener_on_accept b ec (without xs ys w)))"
| listen_client:
    "w_pending w = xs @ Listener_accept_client # ys \<Longrightarrow>
     node_step b w (if ec then Internal else Client_accepted (accepted_client b w))
       (settle (client_listener_on_accept b ec (without xs ys w)))"
| console_line:
    "w_pending w = xs @ Repl_read # ys \<Longrightarrow> CHR 0x0A \<in> set (w_input w @ typed) \<Longrightarrow>
     node_step b w Internal
       (Running (repl_read b No_error (line_length (w_input w @ typed)) (type_input typed (without xs ys w))))"
| console_error:
    "w_pending w = xs @ Repl_read # ys \<Longrightarrow> err \<noteq> No_error \<Longrightarrow>
     node_step b w Internal (Running (repl_read b err bytes (type_input typed (without xs ys w))))"
| console_written:
    "w_pending w = xs @ Repl_write m # ys \<Longrightarrow>
     node_step b w Internal (Running (repl_write err (without xs ys w)))"
| session_closes:
    "node_step b w Internal (Running (set_session_open False s w))"
| client_closes:
    "node_step b w Internal (Running (set_client_open False c w))"
| release_session:
    "s \<in> set (w_live_sessions w) \<Longrightarrow> s \<notin> snd ` set (st_sessions w) \<Longrightarrow>
     (\<And>x. x \<in> set (w_pending w) \<Longrightarrow> op_session x \<noteq> Some s) \<Longrightarrow>
     node_step b w Internal (Running (destroy_session s w))"
| stop_server:
    "node_step b w Internal (server_stop w)"

inductive node_run :: "boost \<Rightarrow> world \<Rightarrow> event list \<Rightarrow> world \<Rightarrow> bool" for b where
  stop: "node_run b w [] w"
| step: "node_run b w es v \<Longrightarrow> node_step b v e (Running u) \<Longrightarrow> node_run b w (es @ [e]) u"

text \<open>What a node can reach once \<^verbatim>\<open>server::start\<close> has set it up on a configuration.\<close>

definition reaches :: "boost \<Rightarrow> config \<Rightarrow> event list \<Rightarrow> world \<Rightarrow> bool" where
  "reaches b config es w \<longleftrightarrow>
     (\<exists>n v. server_start b (boot b config) = (Ok n, v) \<and> node_run b v es w)"

lemma settle_Running: "settle r = Running w \<longleftrightarrow> (\<exists>a. r = (Ok a, w))"
  by (simp add: settle_def split: prod.splits outcome.splits)

lemma settle_Crashed: "settle r = Crashed e \<longleftrightarrow> fst r = Throw e"
  by (simp add: settle_def split: prod.splits outcome.splits)

section \<open>The invariant\<close>

definition node_ok :: "world \<Rightarrow> bool" where
  "node_ok w \<longleftrightarrow> wf_world w \<and> fresh_queues w \<and> (\<forall>x\<in>set (w_pending w). op_live w x) \<and>
     (\<forall>a. ses.orderly a w) \<and> (\<forall>a. cli.orderly a w)"

lemma writes_none:
  "added w xs \<Longrightarrow> session_writes a xs = []" "added w xs \<Longrightarrow> client_writes a xs = []"
proof -
  show "session_writes a xs = []" if "added w xs"
    using that
  proof (induction xs)
    case (Cons x xs)
    then show ?case by (cases x) auto
  qed simp
  show "client_writes a xs = []" if "added w xs"
    using that
  proof (induction xs)
    case (Cons x xs)
    then show ?case by (cases x) auto
  qed simp
qed

lemma queues_eqD:
  "queues w = queues v \<Longrightarrow> session_queue_at a w = session_queue_at a v"
  "queues w = queues v \<Longrightarrow> client_queue_at a w = client_queue_at a v"
  by (simp_all add: queues_def fun_eq_iff)

lemma node_ok_calm:
  assumes v: "node_ok v" and c: "calm v w"
  shows "node_ok w"
proof -
  obtain xs where xs: "w_pending w = w_pending v @ xs" "added w xs"
    using c by (auto simp: calm_def)
  have "op_live w x" if "x \<in> set (w_pending w)" for x
  proof (cases "x \<in> set xs")
    case True
    with xs(2) show ?thesis by (simp add: added_def)
  next
    case False
    with that xs(1) v have "op_live v x" by (auto simp: node_ok_def)
    then show ?thesis by (rule op_live_mono) (use c in \<open>auto simp: calm_def\<close>)
  qed
  with v c xs show ?thesis
    by (simp add: node_ok_def ses.orderly_def cli.orderly_def calm_def writes_none queues_eqD [of w v])
qed

lemma node_ok_self: "node_ok w \<Longrightarrow> calm w w"
  by (simp add: node_ok_def calm_refl)

lemma without_frame [simp]:
  "w_pending (without xs ys w) = xs @ ys"
  "w_live_sessions (without xs ys w) = w_live_sessions w"
  "w_next_addr (without xs ys w) = w_next_addr w"
  "core (without xs ys w) = core w"
  "queues (without xs ys w) = queues w"
  "has_socket (without xs ys w) = has_socket w"
  "session_queue_at a (without xs ys w) = session_queue_at a w"
  "client_queue_at a (without xs ys w) = client_queue_at a w"
  "op_live (without xs ys w) x = op_live w x"
  by (simp_all add: without_def queues_def session_queue_at_def client_queue_at_def has_socket_def fun_eq_iff)
    (cases x; simp add: client_live_def has_socket_def)

lemma node_ok_without:
  assumes w: "node_ok w" and p: "w_pending w = xs @ x # ys" and x: "\<not> is_write x"
  shows "node_ok (without xs ys w)"
proof -
  have "wf_world (without xs ys w)" using w by (auto simp: node_ok_def intro: wf_world_core)
  moreover have "fresh_queues (without xs ys w)" using w by (simp add: node_ok_def fresh_queues_def)
  moreover have "session_write_of a x = []" "client_write_of a x = []" for a
    using x by (cases x; simp)+
  ultimately show ?thesis
    using w p by (auto simp: node_ok_def ses.orderly_def cli.orderly_def)
qed

end
