(* ===== verification/Node_Facts.thy ===== *)
theory Node_Facts
  imports Node
begin

text \<open>
  The invariant of a running node: every step of \<open>node_step\<close> keeps \<open>node_ok\<close> and moves each
  write queue by its label only (\<open>step_good\<close>). Most steps are calm; the posted sends and the
  completed writes are the steps of the \<open>write_queue\<close> contract, and the release of a session is
  treated on its own.
\<close>

section \<open>Calm steps\<close>

lemma calm_set_session_open:
  assumes "calm v w"
  shows "calm v (set_session_open x s w)"
  using assms unfolding set_session_open_def by (rule calm_quiet) (simp add: quiet_update_session)

lemma calm_set_client_open:
  assumes "calm v w"
  shows "calm v (set_client_open x c w)"
proof (rule calm_quiet [OF assms])
  let ?f = "\<lambda>co. co\<lparr>co_socket := map_option (\<lambda>_. x) (co_socket co)\<rparr>"
  have "client_queue_at a (update_client c ?f w) = client_queue_at a w"
    "session_queue_at a (update_client c ?f w) = session_queue_at a w"
    "has_socket (update_client c ?f w) a = has_socket w a" for a
    by (simp_all add: client_queue_at_def session_queue_at_def has_socket_def update_client_def)
  then show "quiet w (set_client_open x c w)"
    by (simp add: quiet_def queues_def set_client_open_def fun_eq_iff) (simp add: update_client_def)
qed

lemma core_console [simp]:
  "core (w\<lparr>w_input := t\<rparr>) = core w"
  "core (w\<lparr>w_output := l\<rparr>) = core w"
  by (simp_all add: core_def state.truncate_def)

lemma calm_print: "calm v w \<Longrightarrow> calm v (print_text m w)"
  by (rule calm_registry) (simp_all add: print_text_def wf_world_core [OF calm_wf])

lemma calm_console: "calm v w \<Longrightarrow> calm v (w\<lparr>w_input := t\<rparr>)"
  by (rule calm_registry) (simp_all add: wf_world_core [OF calm_wf])

lemma calm_repl_read:
  assumes "calm v w"
  shows "calm v (repl_read b err n w)"
proof (cases err)
  case No_error
  have c: "calm v (w\<lparr>w_input := drop n (w_input w)\<rparr>)" using assms by (rule calm_console)
  then show ?thesis
    by (simp add: repl_read_def No_error Let_def calm_initiate calm_fold calm_print)
qed (simp_all add: repl_read_def calm_print assms)

lemma calm_repl_write: "calm v w \<Longrightarrow> calm v (repl_write err w)"
  by (cases err) (simp_all add: repl_write_def repl_start_def calm_print calm_initiate)

lemma keeps_initiate:
  "(\<And>w. op_live w x) \<Longrightarrow> \<not> is_write x \<Longrightarrow> keeps (calm v) (modify (initiate x))"
  by (intro keeps_modify calm_initiate)

lemma calm_listener_session: "keeps (calm v) (session_listener_on_accept b ec)"
proof -
  have "keeps (calm v) (bind_eff (call (make_session b)) (\<lambda>s.
      bind_eff (call (add_session s)) (\<lambda>_. modify (session_run s Local))))"
  proof (rule keeps_call_calm)
    fix w assume w: "calm v w"
    show "calm v (snd (make_session b w))" by (rule calm_make_session [OF w])
    show "keeps (calm (snd (make_session b w)))
        (bind_eff (call (add_session (fst (make_session b w))))
          (\<lambda>_. modify (session_run (fst (make_session b w)) Local)))"
      by (intro keeps_bind calm_add calm_run calm_make_session(2) [OF w])
  qed
  then show ?thesis
    unfolding session_listener_on_accept_def session_listener_do_accept_def
    by (rule keeps_bind [OF keeps_if [OF keeps_return] keeps_initiate]) simp_all
qed

lemma calm_new_local_client:
  assumes "calm v w"
  shows "calm v (snd (make_client b sid w))"
  using calm_new_client [OF calm_quiet [OF assms quiet_basic(2)]]
  by (simp add: make_client_def case_prod_beta)

lemma set_socket_frame [simp]:
  "core (set_socket c w) = core w"
  "has_socket (set_socket c w) a \<longleftrightarrow> a = cl_addr c \<or> has_socket w a"
  "w_pending (set_socket c w) = w_pending w"
  "queues (set_socket c w) = queues w"
  by (simp, auto simp: set_socket_def update_client_def has_socket_def queues_def
      session_queue_at_def client_queue_at_def fun_eq_iff)

lemma fresh_client_core: "core w' = core w \<Longrightarrow> fresh_client w c \<Longrightarrow> fresh_client w' c"
  by (auto simp: core_def fresh_client_def dest: state_fields_of_truncate)

lemma calm_set_socket:
  assumes "calm v w" and "cl_addr c < w_next_addr w"
  shows "calm v (set_socket c w)"
proof -
  have f: "w_next_addr (set_socket c w) = w_next_addr w" "w_live_sessions (set_socket c w) = w_live_sessions w"
    using core_fields [OF set_socket_frame(1)] by simp_all
  have "wf_world (set_socket c w)" using calm_wf [OF assms(1)] by (rule wf_world_core) simp
  moreover have "fresh_queues (set_socket c w)"
    using assms calm_self [OF assms(1)] f
    by (intro fresh_queues_cong [of "set_socket c w" w]) (auto simp: calm_def)
  ultimately have "calm w (set_socket c w)"
    using f by (auto simp: calm_def)
  with assms(1) show ?thesis by (rule calm_trans)
qed

lemma calm_client_run: "calm v w \<Longrightarrow> client_live w c \<Longrightarrow> calm v (client_run b c w)"
  using calm_quiet [OF _ quiet_basic(3)] calm_initiate [of v "snd (read_clock b w)"]
  by (auto simp: client_run_def case_prod_beta Let_def split: option.splits)

lemma calm_listener_client: "keeps (calm v) (client_listener_on_accept b ec)"
proof -
  have "keeps (calm v) (bind_eff (gets get_id) (\<lambda>sid.
          bind_eff (call (make_client b sid)) (\<lambda>c.
          bind_eff (modify (set_socket c)) (\<lambda>_.
          bind_eff (call (add_client c)) (\<lambda>_.
          bind_eff (call (join_to_sessions b (cl_id c))) (\<lambda>_.
          modify (client_run b c)))))))"
  proof (rule keepsI)
    fix w assume w: "calm v w"
    let ?c = "fst (make_client b (get_id w) w)" and ?u = "snd (make_client b (get_id w) w)"
    let ?x = "set_socket ?c ?u"
    let ?y = "snd (add_client ?c ?x)"
    let ?z = "snd (join_to_sessions b (cl_id ?c) ?y)"
    have fresh: "fresh_client ?u ?c" by (rule wf_make_client [OF calm_wf [OF w]])
    have u: "calm v ?u" by (rule calm_new_local_client [OF w])
    have x: "calm v ?x" using fresh by (intro calm_set_socket u) (simp add: fresh_client_def)
    have y: "calm v ?y" using fresh by (intro calm_add_client x fresh_client_core [OF set_socket_frame(1)])
    have z: "calm ?x ?z"
      using fresh calm_self [OF x]
      by (intro gentleD [OF gentle_sending(5)] calm_add_client fresh_client_core [OF set_socket_frame(1)])
    have "client_live ?x ?c"
      using fresh core_fields [OF set_socket_frame(1) [of ?c ?u]]
      by (simp add: client_live_def fresh_client_def)
    then have "client_live ?z ?c" by (rule client_live_mono [OF z])
    then have "calm v (client_run b ?c ?z)"
      by (intro calm_client_run gentleD [OF gentle_sending(5)] y)
    then show "calm v (snd (bind_eff (gets get_id) (\<lambda>sid.
          bind_eff (call (make_client b sid)) (\<lambda>c.
          bind_eff (modify (set_socket c)) (\<lambda>_.
          bind_eff (call (add_client c)) (\<lambda>_.
          bind_eff (call (join_to_sessions b (cl_id c))) (\<lambda>_.
          modify (client_run b c)))))) w))"
      by (simp add: bind_eff_apply)
  qed
  then show ?thesis
    unfolding client_listener_on_accept_def client_listener_do_accept_def
    by (rule keeps_bind [OF keeps_if [OF keeps_return] keeps_initiate]) simp_all
qed

section \<open>Steps\<close>

text \<open>What a label says of the queue at an address.\<close>

fun queued_at :: "nat \<Rightarrow> event \<Rightarrow> string list" where
  "queued_at a (Session_queued s m) = (if ses_addr s = a then [m] else [])"
| "queued_at a (Client_queued c m) = []"
| "queued_at a _ = []"

fun sent_at :: "nat \<Rightarrow> event \<Rightarrow> string list" where
  "sent_at a (Session_sent s m) = (if ses_addr s = a then [m] else [])"
| "sent_at a _ = []"

fun client_queued_at :: "nat \<Rightarrow> event \<Rightarrow> string list" where
  "client_queued_at a (Client_queued c m) = (if cl_addr c = a then [m] else [])"
| "client_queued_at a _ = []"

fun client_sent_at :: "nat \<Rightarrow> event \<Rightarrow> string list" where
  "client_sent_at a (Client_sent c m) = (if cl_addr c = a then [m] else [])"
| "client_sent_at a _ = []"

definition moves :: "event \<Rightarrow> world \<Rightarrow> world \<Rightarrow> bool" where
  "moves e w u \<longleftrightarrow>
     (\<forall>a. session_queue_at a w @ queued_at a e = sent_at a e @ session_queue_at a u) \<and>
     (\<forall>a. client_queue_at a w @ client_queued_at a e = client_sent_at a e @ client_queue_at a u)"

definition good_step :: "world \<Rightarrow> event \<Rightarrow> node \<Rightarrow> bool" where
  "good_step w e n \<longleftrightarrow> (\<forall>u. n = Running u \<longrightarrow> node_ok u \<and> moves e w u)"

lemma good_calm:
  assumes "node_ok w" and "w_pending w = xs @ x # ys" and "\<not> is_write x"
    and "\<And>u. n = Running u \<Longrightarrow> calm (without xs ys w) u"
  shows "good_step w Internal n"
proof -
  have "node_ok u \<and> moves Internal w u" if "n = Running u" for u
  proof
    have c: "calm (without xs ys w) u" using assms(4) that by blast
    with node_ok_without [OF assms(1-3)] show "node_ok u" by (rule node_ok_calm)
    have "queues u = queues w" using c by (simp add: calm_def)
    then show "moves Internal w u" by (simp add: moves_def queues_eqD [of u w])
  qed
  then show ?thesis by (simp add: good_step_def)
qed

lemma good_read_event:
  "good_step w (read_event s r) n \<longleftrightarrow> good_step w Internal n"
  "good_step w (client_read_event c r) n \<longleftrightarrow> good_step w Internal n"
  by (cases r; simp add: good_step_def moves_def)+

lemma good_accept_event: "good_step w (if ec then Internal else Client_accepted c) n \<longleftrightarrow> good_step w Internal n"
  by (simp add: good_step_def moves_def)

lemma good_keeps:
  assumes "node_ok w" and "w_pending w = xs @ x # ys" and "\<not> is_write x"
    and "keeps (calm (without xs ys w)) m" and "calm (without xs ys w) v"
  shows "good_step w Internal (settle (m v))"
proof (rule good_calm [OF assms(1-3)])
  fix u assume "settle (m v) = Running u"
  then obtain a where "m v = (Ok a, u)" by (auto simp: settle_Running)
  with keepsD [OF assms(4,5)] show "calm (without xs ys w) u" by simp
qed

lemma without_calm:
  "node_ok w \<Longrightarrow> w_pending w = xs @ x # ys \<Longrightarrow> \<not> is_write x \<Longrightarrow> calm (without xs ys w) (without xs ys w)"
  by (simp add: node_ok_self node_ok_without)

lemma pending_live: "node_ok w \<Longrightarrow> w_pending w = xs @ x # ys \<Longrightarrow> op_live w x"
  by (simp add: node_ok_def)

lemma client_live_without [simp]: "client_live (without xs ys w) c = client_live w c"
  by (simp add: client_live_def)

lemma node_ok_send_session:
  assumes w: "node_ok w" and live: "s \<in> set (w_live_sessions w)"
  shows "node_ok (session_on_send s m w)" and "moves (Session_queued s m) w (session_on_send s m w)"
proof -
  let ?u = "session_on_send s m w"
  have core: "core ?u = core w" "has_socket ?u = has_socket w" "client_queue_at a ?u = client_queue_at a w" for a
    by (auto simp: session_on_send_def Let_def has_socket_def client_queue_at_def update_session_def initiate_def fun_eq_iff
        core_def state.truncate_def)
  note f = core_fields [OF core(1)]
  have wf: "wf_world ?u" using w core(1) by (auto simp: node_ok_def intro: wf_world_core)
  have alloc: "ses_addr s < w_next_addr w" using w live by (auto simp: node_ok_def wf_world_def)
  have fresh: "fresh_queues ?u"
    using w alloc f core by (auto simp: fresh_queues_def node_ok_def ses.send_queue)
  have ops: "op_live ?u x" if "x \<in> set (w_pending ?u)" for x
  proof -
    have "op_live w x" using that w live by (auto simp: ses.send_pending node_ok_def split: if_splits)
    then show ?thesis by (rule op_live_mono) (use f core in auto)
  qed
  have "client_writes a (w_pending ?u) = client_writes a (w_pending w)" for a
    by (simp add: ses.send_pending)
  then have "cli.orderly a ?u" for a using w core by (simp add: node_ok_def cli.orderly_def)
  with wf fresh ops w show "node_ok ?u" by (simp add: node_ok_def ses.send_orderly)
  show "moves (Session_queued s m) w ?u" by (auto simp: moves_def ses.send_queue core)
qed

lemma node_ok_send_client:
  assumes w: "node_ok w" and live: "client_live w c"
  shows "node_ok (client_on_send c m w)" and "moves (Client_queued c m) w (client_on_send c m w)"
proof -
  let ?u = "client_on_send c m w"
  have core: "core ?u = core w" "has_socket ?u = has_socket w" "session_queue_at a ?u = session_queue_at a w" for a
    by (auto simp: client_on_send_def Let_def has_socket_def session_queue_at_def update_client_def initiate_def fun_eq_iff
        core_def state.truncate_def split: option.splits)
  note f = core_fields [OF core(1)]
  have wf: "wf_world ?u" using w core(1) by (auto simp: node_ok_def intro: wf_world_core)
  have alloc: "cl_addr c < w_next_addr w" using live by (simp add: client_live_def)
  have fresh: "fresh_queues ?u"
    using w alloc f core by (auto simp: fresh_queues_def node_ok_def cli.send_queue)
  have ops: "op_live ?u x" if "x \<in> set (w_pending ?u)" for x
  proof -
    have "op_live w x" using that w live by (auto simp: cli.send_pending node_ok_def split: if_splits)
    then show ?thesis by (rule op_live_mono) (use f core in auto)
  qed
  have "session_writes a (w_pending ?u) = session_writes a (w_pending w)" for a
    by (simp add: cli.send_pending)
  then have "ses.orderly a ?u" for a using w core by (simp add: node_ok_def ses.orderly_def)
  with wf fresh ops w show "node_ok ?u" by (simp add: node_ok_def cli.send_orderly)
  show "moves (Client_queued c m) w ?u" by (auto simp: moves_def cli.send_queue core)
qed

lemma good_write_session:
  assumes w: "node_ok w" and p: "w_pending w = xs @ Session_write s m # ys"
  shows "good_step w (if ec then Internal else Session_sent s m) (settle (session_on_write s ec (without xs ys w)))"
    and "fst (session_on_write s ec (without xs ys w)) = Ok ()"
proof -
  let ?u = "snd (session_on_write s ec (without xs ys w))"
  have c: "ses.completing s m xs ys w" using w p by (simp add: ses.completing_def node_ok_def)
  note q = ses.completing_writes [OF c] and eqs = ses.complete_queue [OF c, folded without_def]
    ses.complete_pending [OF c, folded without_def]
  show ok: "fst (session_on_write s ec (without xs ys w)) = Ok ()"
    using ses.complete_returns [OF c] by (simp add: without_def)
  have core: "core ?u = core w" "has_socket ?u = has_socket w" "client_queue_at a ?u = client_queue_at a w" for a
    using q by (auto simp: session_on_write_def bind_eff_apply session_queue_eq without_def
        core_def state.truncate_def device_defs has_socket_def client_queue_at_def fun_eq_iff)
  note f = core_fields [OF core(1)]
  have "wf_world ?u" using w core(1) by (auto simp: node_ok_def intro: wf_world_core)
  moreover have "fresh_queues ?u"
    using w f core by (auto simp: fresh_queues_def node_ok_def eqs)
  moreover have "op_live ?u x" if "x \<in> set (w_pending ?u)" for x
  proof -
    have "op_live w x"
      using that w p pending_live [OF w p] by (auto simp: eqs node_ok_def split: if_splits)
    then show ?thesis by (rule op_live_mono) (use f core in auto)
  qed
  moreover have "ses.orderly a ?u" for a
    using ses.complete_orderly [OF c, of a ec] w by (simp add: node_ok_def without_def)
  moreover have "cli.orderly a ?u" for a
    using w p core by (simp add: node_ok_def cli.orderly_def eqs)
  moreover have "moves (if ec then Internal else Session_sent s m) w ?u"
    using q by (auto simp: moves_def eqs core)
  ultimately have "node_ok ?u \<and> moves (if ec then Internal else Session_sent s m) w ?u"
    by (simp add: node_ok_def)
  then show "good_step w (if ec then Internal else Session_sent s m) (settle (session_on_write s ec (without xs ys w)))"
    by (auto simp: good_step_def settle_Running)
qed

lemma good_write_client:
  assumes w: "node_ok w" and p: "w_pending w = xs @ Client_write c m # ys"
  shows "good_step w (if ec then Internal else Client_sent c m) (settle (client_on_write c ec (without xs ys w)))"
    and "fst (client_on_write c ec (without xs ys w)) = Ok ()"
proof -
  let ?u = "snd (client_on_write c ec (without xs ys w))"
  have k: "cli.completing c m xs ys w" using w p by (simp add: cli.completing_def node_ok_def)
  note q = cli.completing_writes [OF k] and eqs = cli.complete_queue [OF k, folded without_def]
    cli.complete_pending [OF k, folded without_def]
  show ok: "fst (client_on_write c ec (without xs ys w)) = Ok ()"
    using cli.complete_returns [OF k] by (simp add: without_def)
  have core: "core ?u = core w" "has_socket ?u = has_socket w" "session_queue_at a ?u = session_queue_at a w" for a
    using q by (auto simp: client_on_write_def bind_eff_apply client_queue_eq without_def
        core_def state.truncate_def device_defs has_socket_def session_queue_at_def fun_eq_iff)
  note f = core_fields [OF core(1)]
  have "wf_world ?u" using w core(1) by (auto simp: node_ok_def intro: wf_world_core)
  moreover have "fresh_queues ?u"
    using w f core by (auto simp: fresh_queues_def node_ok_def eqs)
  moreover have "op_live ?u x" if "x \<in> set (w_pending ?u)" for x
  proof -
    have "op_live w x"
      using that w p pending_live [OF w p] by (auto simp: eqs node_ok_def split: if_splits)
    then show ?thesis by (rule op_live_mono) (use f core in auto)
  qed
  moreover have "cli.orderly a ?u" for a
    using cli.complete_orderly [OF k, of a ec] w by (simp add: node_ok_def without_def)
  moreover have "ses.orderly a ?u" for a
    using w p core by (simp add: node_ok_def ses.orderly_def eqs)
  moreover have "moves (if ec then Internal else Client_sent c m) w ?u"
    using q by (auto simp: moves_def eqs core)
  ultimately have "node_ok ?u \<and> moves (if ec then Internal else Client_sent c m) w ?u"
    by (simp add: node_ok_def)
  then show "good_step w (if ec then Internal else Client_sent c m) (settle (client_on_write c ec (without xs ys w)))"
    by (auto simp: good_step_def settle_Running)
qed

lemma good_release:
  assumes w: "node_ok w" and s: "s \<in> set (w_live_sessions w)" "s \<notin> snd ` set (st_sessions w)"
    and ops: "\<And>x. x \<in> set (w_pending w) \<Longrightarrow> op_session x \<noteq> Some s"
  shows "good_step w Internal (Running (destroy_session s w))"
proof -
  let ?v = "remove_state_of_session (ses_id s) w" and ?u = "destroy_session s w"
  have "node_ok ?v"
    using w gentleD [OF gentle_registration(5) node_ok_self [OF w]] by (rule node_ok_calm)
  moreover have f: "w_pending ?v = w_pending w" "w_next_addr ?v = w_next_addr w" "st_sessions ?v = st_sessions w"
    "w_live_sessions ?v = w_live_sessions w"
    by (simp_all add: remove_state_of_session_def Let_def)
  moreover have u: "?u = ?v\<lparr>w_live_sessions := remove1 s (w_live_sessions ?v)\<rparr>"
    by (simp add: destroy_session_def Let_def)
  have distinct: "distinct (w_live_sessions ?v)"
    using \<open>node_ok ?v\<close> by (simp add: node_ok_def wf_world_def distinct_map)
  have keep: "t \<in> set (w_live_sessions ?u)" if "t \<in> set (w_live_sessions ?v)" "t \<noteq> s" for t
    using that by (simp add: u)
  have "op_live ?u x" if x: "x \<in> set (w_pending ?u)" for x
  proof -
    have "x \<in> set (w_pending w)" using x by (simp add: u f)
    then have "op_session x \<noteq> Some s" and "op_live ?v x"
      using ops \<open>node_ok ?v\<close> by (auto simp: node_ok_def f)
    then show ?thesis
      using keep by (cases x) (auto simp: u client_live_def has_socket_def)
  qed
  moreover have "wf_world ?u"
    using \<open>node_ok ?v\<close> s f distinct
    by (auto simp: node_ok_def wf_world_def wf_state_def u distinct_map intro: inj_on_subset dest: set_mp [OF set_remove1_subset])
  moreover have q: "session_queue_at a ?u = session_queue_at a ?v" "client_queue_at a ?u = client_queue_at a ?v"
    "has_socket ?u a = has_socket ?v a" for a
    by (simp_all add: u session_queue_at_def client_queue_at_def has_socket_def)
  ultimately have "node_ok ?u"
    by (simp add: node_ok_def fresh_queues_def ses.orderly_def cli.orderly_def) (simp add: u)
  moreover have "moves Internal w ?u"
    by (simp add: moves_def q)
      (simp add: remove_state_of_session_def Let_def session_queue_at_def client_queue_at_def)
  ultimately show ?thesis by (simp add: good_step_def)
qed

lemma calm_without_open:
  assumes "node_ok w" and "w_pending w = xs @ x # ys" and "\<not> is_write x"
  shows "calm (without xs ys w) (set_session_open y s (without xs ys w))"
    "calm (without xs ys w) (set_client_open y c (without xs ys w))"
    "calm (without xs ys w) (after_session_read s r (without xs ys w))"
    "calm (without xs ys w) (after_client_read c r (without xs ys w))"
    "calm (without xs ys w) (type_input typed (without xs ys w))"
  using without_calm [OF assms]
  by (simp_all add: calm_set_session_open calm_set_client_open after_session_read_def
      after_client_read_def type_input_def calm_console)

lemma good_quiet_environment:
  assumes "node_ok w" and "calm w u"
  shows "good_step w Internal (Running u)"
  using assms node_ok_calm [OF assms] queues_eqD [of u w]
  by (auto simp: good_step_def moves_def calm_def)

lemma good_posted_session:
  assumes w: "node_ok w" and p: "w_pending w = xs @ Session_on_send s m # ys"
  shows "good_step w (Session_queued s m) (Running (session_on_send s m (without xs ys w)))"
  using node_ok_send_session [OF node_ok_without [OF w p]] pending_live [OF w p]
  by (simp add: good_step_def moves_def)

lemma good_posted_client:
  assumes w: "node_ok w" and p: "w_pending w = xs @ Client_on_send c m # ys"
  shows "good_step w (Client_queued c m) (Running (client_on_send c m (without xs ys w)))"
  using node_ok_send_client [OF node_ok_without [OF w p]] pending_live [OF w p]
  by (simp add: good_step_def moves_def)

theorem step_good:
  assumes "node_step b w e n" and w: "node_ok w"
  shows "good_step w e n"
  using assms(1)
proof cases
  case (run_session xs s ctx ys)
  have "keeps (calm (without xs ys w)) (modify (session_on_run s ctx))"
    using pending_live [OF w run_session(3)] by (intro calm_session_on_run) simp
  from good_keeps [OF w run_session(3) _ this without_calm [OF w run_session(3)]] run_session
  show ?thesis by (simp add: settle_def)
next
  case (accept_session xs s ctx ys ec endpoint)
  note p = accept_session(3)
  show ?thesis unfolding accept_session(1,2)
    by (rule good_keeps [OF w p _ calm_session_on_accept calm_without_open(1) [OF w p]])
      (use pending_live [OF w p] in simp_all)
next
  case (handshake_session xs s host ctx ys ec endpoint)
  note p = handshake_session(3)
  show ?thesis unfolding handshake_session(1,2)
    by (rule good_keeps [OF w p _ calm_session_on_accept calm_without_open(1) [OF w p]])
      (use pending_live [OF w p] in simp_all)
next
  case (read_session xs s ys r)
  note p = read_session(3)
  show ?thesis unfolding read_session(1,2) good_read_event
    by (rule good_keeps [OF w p _ calm_session_on_read calm_without_open(3) [OF w p]])
      (use pending_live [OF w p] in simp_all)
next
  case (send_session xs s m ys)
  then show ?thesis using good_posted_session [OF w] by simp
next
  case (write_session xs s m ys ec)
  then show ?thesis using good_write_session(1) [OF w] by simp
next
  case (accept_client xs c run_at ys ec)
  note p = accept_client(3)
  show ?thesis unfolding accept_client(1,2)
    by (rule good_keeps [OF w p _ calm_client_on_accept calm_without_open(2) [OF w p]])
      (use pending_live [OF w p] in simp_all)
next
  case (read_client xs c ys r)
  note p = read_client(3)
  show ?thesis unfolding read_client(1,2) good_read_event
    by (rule good_keeps [OF w p _ calm_client_on_read calm_without_open(4) [OF w p]])
      (use pending_live [OF w p] in simp_all)
next
  case (send_client xs c m ys)
  then show ?thesis using good_posted_client [OF w] by simp
next
  case (write_client xs c m ys ec)
  then show ?thesis using good_write_client(1) [OF w] by simp
next
  case (listen_session xs ys ec)
  note p = listen_session(3)
  show ?thesis unfolding listen_session(1,2)
    by (rule good_keeps [OF w p _ calm_listener_session without_calm [OF w p]]) simp_all
next
  case (listen_client xs ys ec)
  note p = listen_client(3)
  show ?thesis unfolding listen_client(1,2) good_accept_event
    by (rule good_keeps [OF w p _ calm_listener_client without_calm [OF w p]]) simp_all
next
  case (console_line xs ys typed)
  note p = console_line(3)
  have "calm (without xs ys w) (repl_read b No_error n (type_input typed (without xs ys w)))" for n
    using calm_without_open(5) [OF w p] by (intro calm_repl_read) simp
  then show ?thesis unfolding console_line(1,2) by (intro good_calm [OF w p]) auto
next
  case (console_error xs ys err bytes typed)
  note p = console_error(3)
  have "calm (without xs ys w) (repl_read b err bytes (type_input typed (without xs ys w)))"
    using calm_without_open(5) [OF w p] by (intro calm_repl_read) simp
  then show ?thesis unfolding console_error(1,2) by (intro good_calm [OF w p]) simp_all
next
  case (console_written xs m ys err)
  note p = console_written(3)
  have "calm (without xs ys w) (repl_write err (without xs ys w))"
    using without_calm [OF w p] by (intro calm_repl_write) simp
  then show ?thesis unfolding console_written(1,2) by (intro good_calm [OF w p]) simp_all
next
  case (session_closes s)
  then show ?thesis
    using good_quiet_environment [OF w] calm_set_session_open [OF node_ok_self [OF w]] by simp
next
  case (client_closes c)
  then show ?thesis
    using good_quiet_environment [OF w] calm_set_client_open [OF node_ok_self [OF w]] by simp
next
  case (release_session s)
  then show ?thesis using good_release [OF w] by simp
next
  case stop_server
  then show ?thesis by (simp add: server_stop_def good_step_def)
qed

end
