(* ===== verification/Runs.thy ===== *)
theory Runs
  imports Node_Facts
begin

text \<open>
  Runs of a node: the start-up establishes the invariant and every run keeps it, the queues are
  first-in first-out along a run, a crash has one of three causes, and a queue that is being written
  can be written to its end.
\<close>

section \<open>Start-up\<close>

lemma boot_ok: "node_ok (boot b config)"
  by (simp add: node_ok_def boot_def state.extend_def world.fields_def make_state_def wf_world_def
      wf_state_def conflict_free_def fresh_queues_def session_queue_at_def client_queue_at_def
      has_socket_def ses.orderly_def cli.orderly_def disciplined_def)

lemma gentle_listeners:
  "gentle (\<lambda>w. session_listener_open b address (port w) w)"
  "gentle (\<lambda>w. client_listener_open b address (port w) w)"
proof -
  show "gentle (\<lambda>w. session_listener_open b address (port w) w)"
    by (rule gentle_registry)
      (auto simp: session_listener_open_def Let_def wf_world_def wf_state_def)
  show "gentle (\<lambda>w. client_listener_open b address (port w) w)"
    by (rule gentle_registry)
      (auto simp: client_listener_open_def Let_def wf_world_def wf_state_def)
qed

lemma calm_server_connect: "keeps (calm v) (server_connect b config)"
proof -
  have "keeps (calm v) (bind_eff (call (make_session b)) (\<lambda>s.
         bind_eff (connect_until_open b host service) (\<lambda>_.
         bind_eff (modify (set_sessions_port s sp)) (\<lambda>_.
         bind_eff (modify (set_clients_port s cp)) (\<lambda>_.
         bind_eff (modify (session_run s Remote)) (\<lambda>_.
         bind_eff (call (add_session s)) (\<lambda>_. return ())))))))" for host service sp cp
  proof (rule keeps_call_calm)
    fix w assume w: "calm v w"
    show "calm v (snd (make_session b w))" by (rule calm_make_session [OF w])
    show "keeps (calm (snd (make_session b w)))
        (bind_eff (connect_until_open b host service) (\<lambda>_.
         bind_eff (modify (set_sessions_port (fst (make_session b w)) sp)) (\<lambda>_.
         bind_eff (modify (set_clients_port (fst (make_session b w)) cp)) (\<lambda>_.
         bind_eff (modify (session_run (fst (make_session b w)) Remote)) (\<lambda>_.
         bind_eff (call (add_session (fst (make_session b w)))) (\<lambda>_. return ()))))))"
      by (intro keeps_bind calm_connect keeps_quiet quiet_members calm_run calm_add keeps_return
          calm_make_session(2) [OF w])
  qed
  then show ?thesis
    unfolding server_connect_def Let_def by (intro keeps_bind [OF keeps_lift])
qed

lemma calm_server_start: "keeps (calm v) (server_start b)"
proof -
  have start: "keeps (calm v) (modify session_listener_start)" "keeps (calm v) (modify client_listener_start)"
    "keeps (calm v) (modify repl_start)"
    unfolding session_listener_start_def session_listener_do_accept_def client_listener_start_def
      client_listener_do_accept_def repl_start_def
    by (rule keeps_initiate; simp)+
  show ?thesis
    unfolding server_start_def
    by (rule keeps_if calm_server_connect start keeps_gentle_modify gentle_listeners keeps_gets keeps_lift
        keeps_return keeps_bind)+
qed

lemma started_ok:
  assumes "server_start b (boot b config) = (Ok n, w)"
  shows "node_ok w" and "queues w = queues (boot b config)"
proof -
  have "calm (boot b config) w"
    using keepsD [OF calm_server_start [of _ b] node_ok_self [OF boot_ok [of b config]]] assms by simp
  from this node_ok_calm [OF boot_ok this] show "node_ok w" "queues w = queues (boot b config)"
    by (simp_all add: calm_def)
qed

section \<open>Runs\<close>

definition queued_session :: "nat \<Rightarrow> event list \<Rightarrow> string list" where
  "queued_session a es = concat (map (queued_at a) es)"

definition sent_session :: "nat \<Rightarrow> event list \<Rightarrow> string list" where
  "sent_session a es = concat (map (sent_at a) es)"

definition queued_client :: "nat \<Rightarrow> event list \<Rightarrow> string list" where
  "queued_client a es = concat (map (client_queued_at a) es)"

definition sent_client :: "nat \<Rightarrow> event list \<Rightarrow> string list" where
  "sent_client a es = concat (map (client_sent_at a) es)"

lemmas traffic_defs = queued_session_def sent_session_def queued_client_def sent_client_def

lemma run_ok:
  assumes "node_run b v es w" and "node_ok v"
  shows "node_ok w"
  using assms by (induction rule: node_run.induct) (auto simp: good_step_def dest!: step_good)

lemma run_traffic:
  assumes "node_run b v es w" and "node_ok v"
  shows "session_queue_at a v @ queued_session a es = sent_session a es @ session_queue_at a w"
    and "client_queue_at a v @ queued_client a es = sent_client a es @ client_queue_at a w"
proof -
  have "session_queue_at a v @ queued_session a es = sent_session a es @ session_queue_at a w \<and>
        client_queue_at a v @ queued_client a es = sent_client a es @ client_queue_at a w"
    using assms
  proof (induction rule: node_run.induct)
    case (stop w)
    then show ?case by (simp add: traffic_defs)
  next
    case (step v es x e u)
    have "node_ok x" using step.hyps(1) step.prems by (rule run_ok)
    with step.hyps(2) have "moves e x u" by (auto simp: good_step_def dest!: step_good)
    then have "session_queue_at a x @ queued_at a e = sent_at a e @ session_queue_at a u"
      "client_queue_at a x @ client_queued_at a e = client_sent_at a e @ client_queue_at a u"
      by (simp_all add: moves_def)
    with step.IH [OF step.prems] show ?case
      by (simp add: traffic_defs) (metis append.assoc)
  qed
  then show "session_queue_at a v @ queued_session a es = sent_session a es @ session_queue_at a w"
    "client_queue_at a v @ queued_client a es = sent_client a es @ client_queue_at a w" by simp_all
qed

lemma reaches_ok: "reaches b config es w \<Longrightarrow> node_ok w"
  by (auto simp: reaches_def dest: started_ok(1) intro: run_ok)

lemma boot_queues: "session_queue_at a (boot b config) = []" "client_queue_at a (boot b config) = []"
  by (simp_all add: boot_def state.extend_def world.fields_def make_state_def session_queue_at_def
      client_queue_at_def)

lemma reaches_traffic:
  assumes "reaches b config es w"
  shows "queued_session a es = sent_session a es @ session_queue_at a w"
    and "queued_client a es = sent_client a es @ client_queue_at a w"
proof -
  obtain n v where v: "server_start b (boot b config) = (Ok n, v)" and run: "node_run b v es w"
    using assms by (auto simp: reaches_def)
  note ok = started_ok [OF v]
  have "session_queue_at a v = []" "client_queue_at a v = []"
    using queues_eqD [OF ok(2)] boot_queues by simp_all
  with run_traffic [OF run ok(1), of a]
  show "queued_session a es = sent_session a es @ session_queue_at a w"
    "queued_client a es = sent_client a es @ client_queue_at a w" by simp_all
qed

section \<open>Crashes\<close>

definition message_fault :: "boost \<Rightarrow> string \<Rightarrow> kernel_context \<Rightarrow> uuid \<Rightarrow> world \<Rightarrow> exn option" where
  "message_fault b text ctx i w = (case json_parse b text of
       Some (JObject data) \<Rightarrow> kernel_fault b data ctx i (snd (read_clock b w))
     | _ \<Rightarrow> None)"

definition read_fault :: "boost \<Rightarrow> read_result \<Rightarrow> kernel_context \<Rightarrow> uuid \<Rightarrow> world \<Rightarrow> exn option" where
  "read_fault b r ctx i w = (case r of Read_text text \<Rightarrow> message_fault b text ctx i w | _ \<Rightarrow> None)"

lemma throws_then_modify [simp]:
  "throws (fst (bind_eff m (\<lambda>_. modify f) w)) = throws (fst (m w))"
  by (simp add: throws_bind split: outcome.splits)

lemma throws_after_kernel:
  assumes "\<And>r u. throws (fst (g r u)) = None"
  shows "throws (fst (bind_eff (kernel b data ctx i) g w)) = kernel_fault b data ctx i w"
  using assms kernel_throws [of b data ctx i w]
  by (cases "fst (kernel b data ctx i w)") (simp_all add: throws_bind)

lemma session_on_read_throws:
  "throws (fst (session_on_read b s r w)) = read_fault b r On_session (ses_id s) w"
  by (auto simp: session_on_read_def read_fault_def message_fault_def bind_eff_call throws_after_kernel
      split: read_result.splits option.splits json.splits)

lemma session_on_accept_throws:
  "throws (fst (session_on_accept b s ctx ec endpoint w)) =
     (if \<not> ec \<and> endpoint = None then Some Endpoint_failure else None)"
  by (auto simp: session_on_accept_def throws_bind split: option.splits)

lemma client_do_read_live: "client_live w c \<Longrightarrow> throws (fst (client_do_read c w)) = None"
  by (simp add: client_do_read_returns)

lemma client_disconnected_throws: "throws (fst (client_disconnected b c w)) = None"
  by (simp add: client_disconnected_def bind_eff_call)

lemma client_on_read_throws:
  assumes "calm w w" and "client_live w c"
  shows "throws (fst (client_on_read b c r w)) = read_fault b r On_client (cl_id c) w"
proof (cases r)
  case (Read_text t)
  let ?m = "case json_parse b t of
      Some (JObject data) \<Rightarrow>
        bind_eff (kernel b data On_client (cl_id c)) (\<lambda>response.
        modify (client_send c (serialize b (JObject (get_data response)))))
    | _ \<Rightarrow> modify (client_unprocessable b c (fst (read_clock b w)))"
  let ?u = "snd (read_clock b w)"
  have u: "calm ?u ?u" "client_live ?u c"
    using calm_self [OF calm_quiet [OF assms(1) quiet_basic(3)]] assms(2) by simp_all
  have "keeps (calm ?u) ?m"
    using keeps_modify_client [OF calm_unprocessable_client u(2)] calm_sending_client [OF u(2)]
    by (auto simp: keeps_bind keeps_calm_kernel split: option.splits json.splits)
  from keepsD [OF this u(1)] have "client_live (snd (?m ?u)) c"
    by (rule client_live_mono) (rule u(2))
  then have "throws (fst (client_do_read c (snd (?m ?u)))) = None" by (rule client_do_read_live)
  then have "throws (fst (bind_eff ?m (\<lambda>_. client_do_read c) ?u)) = throws (fst (?m ?u))"
    by (simp add: throws_bind split: outcome.splits)
  moreover have "throws (fst (?m ?u)) = message_fault b t On_client (cl_id c) w"
    by (auto simp: message_fault_def throws_after_kernel split: option.splits json.splits)
  moreover have "client_on_read b c r w = bind_eff ?m (\<lambda>_. client_do_read c) ?u"
    by (simp add: client_on_read_def Read_text bind_eff_call)
  ultimately show ?thesis by (simp add: read_fault_def Read_text)
qed (simp_all add: client_on_read_def read_fault_def client_disconnected_throws)

lemma client_on_accept_throws:
  assumes "calm w w" and "client_live w c"
  shows "throws (fst (client_on_accept b c t ec w)) = None"
proof -
  have "calm w (client_welcome b c t w)" using assms by (rule calm_client_welcome)
  from client_live_mono [OF this assms(2)] show ?thesis
    by (simp add: client_on_accept_def bind_eff_modify client_disconnected_throws client_do_read_live)
qed

text \<open>Why a node can crash: a faulty message is read, or the address of an accepted peer is lost.\<close>

definition crash_cause :: "boost \<Rightarrow> world \<Rightarrow> exn \<Rightarrow> bool" where
  "crash_cause b w e \<longleftrightarrow>
     (\<exists>xs s ctx ys. e = Endpoint_failure \<and>
        (w_pending w = xs @ Session_accept s ctx # ys \<or>
         (\<exists>host. w_pending w = xs @ Session_handshake s host ctx # ys))) \<or>
     (\<exists>xs s ys message. w_pending w = xs @ Session_read s # ys \<and>
        message_fault b message On_session (ses_id s) (without xs ys w) = Some e) \<or>
     (\<exists>xs c ys message. w_pending w = xs @ Client_read c # ys \<and>
        message_fault b message On_client (cl_id c) (without xs ys w) = Some e)"

lemma listeners_never_throw:
  "throws (fst (session_listener_on_accept b ec w)) = None"
  "throws (fst (client_listener_on_accept b ec w)) = None"
  by (simp_all add: session_listener_on_accept_def client_listener_on_accept_def bind_eff_apply
      split: outcome.splits)

lemma settle_crash: "settle r = Crashed e \<Longrightarrow> throws (fst r) = Some e"
  by (simp add: settle_Crashed)

lemma crash_has_cause:
  assumes "node_step b w ev (Crashed e)" and w: "node_ok w"
  shows "crash_cause b w e"
  using assms(1)
proof cases
  case (accept_session xs s ctx ys ec endpoint)
  from accept_session(2,3) show ?thesis
    by (auto simp: crash_cause_def session_on_accept_throws dest!: settle_crash [OF sym] split: if_splits)
next
  case (handshake_session xs s host ctx ys ec endpoint)
  from handshake_session(2) have "e = Endpoint_failure"
    by (auto simp: session_on_accept_throws dest!: settle_crash [OF sym] split: if_splits)
  with handshake_session(3) show ?thesis unfolding crash_cause_def by blast
next
  case (read_session xs s ys r)
  from settle_crash [OF read_session(2) [symmetric]]
  obtain t where "r = Read_text t"
    "message_fault b t On_session (ses_id s) (without xs ys w) = Some e"
    by (cases r) (simp_all add: session_on_read_throws read_fault_def after_session_read_def)
  with read_session(3) show ?thesis unfolding crash_cause_def by blast
next
  case (write_session xs s m ys ec)
  with good_write_session(2) [OF w write_session(3), of ec] show ?thesis
    by (auto dest!: settle_crash [OF sym])
next
  case (accept_client xs c run_at ys ec)
  note p = accept_client(3)
  have c: "calm (without xs ys w) (set_client_open (\<not> ec) c (without xs ys w))"
    by (rule calm_without_open(2) [OF w p]) simp
  have "client_live (without xs ys w) c" using pending_live [OF w p] by simp
  from client_on_accept_throws [OF calm_self [OF c] client_live_mono [OF c this]]
    settle_crash [OF accept_client(2) [symmetric]]
  show ?thesis by simp
next
  case (read_client xs c ys r)
  note p = read_client(3)
  have c: "calm (without xs ys w) (after_client_read c r (without xs ys w))"
    by (rule calm_without_open(4) [OF w p]) simp
  have "client_live (without xs ys w) c" using pending_live [OF w p] by simp
  from client_on_read_throws [OF calm_self [OF c] client_live_mono [OF c this]]
    settle_crash [OF read_client(2) [symmetric]]
  have "read_fault b r On_client (cl_id c) (after_client_read c r (without xs ys w)) = Some e" by simp
  then obtain t where "r = Read_text t"
    "message_fault b t On_client (cl_id c) (without xs ys w) = Some e"
    by (cases r) (simp_all add: read_fault_def after_client_read_def)
  with p show ?thesis unfolding crash_cause_def by blast
next
  case (write_client xs c m ys ec)
  with good_write_client(2) [OF w write_client(3), of ec] show ?thesis
    by (auto dest!: settle_crash [OF sym])
next
  case (listen_session xs ys ec)
  with listeners_never_throw(1) show ?thesis by (auto dest!: settle_crash [OF sym])
next
  case (listen_client xs ys ec)
  with listeners_never_throw(2) show ?thesis by (auto dest!: settle_crash [OF sym])
qed simp

section \<open>Draining a queue\<close>

lemma session_write_pending:
  assumes "session_writes a xs = [m]"
  shows "\<exists>us t vs. xs = us @ Session_write t m # vs \<and> ses_addr t = a"
proof -
  from assms obtain us x vs where x: "xs = us @ x # vs" "session_write_of a x = [m]"
    unfolding session_writes_def by (blast dest: concat_map_single)
  then obtain t where "x = Session_write t m" "ses_addr t = a" by (cases x) (auto split: if_splits)
  with x(1) show ?thesis by blast
qed

lemma live_unique:
  assumes "wf_world w" and "s \<in> set (w_live_sessions w)" and "t \<in> set (w_live_sessions w)"
    and "ses_addr s = ses_addr t"
  shows "s = t"
  using assms by (auto simp: wf_world_def distinct_map dest: inj_onD)

lemma node_run_first:
  assumes "node_run b u es w" and "node_step b v e (Running u)"
  shows "node_run b v (e # es) w"
  using assms
proof (induction rule: node_run.induct)
  case (stop w)
  then show ?case using node_run.step [OF node_run.stop, of b v e] by simp
next
  case (step u es x e' w)
  then show ?case using node_run.step [of b v "e # es" x e' w] by simp
qed

lemma session_write_step:
  assumes w: "node_ok w" and live: "s \<in> set (w_live_sessions w)"
    and flow: "flowing (session_queue s w) (session_writes (ses_addr s) (w_pending w))"
    and q: "session_queue s w = m # ms"
  shows "\<exists>u. node_step b w (Session_sent s m) (Running u) \<and> node_ok u \<and> s \<in> set (w_live_sessions u) \<and>
    session_queue s u = ms \<and> flowing (session_queue s u) (session_writes (ses_addr s) (w_pending u))"
proof -
  have "session_writes (ses_addr s) (w_pending w) = [m]" using flow q by (simp add: flowing_def)
  from session_write_pending [OF this] obtain us t vs
    where p: "w_pending w = us @ Session_write t m # vs" and "ses_addr t = ses_addr s" by blast
  then have t: "t = s"
    using live_unique [of w t s] w live pending_live [OF w p] by (auto simp: node_ok_def)
  note p = p [unfolded t]
  let ?u = "snd (session_on_write s False (without us vs w))"
  have ok: "fst (session_on_write s False (without us vs w)) = Ok ()" by (rule good_write_session(2) [OF w p])
  then have run: "settle (session_on_write s False (without us vs w)) = Running ?u"
    by (cases "session_on_write s False (without us vs w)") (simp add: settle_def)
  have step: "node_step b w (Session_sent s m) (Running ?u)"
    using node_step.write_session [OF p, of b False] run by simp
  have c: "ses.completing s m us vs w" using w p by (simp add: ses.completing_def node_ok_def)
  have "node_ok ?u" using step_good [OF step w] by (simp add: good_step_def)
  moreover have "session_queue s ?u = ms"
    using ses.complete_queue [OF c, of "ses_addr s" False] q by (simp add: session_queue_eq without_def)
  moreover have "flowing (session_queue s ?u) (session_writes (ses_addr s) (w_pending ?u))"
    using ses.complete_flowing [OF c] by (simp add: session_queue_eq without_def)
  moreover have "s \<in> set (w_live_sessions ?u)"
  proof -
    have "w_live_sessions (snd (session_on_write s False v)) = w_live_sessions v" for v
      by (simp add: session_on_write_def bind_eff_apply update_session_def initiate_def)
    with live show ?thesis by simp
  qed
  ultimately show ?thesis using step by blast
qed

lemma session_drains:
  assumes "node_ok w" and "s \<in> set (w_live_sessions w)"
    and "flowing (session_queue s w) (session_writes (ses_addr s) (w_pending w))"
    and "session_queue s w = ms"
  shows "\<exists>w'. node_run b w (map (Session_sent s) ms) w' \<and> session_queue s w' = []"
  using assms
proof (induction ms arbitrary: w)
  case Nil
  then show ?case by (auto intro: node_run.stop)
next
  case (Cons m ms)
  from session_write_step [OF Cons.prems, of b] obtain u
    where u: "node_step b w (Session_sent s m) (Running u)" "node_ok u" "s \<in> set (w_live_sessions u)"
      "session_queue s u = ms" "flowing (session_queue s u) (session_writes (ses_addr s) (w_pending u))" by blast
  from Cons.IH [OF u(2,3,5,4)] obtain w' where "node_run b u (map (Session_sent s) ms) w'" "session_queue s w' = []"
    by blast
  with node_run_first [OF _ u(1)] show ?case by auto
qed

lemma client_write_pending:
  assumes "client_writes a xs = [m]"
  shows "\<exists>us t vs. xs = us @ Client_write t m # vs \<and> cl_addr t = a"
proof -
  from assms obtain us x vs where x: "xs = us @ x # vs" "client_write_of a x = [m]"
    unfolding client_writes_def by (blast dest: concat_map_single)
  then obtain t where "x = Client_write t m" "cl_addr t = a" by (cases x) (auto split: if_splits)
  with x(1) show ?thesis by blast
qed

lemma client_open_written: "client_open (snd (client_on_write c False w)) d = client_open w d"
  by (auto simp: client_on_write_def bind_eff_apply client_open_def client_obj_of_def update_client_def initiate_def)

lemma client_write_step:
  assumes w: "node_ok w" and ready: "client_open w c"
    and flow: "flowing (client_queue c w) (client_writes (cl_addr c) (w_pending w))"
    and q: "client_queue c w = m # ms"
  shows "\<exists>t u. node_step b w (Client_sent t m) (Running u) \<and> cl_addr t = cl_addr c \<and> node_ok u \<and> client_open u c \<and>
    client_queue c u = ms \<and> flowing (client_queue c u) (client_writes (cl_addr c) (w_pending u))"
proof -
  have "client_writes (cl_addr c) (w_pending w) = [m]" using flow q by (simp add: flowing_def)
  from client_write_pending [OF this] obtain us t vs
    where p: "w_pending w = us @ Client_write t m # vs" and t: "cl_addr t = cl_addr c" by blast
  have same: "client_open v t = client_open v c" "client_queue t v = client_queue c v" for v
    using t by (simp_all add: client_open_def client_obj_of_def client_queue_def)
  let ?u = "snd (client_on_write t False (without us vs w))"
  have ok: "fst (client_on_write t False (without us vs w)) = Ok ()" by (rule good_write_client(2) [OF w p])
  then have run: "settle (client_on_write t False (without us vs w)) = Running ?u"
    by (cases "client_on_write t False (without us vs w)") (simp add: settle_def)
  have step: "node_step b w (Client_sent t m) (Running ?u)"
    using node_step.write_client [OF p, of b False] run by simp
  have c: "cli.completing t m us vs w" using w p by (simp add: cli.completing_def node_ok_def)
  have "node_ok ?u" using step_good [OF step w] by (simp add: good_step_def)
  moreover have "client_queue t ?u = ms"
    using cli.complete_queue [OF c, of "cl_addr t" False] q same(2) by (simp add: client_queue_eq without_def)
  moreover have "flowing (client_queue t ?u) (client_writes (cl_addr t) (w_pending ?u))"
    using cli.complete_flowing [OF c] ready same(1) by (simp add: client_queue_eq without_def)
  moreover have "client_open ?u t"
    using ready same(1) by (simp add: client_open_written) (simp add: client_open_def without_def client_obj_of_def)
  ultimately show ?thesis using step t same by auto
qed

lemma client_drains:
  assumes "node_ok w" and "client_open w c"
    and "flowing (client_queue c w) (client_writes (cl_addr c) (w_pending w))" and "client_queue c w = ms"
  shows "\<exists>es w'. node_run b w es w' \<and> sent_client (cl_addr c) es = ms \<and> client_queue c w' = [] \<and>
    (\<forall>e\<in>set es. \<exists>t m. e = Client_sent t m)"
  using assms
proof (induction ms arbitrary: w)
  case Nil
  then show ?case by (auto intro!: exI node_run.stop simp: traffic_defs)
next
  case (Cons m ms)
  from client_write_step [OF Cons.prems, of b] obtain t u
    where u: "node_step b w (Client_sent t m) (Running u)" "cl_addr t = cl_addr c" "node_ok u" "client_open u c"
      "client_queue c u = ms" "flowing (client_queue c u) (client_writes (cl_addr c) (w_pending u))" by blast
  from Cons.IH [OF u(3,4,6,5)] obtain es w'
    where r: "node_run b u es w'" "sent_client (cl_addr c) es = ms" "client_queue c w' = []"
      "\<forall>e\<in>set es. \<exists>t m. e = Client_sent t m" by blast
  have "sent_client (cl_addr c) (Client_sent t m # es) = m # ms"
    using r(2) u(2) by (simp add: traffic_defs)
  with node_run_first [OF r(1) u(1)] r(3,4) show ?case
    by (intro exI [of _ "Client_sent t m # es"] exI [of _ w']) auto
qed

lemma node_run_append:
  assumes "node_run b v fs w" and "node_run b u es v"
  shows "node_run b u (es @ fs) w"
  using assms
proof (induction rule: node_run.induct)
  case (stop w)
  then show ?case by simp
next
  case (step v fs x e w)
  then show ?case using node_run.step [of b u "es @ fs" x e w] by simp
qed

lemma reaches_append: "reaches b config es v \<Longrightarrow> node_run b v fs w \<Longrightarrow> reaches b config (es @ fs) w"
  unfolding reaches_def by (blast intro: node_run_append)

end
