(* ===== verification/Registry.thy ===== *)
theory Registry
  imports Runs
begin

text \<open>
  The class \<^verbatim>\<open>state\<close> as three directories. The locale \<open>directory\<close> is the contract of a keyed
  store (an insertion is refused exactly when the key is taken, a removal reports whether it was
  there), and gives the refinement of whole command sequences to a partial map. It is interpreted
  on the sessions, the clients and the subscriptions of a node.
\<close>

section \<open>Abstract directories\<close>

datatype ('k, 'v) command = Add 'v | Remove 'k

fun run_commands ::
    "('v \<Rightarrow> 's \<Rightarrow> bool \<times> 's) \<Rightarrow> ('k \<Rightarrow> 's \<Rightarrow> bool \<times> 's) \<Rightarrow> ('k, 'v) command list \<Rightarrow> 's \<Rightarrow> bool list \<times> 's" where
  "run_commands add del [] s = ([], s)"
| "run_commands add del (Add v # cs) s =
     (let (r, s1) = add v s; (rs, s2) = run_commands add del cs s1 in (r # rs, s2))"
| "run_commands add del (Remove k # cs) s =
     (let (r, s1) = del k s; (rs, s2) = run_commands add del cs s1 in (r # rs, s2))"

definition map_add_entry :: "('v \<Rightarrow> 'k) \<Rightarrow> 'v \<Rightarrow> ('k \<Rightarrow> 'v option) \<Rightarrow> bool \<times> ('k \<Rightarrow> 'v option)" where
  "map_add_entry key v m = (if m (key v) = None then (True, m(key v \<mapsto> v)) else (False, m))"

definition map_remove_entry :: "'k \<Rightarrow> ('k \<Rightarrow> 'v option) \<Rightarrow> bool \<times> ('k \<Rightarrow> 'v option)" where
  "map_remove_entry k m = (m k \<noteq> None, m(k := None))"

locale directory =
  fixes inv :: "'s \<Rightarrow> bool"
    and admissible :: "'s \<Rightarrow> 'v \<Rightarrow> bool"
    and key :: "'v \<Rightarrow> 'k"
    and view :: "'s \<Rightarrow> 'k \<Rightarrow> 'v option"
    and add :: "'v \<Rightarrow> 's \<Rightarrow> bool \<times> 's"
    and del :: "'k \<Rightarrow> 's \<Rightarrow> bool \<times> 's"
  assumes add_result: "inv s \<Longrightarrow> fst (add v s) \<longleftrightarrow> view s (key v) = None"
    and add_view: "inv s \<Longrightarrow>
          view (snd (add v s)) = (if view s (key v) = None then (view s)(key v \<mapsto> v) else view s)"
    and del_result: "inv s \<Longrightarrow> fst (del k s) \<longleftrightarrow> view s k \<noteq> None"
    and del_view: "inv s \<Longrightarrow> view (snd (del k s)) = (view s)(k := None)"
    and add_inv: "inv s \<Longrightarrow> admissible s v \<Longrightarrow> inv (snd (add v s))"
    and del_inv: "inv s \<Longrightarrow> inv (snd (del k s))"
    and add_admissible: "inv s \<Longrightarrow> admissible s u \<Longrightarrow> admissible (snd (add v s)) u"
    and del_admissible: "inv s \<Longrightarrow> admissible s u \<Longrightarrow> admissible (snd (del k s)) u"
begin

lemma add_refines:
  "inv s \<Longrightarrow> (fst (add v s), view (snd (add v s))) = map_add_entry key v (view s)"
  by (simp add: add_result add_view map_add_entry_def)

lemma del_refines:
  "inv s \<Longrightarrow> (fst (del k s), view (snd (del k s))) = map_remove_entry k (view s)"
  by (simp add: del_result del_view map_remove_entry_def)

lemma commands_refine:
  assumes "inv s" and "\<And>v. Add v \<in> set cs \<Longrightarrow> admissible s v"
  shows "fst (run_commands add del cs s) =
           fst (run_commands (map_add_entry key) map_remove_entry cs (view s)) \<and>
         view (snd (run_commands add del cs s)) =
           snd (run_commands (map_add_entry key) map_remove_entry cs (view s)) \<and>
         inv (snd (run_commands add del cs s))"
  using assms
proof (induction cs arbitrary: s)
  case Nil
  then show ?case by simp
next
  case (Cons c cs)
  show ?case
  proof (cases c)
    case (Add v)
    have step: "map_add_entry key v (view s) = (fst (add v s), view (snd (add v s)))"
      using add_refines [OF Cons.prems(1)] by simp
    from Cons.prems Add have "inv (snd (add v s))"
      and "\<And>u. Add u \<in> set cs \<Longrightarrow> admissible (snd (add v s)) u"
      by (auto intro: add_inv add_admissible)
    from Cons.IH [OF this] show ?thesis by (simp add: Add step case_prod_beta Let_def)
  next
    case (Remove k)
    have step: "map_remove_entry k (view s) = (fst (del k s), view (snd (del k s)))"
      using del_refines [OF Cons.prems(1)] by simp
    from Cons.prems Remove have "inv (snd (del k s))"
      and "\<And>u. Add u \<in> set cs \<Longrightarrow> admissible (snd (del k s)) u"
      by (auto intro: del_inv del_admissible)
    from Cons.IH [OF this] show ?thesis by (simp add: Remove step case_prod_beta Let_def)
  qed
qed

lemma add_then_lookup: "inv s \<Longrightarrow> view (snd (add v s)) (key v) \<noteq> None"
  by (simp add: add_view)

lemma add_twice: "inv s \<Longrightarrow> admissible s v \<Longrightarrow> \<not> fst (add v (snd (add v s)))"
  by (simp add: add_result add_inv add_view)

lemma del_then_add: "inv s \<Longrightarrow> fst (add v (snd (del (key v) s)))"
  by (simp add: add_result del_inv del_view)

end

section \<open>The node's directories\<close>

definition live_admissible :: "world \<Rightarrow> session \<Rightarrow> bool" where
  "live_admissible w s \<longleftrightarrow> s \<in> set (w_live_sessions w)"

definition client_admissible :: "world \<Rightarrow> client \<Rightarrow> bool" where
  "client_admissible w c \<longleftrightarrow> (cl_is_local c \<longleftrightarrow> cl_session_id c = st_id w)"

definition subscription_view :: "world \<Rightarrow> subscription \<Rightarrow> subscription option" where
  "subscription_view w x = (if x \<in> set (st_subscriptions w) then Some x else None)"

definition subscribe_entry :: "subscription \<Rightarrow> world \<Rightarrow> bool \<times> world" where
  "subscribe_entry x = subscribe (sub_session_id x) (sub_client_id x) (sub_channel x)"

definition unsubscribe_entry :: "subscription \<Rightarrow> world \<Rightarrow> bool \<times> world" where
  "unsubscribe_entry x = unsubscribe (sub_session_id x) (sub_client_id x) (sub_channel x)"

lemma get_session_add:
  "(\<lambda>i. get_session i (snd (add_session s w))) =
     (if get_session (ses_id s) w = None then (\<lambda>i. get_session i w)(ses_id s \<mapsto> s) else (\<lambda>i. get_session i w))"
  by (auto simp: get_session_def add_session_def case_prod_beta map_of_map_emplace fun_eq_iff split: option.splits)

lemma get_client_add:
  "(\<lambda>i. get_client i (snd (add_client c w))) =
     (if get_client (cl_id c) w = None then (\<lambda>i. get_client i w)(cl_id c \<mapsto> c) else (\<lambda>i. get_client i w))"
proof (cases "mi_find cl_id (cl_id c) (st_clients w)")
  case None
  then have "cl_id c \<notin> cl_id ` set (st_clients w)" by (simp add: mi_find_None)
  with None show ?thesis
    by (auto simp: get_client_def add_client_def case_prod_beta clients_insert_eq mi_find_append
        fun_eq_iff split: option.splits)
next
  case (Some d)
  then have "cl_id c \<in> cl_id ` set (st_clients w)" by (metis mi_find_None option.distinct(1))
  with Some show ?thesis
    by (simp add: get_client_def add_client_def case_prod_beta clients_insert_eq)
qed

lemma registration_frame [simp]:
  "w_live_sessions (snd (remove_session i w)) = w_live_sessions w"
  "st_id (snd (add_client c w)) = st_id w"
  "st_id (snd (remove_client i w)) = st_id w"
  by (simp_all add: remove_session_def add_client_def remove_client_def case_prod_beta Let_def)

lemma mi_find_erase_key:
  "mi_find key i (mi_erase_range key k c) = (if i = k then None else mi_find key i c)"
  by (induction c) (auto simp: mi_find_eq mi_erase_range_def)

lemma get_client_remove:
  "(\<lambda>i. get_client i (snd (remove_client k w))) = (\<lambda>i. get_client i w)(k := None)"
  by (simp add: get_client_def remove_client_def Let_def fun_eq_iff mi_find_erase_key)

lemma subscription_eta [simp]:
  "\<lparr>sub_session_id = sub_session_id x, sub_client_id = sub_client_id x, sub_channel = sub_channel x\<rparr> = x"
  by (cases x) simp

interpretation sessions_dir: directory wf_world live_admissible ses_id "\<lambda>w i. get_session i w"
  add_session remove_session
proof
  fix w :: world and s :: session and k
  show "fst (add_session s w) \<longleftrightarrow> get_session (ses_id s) w = None"
    by (simp add: add_session_def case_prod_beta fst_map_emplace get_session_def)
  show "fst (remove_session k w) \<longleftrightarrow> get_session k w \<noteq> None"
    by (simp add: remove_session_def case_prod_beta map_erase_count get_session_def)
  show "(\<lambda>i. get_session i (snd (remove_session k w))) = (\<lambda>i. get_session i w)(k := None)"
    by (simp add: get_session_def remove_session_def case_prod_beta map_of_map_erase fun_eq_iff)
qed (simp_all add: get_session_add live_admissible_def wf_world_add_session wf_world_remove_session)

interpretation clients_dir: directory wf_state client_admissible cl_id "\<lambda>w i. get_client i w"
  add_client remove_client
proof
  fix w :: world and c :: client and k
  show "fst (add_client c w) \<longleftrightarrow> get_client (cl_id c) w = None"
    by (simp add: add_client_def case_prod_beta clients_insert_iff get_client_def mi_find_None)
  show "fst (remove_client k w) \<longleftrightarrow> get_client k w \<noteq> None"
    by (auto simp: remove_client_def Let_def get_client_def mi_find_def split: list.splits)
  show "wf_state w \<Longrightarrow> client_admissible w c \<Longrightarrow> wf_state (snd (add_client c w))"
    by (simp add: wf_add_client client_admissible_def)
  show "wf_state w \<Longrightarrow> wf_state (snd (remove_client k w))" by (rule wf_remove_client)
qed (simp_all add: get_client_add get_client_remove client_admissible_def)

interpretation subscriptions_dir: directory wf_state "\<lambda>w x. True" "\<lambda>x. x" subscription_view
  subscribe_entry unsubscribe_entry
proof
  fix w :: world and x :: subscription
  assume w: "wf_state w"
  have d: "distinct (st_subscriptions w)" using wf_stateD(4) [OF w] .
  show "fst (subscribe_entry x w) \<longleftrightarrow> subscription_view w x = None"
    by (simp add: subscribe_entry_def subscribe_def case_prod_beta subscriptions_insert_eq subscription_view_def)
  show "subscription_view (snd (subscribe_entry x w)) =
      (if subscription_view w x = None then (subscription_view w)(x \<mapsto> x) else subscription_view w)"
    by (auto simp: subscribe_entry_def subscribe_def case_prod_beta subscriptions_insert_eq
        subscription_view_def fun_eq_iff)
  show "fst (unsubscribe_entry x w) \<longleftrightarrow> subscription_view w x \<noteq> None"
    by (simp add: unsubscribe_entry_def unsubscribe_eq Let_def subscription_view_def)
  show "subscription_view (snd (unsubscribe_entry x w)) = (subscription_view w)(x := None)"
    using d by (auto simp: unsubscribe_entry_def unsubscribe_eq Let_def subscription_view_def fun_eq_iff)
  show "wf_state (snd (subscribe_entry x w))" "wf_state (snd (unsubscribe_entry x w))"
    using w by (simp_all add: subscribe_entry_def unsubscribe_entry_def wf_subscribe wf_unsubscribe)
qed auto

section \<open>Lookups\<close>

lemma is_subscribed_iff:
  "is_subscribed c ch w \<longleftrightarrow> (\<exists>x\<in>set (st_subscriptions w). sub_client_id x = c \<and> sub_channel x = ch)"
  by (auto simp: is_subscribed_def mi_find_None image_iff)

lemma get_client_iff:
  "wf_state w \<Longrightarrow> get_client i w = Some c \<longleftrightarrow> c \<in> set (st_clients w) \<and> cl_id c = i"
proof -
  assume w: "wf_state w"
  have "mi_find cl_id i cs = Some c" if "distinct (map cl_id cs)" "c \<in> set cs" "cl_id c = i" for cs
    using that by (induction cs) (auto simp: mi_find_eq)
  with wf_stateD(3) [OF w] show ?thesis
    by (auto simp: get_client_def dest: mi_find_Some)
qed

end
