(* ===== verification/Replication.thy ===== *)
theory Replication
  imports Registry
begin

text \<open>
  How nodes keep each other informed. First the exact messages \<^verbatim>\<open>state::sync\<close> sends to a peer
  that registers, then what a peer makes of the messages a node sends (\<open>join\<close>, \<open>subscribe\<close>,
  \<open>leave\<close>, \<open>broadcast\<close>, \<open>send\<close>): they pass the peer's validators and have the intended effect on its
  registry.
\<close>

section \<open>The messages of a synchronisation\<close>

definition session_notice :: "boost \<Rightarrow> world \<Rightarrow> session \<Rightarrow> uuid \<Rightarrow> json_object" where
  "session_notice b w x tid =
     [(''action'', JString ''session''),
      (''transaction_id'', JString (uuid_to_string b tid)),
      (''params'', JObject
         [(''host'', JString (get_host w x)),
          (''sessions_port'', JUint64 (ucast (get_sessions_port w x))),
          (''clients_port'', JUint64 (ucast (get_clients_port w x)))])]"

definition join_notice :: "boost \<Rightarrow> client \<Rightarrow> uuid \<Rightarrow> json_object" where
  "join_notice b c tid =
     [(''action'', JString ''join''),
      (''transaction_id'', JString (uuid_to_string b tid)),
      (''params'', JObject [(''client_id'', JString (uuid_to_string b (cl_id c)))])]"

definition subscribe_notice :: "boost \<Rightarrow> subscription \<Rightarrow> uuid \<Rightarrow> json_object" where
  "subscribe_notice b x tid =
     [(''action'', JString ''subscribe''),
      (''transaction_id'', JString (uuid_to_string b tid)),
      (''params'', JObject
         [(''client_id'', JString (uuid_to_string b (sub_client_id x))),
          (''channel'', JString (sub_channel x))])]"

definition reported :: "world \<Rightarrow> session \<Rightarrow> session \<Rightarrow> bool" where
  "reported w s x \<longleftrightarrow> ses_id x \<noteq> get_id w \<and> ses_id x \<noteq> ses_id s \<and> get_registered w x"

definition local_clients :: "world \<Rightarrow> client list" where
  "local_clients w = mi_equal_range cl_session_id (st_id w) (st_clients w)"

definition local_subscriptions :: "world \<Rightarrow> subscription list" where
  "local_subscriptions w = mi_equal_range sub_session_id (st_id w) (st_subscriptions w)"

definition sync_notices :: "boost \<Rightarrow> world \<Rightarrow> session \<Rightarrow> bool \<Rightarrow> (uuid \<Rightarrow> json_object) list" where
  "sync_notices b w s registered =
     (if registered then [] else map (session_notice b w) (filter (reported w s) (get_sessions w))) @
     map (join_notice b) (local_clients w) @
     map (subscribe_notice b) (local_subscriptions w)"

text \<open>\<open>stamped b n fs\<close>: the messages, each with the next identifier drawn.\<close>

fun stamped :: "boost \<Rightarrow> nat \<Rightarrow> (uuid \<Rightarrow> json_object) list \<Rightarrow> json_object list" where
  "stamped b n [] = []"
| "stamped b n (f # fs) = f (random_uuid b n) # stamped b (Suc n) fs"

lemma stamped_append: "stamped b n (fs @ gs) = stamped b n fs @ stamped b (n + length fs) gs"
  by (induction fs arbitrary: n) auto

lemma length_stamped [simp]: "length (stamped b n fs) = length fs"
  by (induction fs arbitrary: n) auto

definition emit :: "boost \<Rightarrow> session \<Rightarrow> (uuid \<Rightarrow> json_object) list \<Rightarrow> world \<Rightarrow> world" where
  "emit b s fs w =
     (post (concat (map (\<lambda>d. session_deliveries w [s] (text_of b d)) (stamped b (w_random w) fs))) w)
       \<lparr>w_random := w_random w + length fs\<rparr>"

lemma emit_Nil [simp]: "emit b s [] w = w"
  by (simp add: emit_def)

lemma emit_frame [simp]:
  "st_id (emit b s fs w) = st_id w"
  "st_sessions (emit b s fs w) = st_sessions w"
  "st_clients (emit b s fs w) = st_clients w"
  "st_subscriptions (emit b s fs w) = st_subscriptions w"
  "w_session_objs (emit b s fs w) = w_session_objs w"
  "w_random (emit b s fs w) = w_random w + length fs"
  "session_open (emit b s fs w) = session_open w"
  by (simp_all add: emit_def session_open_def session_obj_of_def fun_eq_iff)

lemma emit_emit: "emit b s gs (emit b s fs w) = emit b s (fs @ gs) w"
proof -
  have "session_deliveries (emit b s fs w) ss m = session_deliveries w ss m" for ss m
    by (simp add: session_deliveries_def)
  then show ?thesis
    by (simp add: emit_def stamped_append post_def add.assoc)
qed

lemma emit_one: "emit b s [f] w =
    session_send s (text_of b (f (random_uuid b (w_random w)))) (snd (draw_uuid b w))"
  by (simp add: emit_def session_send_post draw_uuid_def session_deliveries_def post_def
      session_open_def session_obj_of_def)

lemma fold_emit:
  assumes "\<And>x v. x \<in> set xs \<Longrightarrow> st_id v = st_id w \<Longrightarrow> w_session_objs v = w_session_objs w \<Longrightarrow> step x v = emit b s (fs x) v"
  shows "fold step xs w = emit b s (concat (map fs xs)) w"
  using assms
proof (induction xs arbitrary: w)
  case Nil
  then show ?case by simp
next
  case (Cons x xs)
  have "step x w = emit b s (fs x) w" using Cons.prems by simp
  moreover have "fold step xs (emit b s (fs x) w) = emit b s (concat (map fs xs)) (emit b s (fs x) w)"
    by (rule Cons.IH) (simp add: Cons.prems)
  ultimately show ?case by (simp add: emit_emit)
qed

lemma sync_steps_emit:
  "st_id v = st_id w \<Longrightarrow> w_session_objs v = w_session_objs w \<Longrightarrow>
     sync_sessions b s x v = emit b s (if reported w s x then [session_notice b w x] else []) v"
  "sync_client b s c v = emit b s [join_notice b c] v"
  "sync_subscription b s y v = emit b s [subscribe_notice b y] v"
  by (simp_all add: emit_one sync_sessions_def sync_client_def sync_subscription_def case_prod_beta Let_def
      session_notice_def join_notice_def subscribe_notice_def reported_def get_id_def get_registered_def
      get_host_def get_sessions_port_def get_clients_port_def session_obj_of_def)

lemma concat_if: "concat (map (\<lambda>x. if p x then [f x] else []) xs) = map f (filter p xs)"
  by (induction xs) auto

lemma concat_single: "concat (map (\<lambda>x. [f x]) xs) = map f xs"
  by (induction xs) auto

lemma sync_emits: "sync b s registered w = emit b s (sync_notices b w s registered) w"
proof -
  let ?fs = "if registered then [] else map (session_notice b w) (filter (reported w s) (get_sessions w))"
  let ?w1 = "if \<not> registered then fold (sync_sessions b s) (get_sessions w) w else w"
  have "fold (sync_sessions b s) (get_sessions w) w =
      emit b s (concat (map (\<lambda>x. if reported w s x then [session_notice b w x] else []) (get_sessions w))) w"
    by (rule fold_emit) (simp add: sync_steps_emit)
  then have w1: "?w1 = emit b s ?fs w" by (simp add: concat_if)
  have "fold (sync_client b s) cs v = emit b s (map (join_notice b) cs) v" for cs v
    using fold_emit [of cs v "sync_client b s" b s "\<lambda>c. [join_notice b c]"]
    by (simp add: sync_steps_emit concat_single)
  moreover have "fold (sync_subscription b s) ys v = emit b s (map (subscribe_notice b) ys) v" for ys v
    using fold_emit [of ys v "sync_subscription b s" b s "\<lambda>y. [subscribe_notice b y]"]
    by (simp add: sync_steps_emit concat_single)
  ultimately show ?thesis
    unfolding sync_def Let_def w1
    by (simp add: emit_emit get_id_def sync_notices_def local_clients_def local_subscriptions_def)
qed

section \<open>What a peer makes of a message\<close>

text \<open>A message built by a node reaches the handler of its action with its parameters readable.\<close>

definition addressed :: "boost \<Rightarrow> json_object \<Rightarrow> string \<Rightarrow> uuid \<Rightarrow> json_object \<Rightarrow> bool" where
  "addressed b data action tid p \<longleftrightarrow>
     map_of data ''action'' = Some (JString action) \<and> id_param b data ''transaction_id'' tid \<and>
     map_of data ''params'' = Some (JObject p)"

lemma kernel_addressed:
  assumes "addressed b data action tid p"
  shows "kernel b data ctx i w =
      finish (dispatch b action (kernel_request b data ctx i tid w) (kernel_entry b w))"
    and "has_params (kernel_request b data ctx i tid w) p"
  using assms kernel_accepted [of data action b tid]
  by (simp_all add: addressed_def has_params_def kernel_request_def)

lemma kernel_request_fields [simp]:
  "rq_context (kernel_request b data ctx i tid w) = ctx"
  "rq_entity_id (kernel_request b data ctx i tid w) = i"
  "rq_transaction_id (kernel_request b data ctx i tid w) = tid"
  "rq_timestamp (kernel_request b data ctx i tid w) = clock_now b (w_clock w)"
  by (simp_all add: kernel_request_def)

definition ended :: "world \<Rightarrow> world" where
  "ended w = w\<lparr>w_response := mark_as_processed (w_response w)\<rparr>"

lemma finish_ended: "finish (Ok a, w) = (Ok (w_response (ended w)), ended w)"
  by (simp add: finish_def ended_def Let_def)

lemma ended_frame [simp]:
  "st_id (ended w) = st_id w" "st_sessions (ended w) = st_sessions w" "st_clients (ended w) = st_clients w"
  "st_subscriptions (ended w) = st_subscriptions w" "w_pending (ended w) = w_pending w"
  "w_session_objs (ended w) = w_session_objs w" "w_client_objs (ended w) = w_client_objs w"
  by (simp_all add: ended_def)

lemma reply_frames [simp]:
  "st_id (status_reply b rq g w) = st_id w" "st_sessions (status_reply b rq g w) = st_sessions w"
  "st_clients (status_reply b rq g w) = st_clients w" "st_subscriptions (status_reply b rq g w) = st_subscriptions w"
  "w_pending (status_reply b rq g w) = w_pending w" "st_id (count_reply b rq n w) = st_id w"
  "st_sessions (count_reply b rq n w) = st_sessions w" "st_clients (count_reply b rq n w) = st_clients w"
  "st_subscriptions (count_reply b rq n w) = st_subscriptions w" "w_pending (count_reply b rq n w) = w_pending w"
  "w_session_objs (status_reply b rq g w) = w_session_objs w" "w_random (status_reply b rq g w) = w_random w"
  "w_random (ended w) = w_random w"
  by (simp_all add: status_reply_def count_reply_def ended_def)

lemma kernel_join:
  assumes "addressed b data ''join'' tid p" and "id_param b p ''client_id'' cid"
  shows "\<exists>r w'. kernel b data On_session i w = (Ok r, w') \<and> st_id w' = st_id w \<and>
    st_sessions w' = st_sessions w \<and> st_subscriptions w' = st_subscriptions w \<and>
    w_pending w' = w_pending w \<and> w_session_objs w' = w_session_objs w \<and> w_random w' = w_random w \<and>
    st_clients w' = (if cid \<in> cl_id ` set (st_clients w) then st_clients w
      else st_clients w @ [\<lparr>cl_addr = w_next_addr w, cl_id = cid, cl_session_id = i, cl_is_local = (st_id w = i)\<rparr>])"
proof -
  note k = kernel_addressed [OF assms(1), of On_session i w]
  show ?thesis
    unfolding k(1)
    by (simp add: dispatch_def join_on_session_eq [OF _ k(2) assms(2)] case_prod_beta Let_def finish_ended)
      (auto simp: add_client_def case_prod_beta clients_insert_eq new_client_def Let_def kernel_entry_def)
qed

lemma kernel_subscribe:
  assumes "addressed b data ''subscribe'' tid p" and "id_param b p ''client_id'' cid"
    and "map_of p ''channel'' = Some (JString ch)"
  shows "\<exists>r w'. kernel b data On_session i w = (Ok r, w') \<and> st_id w' = st_id w \<and>
    st_sessions w' = st_sessions w \<and> st_clients w' = st_clients w \<and> w_pending w' = w_pending w \<and>
    set (st_subscriptions w') =
      insert \<lparr>sub_session_id = i, sub_client_id = cid, sub_channel = ch\<rparr> (set (st_subscriptions w))"
proof -
  note k = kernel_addressed [OF assms(1), of On_session i w]
  show ?thesis
    unfolding k(1)
    by (simp add: dispatch_def subscribe_on_session_eq [OF _ k(2) assms(3,2)] case_prod_beta Let_def finish_ended)
      (auto simp: subscribe_def case_prod_beta subscriptions_insert_eq)
qed

lemma addressed_join_notice:
  assumes "uuid_text_ok b"
  shows "addressed b (join_notice b c tid) ''join'' tid [(''client_id'', JString (uuid_to_string b (cl_id c)))]"
    and "id_param b [(''client_id'', JString (uuid_to_string b (cl_id c)))] ''client_id'' (cl_id c)"
  using assms by (simp_all add: addressed_def join_notice_def id_param_to_string)

lemma addressed_subscribe_notice:
  assumes "uuid_text_ok b"
  shows "addressed b (subscribe_notice b x tid) ''subscribe'' tid
      [(''client_id'', JString (uuid_to_string b (sub_client_id x))), (''channel'', JString (sub_channel x))]"
    and "id_param b [(''client_id'', JString (uuid_to_string b (sub_client_id x))), (''channel'', JString (sub_channel x))]
      ''client_id'' (sub_client_id x)"
  using assms by (simp_all add: addressed_def subscribe_notice_def id_param_to_string)

section \<open>Replicating a registry\<close>

text \<open>The peer handles a list of messages that came from session \<open>i\<close>; \<open>None\<close> if one of them throws.\<close>

fun receive :: "boost \<Rightarrow> uuid \<Rightarrow> json_object list \<Rightarrow> world \<Rightarrow> world option" where
  "receive b i [] w = Some w"
| "receive b i (d # ds) w =
     (case kernel b d On_session i w of (Ok r, w') \<Rightarrow> receive b i ds w' | _ \<Rightarrow> None)"

lemma receive_append: "receive b i (ds @ es) w = Option.bind (receive b i ds w) (receive b i es)"
  by (induction ds arbitrary: w) (auto split: prod.splits outcome.splits)

lemma receive_joins:
  assumes "uuid_text_ok b" and "distinct (map cl_id cs)" and "cl_id ` set cs \<inter> cl_id ` set (st_clients w) = {}"
  shows "\<exists>w'. receive b i (stamped b n (map (join_notice b) cs)) w = Some w' \<and> st_id w' = st_id w \<and>
    st_sessions w' = st_sessions w \<and> st_subscriptions w' = st_subscriptions w \<and> w_pending w' = w_pending w \<and>
    map (\<lambda>c. (cl_id c, cl_session_id c)) (st_clients w') =
      map (\<lambda>c. (cl_id c, cl_session_id c)) (st_clients w) @ map (\<lambda>c. (cl_id c, i)) cs"
  using assms(2,3)
proof (induction cs arbitrary: w n)
  case Nil
  then show ?case by simp
next
  case (Cons c cs)
  from Cons.prems have new: "cl_id c \<notin> cl_id ` set (st_clients w)" by auto
  with kernel_join [OF addressed_join_notice(1) [OF assms(1), of c "random_uuid b n"] addressed_join_notice(2) [OF assms(1), of c], of i w]
  obtain r v where v: "kernel b (join_notice b c (random_uuid b n)) On_session i w = (Ok r, v)"
    and f: "st_id v = st_id w" "st_sessions v = st_sessions w" "st_subscriptions v = st_subscriptions w"
      "w_pending v = w_pending w" "st_clients v = st_clients w @
        [\<lparr>cl_addr = w_next_addr w, cl_id = cl_id c, cl_session_id = i, cl_is_local = (st_id w = i)\<rparr>]"
    by auto
  have "cl_id ` set cs \<inter> cl_id ` set (st_clients v) = {}" using Cons.prems f by auto
  with Cons.IH [of v "Suc n"] Cons.prems f v show ?case by simp
qed

lemma receive_subscribes:
  assumes "uuid_text_ok b"
  shows "\<exists>w'. receive b i (stamped b n (map (subscribe_notice b) xs)) w = Some w' \<and> st_id w' = st_id w \<and>
    st_sessions w' = st_sessions w \<and> st_clients w' = st_clients w \<and> w_pending w' = w_pending w \<and>
    set (st_subscriptions w') = set (st_subscriptions w) \<union> (\<lambda>x. x\<lparr>sub_session_id := i\<rparr>) ` set xs"
proof (induction xs arbitrary: w n)
  case Nil
  then show ?case by simp
next
  case (Cons x xs)
  from kernel_subscribe [OF addressed_subscribe_notice(1) [OF assms, of x "random_uuid b n"]
      addressed_subscribe_notice(2) [OF assms, of x], of "sub_channel x" i w]
  obtain r v where v: "kernel b (subscribe_notice b x (random_uuid b n)) On_session i w = (Ok r, v)"
    and f: "st_id v = st_id w" "st_sessions v = st_sessions w" "st_clients v = st_clients w"
      "w_pending v = w_pending w" "set (st_subscriptions v) =
        insert \<lparr>sub_session_id = i, sub_client_id = sub_client_id x, sub_channel = sub_channel x\<rparr> (set (st_subscriptions w))"
    by auto
  have "x\<lparr>sub_session_id := i\<rparr> = \<lparr>sub_session_id = i, sub_client_id = sub_client_id x, sub_channel = sub_channel x\<rparr>"
    by (cases x) simp
  with Cons.IH [of "Suc n" v] f v show ?case by auto
qed

end
