(* ===== verification/Termination.thy ===== *)
theory Termination
  imports Replication
begin

text \<open>
  When calls return. The only loop without a bound is the one that connects to another node: it ends
  at the first attempt that succeeds and never when none does. Everything else returns or throws, so
  a node whose peers eventually accept never hangs in a handler.
\<close>

section \<open>The connection loop\<close>

lemma connect_loop_first:
  assumes "connect_loop connect k = Some r"
  shows "\<exists>n \<ge> k. connect n \<and> r = Suc n \<and> (\<forall>j. k \<le> j \<and> j < n \<longrightarrow> \<not> connect j)"
proof (rule connect_loop.raw_induct [where P = "\<lambda>c k r. \<exists>n \<ge> k. c n \<and> r = Suc n
      \<and> (\<forall>j. k \<le> j \<and> j < n \<longrightarrow> \<not> c j)", OF _ assms])
  fix loop :: "(nat \<Rightarrow> bool) \<Rightarrow> nat \<Rightarrow> nat option" and c k r
  assume IH: "\<And>c k r. loop c k = Some r \<Longrightarrow>
      \<exists>n \<ge> k. c n \<and> r = Suc n \<and> (\<forall>j. k \<le> j \<and> j < n \<longrightarrow> \<not> c j)"
    and body: "(if c k then Some (Suc k) else loop c (Suc k)) = Some r"
  show "\<exists>n \<ge> k. c n \<and> r = Suc n \<and> (\<forall>j. k \<le> j \<and> j < n \<longrightarrow> \<not> c j)"
  proof (cases "c k")
    case True
    with body show ?thesis by auto
  next
    case False
    with body have "loop c (Suc k) = Some r" by simp
    from IH [OF this] obtain n where n: "Suc k \<le> n" "c n" "r = Suc n"
      "\<forall>j. Suc k \<le> j \<and> j < n \<longrightarrow> \<not> c j" by blast
    with False have "\<forall>j. k \<le> j \<and> j < n \<longrightarrow> \<not> c j" by (metis Suc_leI le_neq_implies_less)
    with n show ?thesis by (metis Suc_leD)
  qed
qed

lemma connect_loop_reaches:
  "connect (k + d) \<Longrightarrow> (\<And>j. k \<le> j \<Longrightarrow> j < k + d \<Longrightarrow> \<not> connect j) \<Longrightarrow> connect_loop connect k = Some (Suc (k + d))"
proof (induction d arbitrary: k)
  case 0
  then show ?case by (subst connect_loop.simps) simp
next
  case (Suc d)
  then have "\<not> connect k" by simp
  moreover have "connect_loop connect (Suc k) = Some (Suc (Suc k + d))"
    using Suc.prems by (intro Suc.IH) simp_all
  ultimately show ?case by (subst connect_loop.simps) simp
qed

lemma connect_loop_iff:
  "connect_loop connect k = Some (Suc n) \<longleftrightarrow>
     k \<le> n \<and> connect n \<and> (\<forall>j. k \<le> j \<and> j < n \<longrightarrow> \<not> connect j)"
proof
  show "connect_loop connect k = Some (Suc n) \<Longrightarrow>
      k \<le> n \<and> connect n \<and> (\<forall>j. k \<le> j \<and> j < n \<longrightarrow> \<not> connect j)"
    by (drule connect_loop_first) blast
  assume *: "k \<le> n \<and> connect n \<and> (\<forall>j. k \<le> j \<and> j < n \<longrightarrow> \<not> connect j)"
  then have "k + (n - k) = n" by simp
  with * connect_loop_reaches [of connect k "n - k"]
  show "connect_loop connect k = Some (Suc n)" by metis
qed

lemma connect_loop_None: "connect_loop connect k = None \<longleftrightarrow> (\<forall>n \<ge> k. \<not> connect n)"
proof
  assume none: "connect_loop connect k = None"
  show "\<forall>n \<ge> k. \<not> connect n"
  proof (rule ccontr)
    assume "\<not> (\<forall>n \<ge> k. \<not> connect n)"
    then have ex: "\<exists>n. k \<le> n \<and> connect n" by blast
    define n where "n = (LEAST n. k \<le> n \<and> connect n)"
    have "k \<le> n \<and> connect n" unfolding n_def by (rule LeastI_ex [OF ex])
    moreover have "\<not> connect j" if "k \<le> j" "j < n" for j
      using that not_less_Least [of j "\<lambda>n. k \<le> n \<and> connect n"] unfolding n_def by blast
    ultimately have "connect_loop connect k = Some (Suc n)" by (simp add: connect_loop_iff)
    with none show False by simp
  qed
next
  assume "\<forall>n \<ge> k. \<not> connect n"
  then show "connect_loop connect k = None"
    by (metis connect_loop_first not_Some_eq)
qed

section \<open>Calls that return\<close>

definition returning :: "'a eff_w \<Rightarrow> bool" where
  "returning m \<longleftrightarrow> (\<forall>w. fst (m w) \<noteq> Hang)"

named_theorems returning_rules \<open>rules that build a proof that a call returns or throws\<close>

lemma returning_atoms [returning_rules]:
  "returning (return a)" "returning (gets f)" "returning (modify g)" "returning (call h)"
  by (simp_all add: returning_def)

lemma returning_lift: "r \<noteq> Hang \<Longrightarrow> returning (lift_outcome r)"
  by (simp add: returning_def)

lemma returning_bind [returning_rules]: "returning m \<Longrightarrow> (\<And>a. returning (f a)) \<Longrightarrow> returning (bind_eff m f)"
  by (auto simp: returning_def bind_eff_apply split: outcome.splits)

lemma returning_branches [returning_rules]:
  "returning m \<Longrightarrow> returning n \<Longrightarrow> returning (if c then m else n)"
  "returning m \<Longrightarrow> returning n \<Longrightarrow> returning (case ctx of On_session \<Rightarrow> m | On_client \<Rightarrow> n)"
  "returning m \<Longrightarrow> (\<And>x. returning (f x)) \<Longrightarrow> returning (case opt of None \<Rightarrow> m | Some x \<Rightarrow> f x)"
  by (simp, cases ctx, simp_all, cases opt, simp_all)

lemma as_kinds_return: "as_string v \<noteq> Hang" "as_object v \<noteq> Hang" "as_bool v \<noteq> Hang" "as_int64 v \<noteq> Hang"
  by (cases v; simp)+

lemma at_returns: "at p field \<noteq> Hang"
  by (simp add: at_def split: option.splits)

lemma bind_outcome_returns: "m \<noteq> Hang \<Longrightarrow> (\<And>x. f x \<noteq> Hang) \<Longrightarrow> bind_outcome m f \<noteq> Hang"
  by (cases m) simp_all

lemma readers_return:
  "get_param_as_string p field \<noteq> Hang" "get_param_as_number p field \<noteq> Hang"
  "get_param_as_bool p field \<noteq> Hang" "get_param_as_object p field \<noteq> Hang" "get_params rq \<noteq> Hang"
  "get_params_as_value rq \<noteq> Hang" "get_param_as_id b p field \<noteq> Hang"
proof -
  have "(case lexical_cast_uuid b s of Some u \<Rightarrow> Ok u | None \<Rightarrow> Throw Bad_lexical_cast) \<noteq> Hang" for s
    by (simp split: option.splits)
  then show "get_param_as_id b p field \<noteq> Hang"
    unfolding get_param_as_id_def by (intro bind_outcome_returns at_returns as_kinds_return)
qed (unfold get_param_as_string_def get_param_as_number_def get_param_as_bool_def get_param_as_object_def
    get_params_def get_params_as_value_def, (rule bind_outcome_returns at_returns as_kinds_return)+)

lemmas returning_reads [returning_rules] = readers_return [THEN returning_lift]

lemma returning_reply [returning_rules]: "returning (reply b rq m d)"
  by (simp add: returning_def reply_def)

context param_validator
begin

lemma validate_returns: "returning (validate b rq)"
proof -
  have "fst (validate b rq w) \<noteq> Hang" for w
    by (cases rule: validate_cases [where b = b and rq = rq and w = w]) auto
  then show ?thesis by (simp add: returning_def)
qed

end

lemmas returning_validators [returning_rules] = broadcast_v.validate_returns is_subscribed_v.validate_returns
  publish_v.validate_returns register_v.validate_returns send_v.validate_returns
  session_v.validate_returns subscriptions_v.validate_returns

lemma returning_id_validator [returning_rules]: "returning (id_validator b rq p field)"
  by (auto simp: returning_def id_validator_eq split: option.splits)

text \<open>The network hypothesis: whatever the peer, some later connection attempt succeeds.\<close>

definition peers_accept :: "boost \<Rightarrow> bool" where
  "peers_accept b \<longleftrightarrow> (\<forall>host service k. \<exists>n \<ge> k. connects b host service n)"

lemma returning_connect: "peers_accept b \<Longrightarrow> returning (connect_until_open b host service)"
proof -
  assume p: "peers_accept b"
  have "connect_loop (connects b host service) k \<noteq> None" for k
    using p by (auto simp: connect_loop_None peers_accept_def)
  then show ?thesis by (auto simp: returning_def connect_until_open_def split: option.splits)
qed

lemma returning_session:
  assumes "peers_accept b"
  shows "returning (session_handler b rq)"
proof -
  have "returning (lift_outcome (if c then Ok () else Throw Resolve_failure))" for c
    by (rule returning_lift) simp
  then show ?thesis
    unfolding session_handler_def
    by (intro returning_rules returning_connect assms)
qed

lemma returning_kernel:
  assumes "peers_accept b"
  shows "returning (kernel b data ctx i)"
proof -
  have handlers: "returning (ping_handler b rq)" "returning (unimplemented_handler b rq)"
    "returning (is_subscribed_handler b rq)" "returning (subscribe_handler b rq)"
    "returning (unsubscribe_handler b rq)" "returning (broadcast_handler b rq)"
    "returning (publish_handler b rq)" "returning (send_handler b rq)" "returning (register_handler b rq)"
    "returning (join_handler b rq)" "returning (leave_handler b rq)" for rq
    unfolding handler_defs by (intro returning_rules)+
  show ?thesis
    unfolding kernel_def kernel_rejected_def dispatch_def
    by (intro returning_rules handlers returning_session assms)
qed

lemma kernel_total:
  assumes "peers_accept b" and "kernel_fault b data ctx i w = None"
  shows "\<exists>r w'. kernel b data ctx i w = (Ok r, w')"
proof (cases "fst (kernel b data ctx i w)")
  case (Ok r)
  then show ?thesis by (metis prod.collapse)
next
  case (Throw e)
  with assms(2) kernel_throws [of b data ctx i w] show ?thesis by simp
next
  case Hang
  with returning_kernel [OF assms(1)] show ?thesis by (simp add: returning_def)
qed

section \<open>The session handler on an accepted message\<close>

lemma session_handler_eq:
  assumes "rq_context rq = On_session" and "has_params rq p"
    and "map_of p ''host'' = Some (JString host)" and "map_of p ''sessions_port'' = Some (JInt64 sp)"
    and "map_of p ''clients_port'' = Some (JInt64 cp)"
  shows "session_handler b rq w =
    (if session_found host sp cp w then (Ok (), next_reply b rq ''no effect'' [] w)
     else if \<not> resolve b host (decimal (unat sp)) then (Throw Resolve_failure, w)
     else
       let (s, w1) = make_session b w
       in case connect_loop (connects b host (decimal (unat sp))) (w_attempts w1) of
            None \<Rightarrow> (Hang, w1)
          | Some n \<Rightarrow> (Ok (), next_reply b rq ''ok'' [] (snd (add_session s (session_run s Remote
              (set_sessions_port s (ucast sp) (set_clients_port s (ucast cp) (w1\<lparr>w_attempts := n\<rparr>))))))))"
  using assms
  by (simp add: session_handler_def run_defs case_prod_beta Let_def connect_until_open_def split: option.splits)

lemma session_found_iff:
  "session_found host sp cp w \<longleftrightarrow>
     (\<exists>s\<in>set (get_sessions w). get_host w s = host \<and> ucast (get_sessions_port w s) = sp
        \<and> ucast (get_clients_port w s) = cp)"
proof -
  have "fold (\<lambda>s found. if P s then True else found) ss x \<longleftrightarrow> x \<or> (\<exists>s\<in>set ss. P s)" for P :: "session \<Rightarrow> bool" and ss x
    by (induction ss arbitrary: x) auto
  from this [of "\<lambda>s. get_host w s = host \<and> ucast (get_sessions_port w s) = sp \<and> ucast (get_clients_port w s) = cp"]
  show ?thesis by (simp add: session_found_def)
qed

end
