(* ===== verification/Isolation.thy ===== *)
theory Isolation
  imports Termination
begin

text \<open>
  What a message cannot change. A client's message changes nothing of the registry but that client's
  own subscriptions; a peer's message adds clients and changes subscriptions only under the session it
  came through, and never drops a session. The end of the theory follows a forwarded message
  through the peer that receives it.
\<close>

section \<open>Clients\<close>

definition own_only :: "uuid \<Rightarrow> uuid \<Rightarrow> world \<Rightarrow> world \<Rightarrow> bool" where
  "own_only sid i v w \<longleftrightarrow>
     st_id w = st_id v \<and> st_config w = st_config v \<and> st_sessions w = st_sessions v \<and> st_clients w = st_clients v \<and>
     (\<forall>x. sub_session_id x \<noteq> sid \<or> sub_client_id x \<noteq> i \<longrightarrow>
        (x \<in> set (st_subscriptions w) \<longleftrightarrow> x \<in> set (st_subscriptions v)))"

definition registry_blind :: "(world \<Rightarrow> bool) \<Rightarrow> bool" where
  "registry_blind P \<longleftrightarrow> (\<forall>v w. state.truncate w = state.truncate v \<longrightarrow> P v \<longrightarrow> P w)"

lemma own_only_blind: "registry_blind (own_only sid i v)"
  unfolding registry_blind_def
proof (intro allI impI)
  fix u w :: world assume t: "state.truncate w = state.truncate u" and "own_only sid i v u"
  then show "own_only sid i v w"
    using state_fields_of_truncate [OF t] by (simp add: own_only_def)
qed

lemma keeps_blind:
  assumes "registry_blind P"
  shows "(\<And>w. state.truncate (f w) = state.truncate w) \<Longrightarrow> keeps P (modify f)"
    and "(\<And>w. state.truncate (snd (g w)) = state.truncate w) \<Longrightarrow> keeps P (call g)"
  using assms by (auto simp: registry_blind_def keeps_def)

lemma keeps_blind_reply: "registry_blind P \<Longrightarrow> keeps P (reply b rq m d)"
  unfolding reply_def by (rule keeps_blind) simp_all

lemma keeps_blind_id: "registry_blind P \<Longrightarrow> keeps P (id_validator b rq p field)"
  by (auto simp: keeps_def id_validator_eq registry_blind_def split: option.splits)

context param_validator
begin

lemma validate_blind: "registry_blind P \<Longrightarrow> keeps P (validate b rq)"
  using validate_state by (fastforce simp: keeps_def registry_blind_def)

end

lemmas keeps_blind_validators = broadcast_v.validate_blind is_subscribed_v.validate_blind
  publish_v.validate_blind register_v.validate_blind send_v.validate_blind session_v.validate_blind
  subscriptions_v.validate_blind

lemma own_gets_id:
  assumes "keeps (own_only (st_id v) i v) (f (st_id v))"
  shows "keeps (own_only (st_id v) i v) (bind_eff (gets get_id) f)"
  using assms by (auto simp: keeps_def get_id_def own_only_def)

lemma subscription_frame [simp]:
  "st_id (snd (subscribe s c ch w)) = st_id w" "st_id (snd (unsubscribe s c ch w)) = st_id w"
  "st_config (snd (subscribe s c ch w)) = st_config w" "st_config (snd (unsubscribe s c ch w)) = st_config w"
  "st_sessions (snd (subscribe s c ch w)) = st_sessions w" "st_sessions (snd (unsubscribe s c ch w)) = st_sessions w"
  "st_clients (snd (subscribe s c ch w)) = st_clients w" "st_clients (snd (unsubscribe s c ch w)) = st_clients w"
  by (simp_all add: subscribe_def unsubscribe_eq case_prod_beta Let_def)

lemma subscription_members:
  assumes "x \<noteq> \<lparr>sub_session_id = s, sub_client_id = c, sub_channel = ch\<rparr>"
  shows "x \<in> set (st_subscriptions (snd (subscribe s c ch w))) \<longleftrightarrow> x \<in> set (st_subscriptions w)"
    "x \<in> set (st_subscriptions (snd (unsubscribe s c ch w))) \<longleftrightarrow> x \<in> set (st_subscriptions w)"
  using assms
  by (auto simp: subscribe_def unsubscribe_eq case_prod_beta Let_def subscriptions_insert_eq in_set_remove1)

lemma keeps_own_subscribe:
  "keeps (own_only sid i v) (call (subscribe sid i ch))"
  "keeps (own_only sid i v) (call (unsubscribe sid i ch))"
proof -
  have "x \<noteq> \<lparr>sub_session_id = sid, sub_client_id = i, sub_channel = ch\<rparr>"
    if "sub_session_id x \<noteq> sid \<or> sub_client_id x \<noteq> i" for x
    using that by auto
  then show "keeps (own_only sid i v) (call (subscribe sid i ch))"
    "keeps (own_only sid i v) (call (unsubscribe sid i ch))"
    by (auto simp: keeps_def own_only_def subscription_members)
qed

text \<open>The handlers that never touch the registry.\<close>

lemma keeps_blind_handlers:
  assumes P: "registry_blind P"
  shows "keeps P (ping_handler b rq)" "keeps P (unimplemented_handler b rq)"
    "keeps P (is_subscribed_handler b rq)" "keeps P (broadcast_handler b rq)"
    "keeps P (publish_handler b rq)" "keeps P (send_handler b rq)" "keeps P (register_handler b rq)"
  unfolding handler_defs
  by (intro keeps_bind keeps_if keeps_lift keeps_return keeps_gets keeps_case_option keeps_case_context
      keeps_blind_reply [OF P] keeps_blind_validators [OF P] keeps_blind [OF P]; simp add: send_object_to_client_eq)+

lemma keeps_own_handlers:
  assumes "rq_context rq = On_client" and "rq_entity_id rq = i"
  shows "keeps (own_only (st_id v) i v) (subscribe_handler b rq)"
    "keeps (own_only (st_id v) i v) (unsubscribe_handler b rq)"
    "keeps (own_only (st_id v) i v) (join_handler b rq)" "keeps (own_only (st_id v) i v) (leave_handler b rq)"
    "keeps (own_only (st_id v) i v) (session_handler b rq)"
proof -
  note blind = own_only_blind [of "st_id v" i v]
  have sends: "keeps (own_only (st_id v) i v) (call (subscribe_to_sessions b rq i ch))"
    "keeps (own_only (st_id v) i v) (call (unsubscribe_to_sessions b rq i ch))" for ch
    by (rule keeps_blind(2) [OF blind]; simp)+
  show "keeps (own_only (st_id v) i v) (subscribe_handler b rq)"
    "keeps (own_only (st_id v) i v) (unsubscribe_handler b rq)"
    unfolding subscribe_handler_def unsubscribe_handler_def assms kernel_context.simps
    by (rule own_gets_id keeps_if keeps_lift keeps_return keeps_blind_validators [OF blind]
        keeps_own_subscribe sends keeps_blind_reply [OF blind] keeps_bind)+
  show "keeps (own_only (st_id v) i v) (join_handler b rq)" "keeps (own_only (st_id v) i v) (leave_handler b rq)"
    "keeps (own_only (st_id v) i v) (session_handler b rq)"
    unfolding join_handler_def leave_handler_def session_handler_def assms kernel_context.simps
    by (rule keeps_blind_reply [OF blind])+
qed

lemma keeps_dispatch_parts:
  assumes "registry_blind P"
    and "keeps P (session_handler b rq)" "keeps P (subscribe_handler b rq)" "keeps P (unsubscribe_handler b rq)"
      "keeps P (join_handler b rq)" "keeps P (leave_handler b rq)"
  shows "keeps P (dispatch b action rq)"
proof -
  have "state.truncate (w\<lparr>w_response := r\<rparr>) = state.truncate w" for w :: world and r
    by (simp add: state.truncate_def)
  then show ?thesis
    unfolding dispatch_def
    by (intro keeps_if keeps_blind_handlers [OF assms(1)] assms keeps_blind [OF assms(1)]) simp
qed

lemma keeps_kernel_parts:
  assumes "registry_blind P"
    and "\<And>action tid ts. keeps P (dispatch b action
          \<lparr>rq_transaction_id = tid, rq_entity_id = i, rq_context = ctx, rq_data = data, rq_timestamp = ts,
           rq_is_local = False\<rparr>)"
  shows "keeps P (kernel b data ctx i)"
proof -
  have "state.truncate (w\<lparr>w_response := r\<rparr>) = state.truncate w" "state.truncate (respond_failed b t ts bag w) = state.truncate w"
    for w :: world and r t ts bag
    by (simp_all add: state.truncate_def respond_failed_def read_clock_def Let_def)
  then show ?thesis
    unfolding kernel_def kernel_rejected_def
    by (intro keeps_bind keeps_if keeps_lift keeps_gets keeps_blind [OF assms(1)] assms(2)) simp_all
qed

lemma client_kernel_own_only: "keeps (own_only (st_id v) i v) (kernel b data On_client i)"
  by (intro keeps_kernel_parts keeps_dispatch_parts own_only_blind keeps_own_handlers) simp_all

section \<open>Peers\<close>

definition peer_only :: "uuid \<Rightarrow> world \<Rightarrow> world \<Rightarrow> bool" where
  "peer_only i v w \<longleftrightarrow>
     st_id w = st_id v \<and> st_config w = st_config v \<and>
     (\<forall>k s. get_session k v = Some s \<longrightarrow> get_session k w = Some s) \<and>
     (\<forall>c\<in>set (st_clients w). c \<in> set (st_clients v) \<or> cl_session_id c = i) \<and>
     (\<forall>x. sub_session_id x \<noteq> i \<longrightarrow> (x \<in> set (st_subscriptions w) \<longleftrightarrow> x \<in> set (st_subscriptions v)))"

lemma peer_only_blind: "registry_blind (peer_only i v)"
  unfolding registry_blind_def
proof (intro allI impI)
  fix u w :: world assume t: "state.truncate w = state.truncate u" and "peer_only i v u"
  then show "peer_only i v w"
    using state_fields_of_truncate [OF t] by (simp add: peer_only_def get_session_def)
qed

lemma keeps_peer_registration:
  "keeps (peer_only i v) (call (subscribe i c ch))"
  "keeps (peer_only i v) (call (unsubscribe i c ch))"
  "keeps (peer_only i v) (call (remove_client k))"
proof -
  have "x \<noteq> \<lparr>sub_session_id = i, sub_client_id = c, sub_channel = ch\<rparr>" if "sub_session_id x \<noteq> i" for x
    using that by auto
  then show "keeps (peer_only i v) (call (subscribe i c ch))" "keeps (peer_only i v) (call (unsubscribe i c ch))"
    by (auto simp: keeps_def peer_only_def get_session_def subscription_members)
  show "keeps (peer_only i v) (call (remove_client k))"
    by (auto simp: keeps_def peer_only_def get_session_def remove_client_def Let_def)
qed

lemma keeps_peer_join:
  assumes "\<And>x. keeps (peer_only i v) (f x)"
  shows "keeps (peer_only i v) (bind_eff (call (new_client i k)) (\<lambda>c. bind_eff (call (add_client c)) f))"
proof (rule keepsI)
  fix w assume w: "peer_only i v w"
  let ?u = "snd (new_client i k w)" and ?c = "fst (new_client i k w)"
  have "state.truncate ?u = state.truncate w" by simp
  with w peer_only_blind have "peer_only i v ?u" unfolding registry_blind_def by blast
  then have "peer_only i v (snd (add_client ?c ?u))"
    by (auto simp: peer_only_def get_session_def add_client_def case_prod_beta clients_insert_eq)
  with assms show "peer_only i v (snd (bind_eff (call (new_client i k)) (\<lambda>c. bind_eff (call (add_client c)) f) w))"
    by (simp add: bind_eff_apply keepsD)
qed

lemma keeps_peer_add_session: "keeps (peer_only i v) (call (add_session s))"
  by (auto simp: keeps_def peer_only_def get_session_def add_session_def case_prod_beta map_of_map_emplace
      split: option.splits)

lemma keeps_blind_connect: "registry_blind P \<Longrightarrow> keeps P (connect_until_open b host service)"
proof -
  have "state.truncate (w\<lparr>w_attempts := n\<rparr>) = state.truncate w" for w :: world and n
    by (simp add: state.truncate_def)
  then show "registry_blind P \<Longrightarrow> keeps P (connect_until_open b host service)"
    by (auto simp: keeps_def registry_blind_def connect_until_open_def split: option.splits)
qed

lemma keeps_peer_handlers:
  assumes "rq_context rq = On_session" and "rq_entity_id rq = i"
  shows "keeps (peer_only i v) (subscribe_handler b rq)" "keeps (peer_only i v) (unsubscribe_handler b rq)"
    "keeps (peer_only i v) (leave_handler b rq)" "keeps (peer_only i v) (join_handler b rq)"
    "keeps (peer_only i v) (session_handler b rq)"
proof -
  note blind = peer_only_blind [of i v]
  show "keeps (peer_only i v) (subscribe_handler b rq)" "keeps (peer_only i v) (unsubscribe_handler b rq)"
    "keeps (peer_only i v) (leave_handler b rq)"
    unfolding subscribe_handler_def unsubscribe_handler_def leave_handler_def assms kernel_context.simps
    by (intro keeps_bind keeps_if keeps_lift keeps_return keeps_blind_validators [OF blind]
        keeps_blind_id [OF blind] keeps_peer_registration keeps_blind_reply [OF blind])+
  show "keeps (peer_only i v) (join_handler b rq)"
    unfolding join_handler_def assms kernel_context.simps
    by (rule keeps_peer_join keeps_if keeps_lift keeps_return keeps_blind_id [OF blind]
        keeps_blind_reply [OF blind] keeps_bind)+
  show "keeps (peer_only i v) (session_handler b rq)"
    unfolding session_handler_def assms kernel_context.simps
    by (intro keeps_bind keeps_if keeps_lift keeps_return keeps_gets keeps_blind_validators [OF blind]
        keeps_blind_connect [OF blind] keeps_peer_add_session keeps_blind_reply [OF blind] keeps_blind [OF blind]; simp)
qed

lemma peer_kernel_only: "keeps (peer_only i v) (kernel b data On_session i)"
  by (intro keeps_kernel_parts keeps_dispatch_parts peer_only_blind keeps_peer_handlers) simp_all

section \<open>Forwarded messages\<close>

lemma open_entry [simp]:
  "client_open (kernel_entry b w) = client_open w"
  "session_open (kernel_entry b w) = session_open w"
  by (simp_all add: fun_eq_iff client_open_def session_open_def client_obj_of_def session_obj_of_def)

lemma views_entry [simp]:
  "get_sessions (kernel_entry b w) = get_sessions w"
  "get_clients (kernel_entry b w) = get_clients w"
  "get_client i (kernel_entry b w) = get_client i w"
  "other_clients sid cid (kernel_entry b w) = other_clients sid cid w"
  "client_deliveries (kernel_entry b w) cs m = client_deliveries w cs m"
  "session_deliveries (kernel_entry b w) ss m = session_deliveries w ss m"
  by (simp_all add: get_sessions_def get_clients_def get_client_def other_clients_def client_deliveries_def
      session_deliveries_def)

lemma channel_entry [simp]: "channel_sessions ch (kernel_entry b w) = channel_sessions ch w"
  by (simp add: channel_sessions_def)

lemma addressed_broadcast:
  assumes "uuid_text_ok b"
  shows "addressed b (make_broadcast_request_object b rq cid payload) ''broadcast'' (rq_transaction_id rq)
      [(''client_id'', JString (uuid_to_string b cid)), (''payload'', JObject payload)]"
    and "id_param b [(''client_id'', JString (uuid_to_string b cid)), (''payload'', JObject payload)] ''client_id'' cid"
  using assms by (simp_all add: addressed_def make_broadcast_request_object_def id_param_to_string)

lemma kernel_broadcast_peer:
  assumes "uuid_text_ok b"
  shows "\<exists>r w'. kernel b (make_broadcast_request_object b rq cid payload) On_session i w = (Ok r, w') \<and>
    w_pending w' = w_pending w @ client_deliveries w (other_clients (st_id w) cid w)
      (text_of b (make_broadcast_request_object b rq cid payload))"
proof -
  note k = kernel_addressed [OF addressed_broadcast(1) [OF assms], of rq cid payload On_session i w]
  have same: "make_broadcast_request_object b
      (kernel_request b (make_broadcast_request_object b rq cid payload) On_session i (rq_transaction_id rq) w) cid payload =
      make_broadcast_request_object b rq cid payload"
    by (simp add: make_broadcast_request_object_def)
  show ?thesis
    unfolding k(1) dispatch_def
    by (simp add: broadcast_on_session_eq [OF _ k(2) _ addressed_broadcast(2) [OF assms]] finish_ended same)
qed

lemma addressed_publish:
  assumes "uuid_text_ok b"
  shows "addressed b (make_publish_request_object b rq cid ch payload) ''publish'' (rq_transaction_id rq)
      [(''client_id'', JString (uuid_to_string b cid)), (''channel'', JString ch), (''payload'', JObject payload)]"
    and "id_param b [(''client_id'', JString (uuid_to_string b cid)), (''channel'', JString ch),
      (''payload'', JObject payload)] ''client_id'' cid"
  using assms by (simp_all add: addressed_def make_publish_request_object_def id_param_to_string)

lemma kernel_publish_peer:
  assumes "uuid_text_ok b"
  shows "\<exists>r w'. kernel b (make_publish_request_object b rq cid ch payload) On_session i w = (Ok r, w') \<and>
    w_pending w' = w_pending w @ client_deliveries w (other_clients (st_id w) cid w)
      (text_of b (make_publish_request_object b rq cid ch payload))"
proof -
  note k = kernel_addressed [OF addressed_publish(1) [OF assms], of rq cid ch payload On_session i w]
  have same: "make_publish_request_object b
      (kernel_request b (make_publish_request_object b rq cid ch payload) On_session i (rq_transaction_id rq) w) cid ch payload =
      make_publish_request_object b rq cid ch payload"
    by (simp add: make_publish_request_object_def)
  show ?thesis
    unfolding k(1) dispatch_def
    by (simp add: publish_on_session_eq [OF _ k(2) _ _ addressed_publish(2) [OF assms]] finish_ended same)
qed

lemma addressed_send:
  assumes "uuid_text_ok b"
  shows "addressed b (send_object b tid frm to payload) ''send'' tid
      [(''from_client_id'', JString (uuid_to_string b frm)), (''to_client_id'', JString (uuid_to_string b to)),
       (''payload'', JObject payload)]"
    and "id_param b [(''from_client_id'', JString (uuid_to_string b frm)), (''to_client_id'', JString (uuid_to_string b to)),
       (''payload'', JObject payload)] ''to_client_id'' to"
    and "id_param b [(''from_client_id'', JString (uuid_to_string b frm)), (''to_client_id'', JString (uuid_to_string b to)),
       (''payload'', JObject payload)] ''from_client_id'' frm"
  using assms by (simp_all add: addressed_def send_object_def id_param_to_string)

lemma kernel_send_peer:
  assumes "uuid_text_ok b" and "get_client to w = Some c" and "cl_session_id c = st_id w"
  shows "\<exists>r w'. kernel b (send_object b tid frm to payload) On_session i w = (Ok r, w') \<and>
    w_pending w' = w_pending w @ client_deliveries w [c]
      (text_of b (send_object b (random_uuid b (w_random w)) frm to payload))"
proof -
  note k = kernel_addressed [OF addressed_send(1) [OF assms(1)], of tid frm to payload On_session i w]
  have "cl_id c = to" using assms(2) by (auto simp: get_client_def dest: mi_find_Some)
  then show ?thesis
    unfolding k(1) dispatch_def
    by (simp add: send_on_session_eq [OF _ k(2) _ addressed_send(2,3) [OF assms(1)]] finish_ended assms
        send_object_to_client_eq)
qed

end
