(* ===== verification/Network.thy ===== *)
theory Network
  imports Runs "HOL-Library.Sublist"
begin

text \<open>
  Several nodes and the connections between them. An end of a connection is a node's number and the
  address of its session; \<open>peer\<close> says which end a session is connected to. A connection is a
  reliable stream: what one end has written and the other has not read yet is on its wire. A node
  takes the steps of \<open>node_step\<close>, and reads from a connected session only what is on the wire; from a
  session connected to no node of the network it may read anything. Nodes start one after the
  other, and one that crashed, hangs or was stopped takes no further step.
\<close>

type_synonym endpoint = "nat \<times> nat"

record network =
  net_nodes :: "nat \<Rightarrow> node option"
  net_wires :: "endpoint \<Rightarrow> string list"

definition empty_network :: network where
  "empty_network = \<lparr>net_nodes = (\<lambda>_. None), net_wires = (\<lambda>_. [])\<rparr>"

fun sent_from :: "nat \<Rightarrow> event \<Rightarrow> (endpoint \<times> string) option" where
  "sent_from k (Session_sent s m) = Some ((k, ses_addr s), m)"
| "sent_from k _ = None"

fun got_by :: "nat \<Rightarrow> event \<Rightarrow> (endpoint \<times> string) option" where
  "got_by k (Session_got s m) = Some ((k, ses_addr s), m)"
| "got_by k _ = None"

text \<open>The wires after an event of node \<open>k\<close>.\<close>

definition carry :: "(endpoint \<rightharpoonup> endpoint) \<Rightarrow> nat \<Rightarrow> event \<Rightarrow> (endpoint \<Rightarrow> string list) \<Rightarrow> endpoint \<Rightarrow> string list" where
  "carry peer k e wires =
     (case sent_from k e of
        Some (p, m) \<Rightarrow> (case peer p of Some q \<Rightarrow> wires(q := wires q @ [m]) | None \<Rightarrow> wires)
      | None \<Rightarrow>
          (case got_by k e of
             Some (q, m) \<Rightarrow> if q \<in> ran peer then wires(q := tl (wires q)) else wires
           | None \<Rightarrow> wires))"

definition readable :: "(endpoint \<rightharpoonup> endpoint) \<Rightarrow> nat \<Rightarrow> event \<Rightarrow> (endpoint \<Rightarrow> string list) \<Rightarrow> bool" where
  "readable peer k e wires \<longleftrightarrow>
     (case got_by k e of
        Some (q, m) \<Rightarrow> q \<in> ran peer \<longrightarrow> wires q \<noteq> [] \<and> hd (wires q) = m
      | None \<Rightarrow> True)"

inductive net_run :: "(nat \<Rightarrow> boost) \<Rightarrow> (nat \<Rightarrow> config) \<Rightarrow> (endpoint \<rightharpoonup> endpoint) \<Rightarrow> (nat \<times> event) list \<Rightarrow> network \<Rightarrow> bool"
  for libs configs peer where
  net_empty: "net_run libs configs peer [] empty_network"
| net_start:
    "net_run libs configs peer es N \<Longrightarrow> net_nodes N k = None \<Longrightarrow>
     server_start (libs k) (boot (libs k) (configs k)) = (Ok threads, w) \<Longrightarrow>
     net_run libs configs peer es (N\<lparr>net_nodes := (net_nodes N)(k \<mapsto> Running w)\<rparr>)"
| net_act:
    "net_run libs configs peer es N \<Longrightarrow> net_nodes N k = Some (Running w) \<Longrightarrow>
     node_step (libs k) w e n \<Longrightarrow> readable peer k e (net_wires N) \<Longrightarrow>
     net_run libs configs peer (es @ [(k, e)])
       (N\<lparr>net_nodes := (net_nodes N)(k \<mapsto> n), net_wires := carry peer k e (net_wires N)\<rparr>)"

lemma net_starts_two:
  assumes "server_start (libs k) (boot (libs k) (configs k)) = (Ok m, v)"
    and "server_start (libs l) (boot (libs l) (configs l)) = (Ok n, w)" and "k \<noteq> l"
  shows "\<exists>N. net_run libs configs peer [] N \<and> net_nodes N k = Some (Running v) \<and>
    net_nodes N l = Some (Running w) \<and> net_wires N = (\<lambda>_. [])"
proof -
  let ?A = "empty_network\<lparr>net_nodes := (net_nodes empty_network)(k \<mapsto> Running v)\<rparr>"
  have A: "net_run libs configs peer [] ?A"
    by (rule net_run.net_start [OF net_run.net_empty]) (simp_all add: empty_network_def assms(1))
  have "net_run libs configs peer [] (?A\<lparr>net_nodes := (net_nodes ?A)(l \<mapsto> Running w)\<rparr>)"
    by (rule net_run.net_start [OF A]) (use assms(2,3) in \<open>simp_all add: empty_network_def\<close>)
  then show ?thesis using assms(3) by (intro exI conjI) (assumption, simp_all add: empty_network_def)
qed

text \<open>A run of one node that uses no connection is a run of the network.\<close>

fun unconnected :: "event \<Rightarrow> bool" where
  "unconnected (Session_sent s m) = False"
| "unconnected (Session_got s m) = False"
| "unconnected _ = True"

lemma unconnected_wires: "unconnected e \<Longrightarrow> carry peer k e wires = wires \<and> readable peer k e wires"
  by (cases e) (simp_all add: carry_def readable_def)

lemma net_run_embeds:
  assumes "node_run (libs k) w fs u" and "net_run libs configs peer es N" and "net_nodes N k = Some (Running w)"
    and "list_all unconnected fs"
  shows "\<exists>M. net_run libs configs peer (es @ map (Pair k) fs) M \<and>
    net_nodes M = (net_nodes N)(k \<mapsto> Running u) \<and> net_wires M = net_wires N"
  using assms
proof (induction rule: node_run.induct)
  case (stop w)
  then show ?case by (auto simp: fun_upd_idem)
next
  case (step w fs v e u)
  have un: "list_all unconnected fs" "unconnected e" using step.prems(3) by simp_all
  from step.IH [OF step.prems(1,2) un(1)]
  obtain M where M: "net_run libs configs peer (es @ map (Pair k) fs) M"
    "net_nodes M = (net_nodes N)(k \<mapsto> Running v)" "net_wires M = net_wires N" by blast
  have e: "carry peer k e (net_wires M) = net_wires M" "readable peer k e (net_wires M)"
    using un(2) unconnected_wires by blast+
  from net_run.net_act [OF M(1) _ step.hyps(2) e(2)] M e(1) show ?case by auto
qed

section \<open>What an end has queued, sent and read\<close>

definition events_of :: "nat \<Rightarrow> (nat \<times> event) list \<Rightarrow> event list" where
  "events_of k es = map snd (filter (\<lambda>x. fst x = k) es)"

lemma events_of_simps [simp]:
  "events_of k [] = []"
  "events_of k (es @ fs) = events_of k es @ events_of k fs"
  "events_of k [(l, e)] = (if l = k then [e] else [])"
  by (simp_all add: events_of_def)

fun got_at :: "nat \<Rightarrow> event \<Rightarrow> string list" where
  "got_at a (Session_got s m) = (if ses_addr s = a then [m] else [])"
| "got_at a _ = []"

definition got_session :: "nat \<Rightarrow> event list \<Rightarrow> string list" where
  "got_session a es = concat (map (got_at a) es)"

definition net_queued :: "endpoint \<Rightarrow> (nat \<times> event) list \<Rightarrow> string list" where
  "net_queued p es = queued_session (snd p) (events_of (fst p) es)"

definition net_sent :: "endpoint \<Rightarrow> (nat \<times> event) list \<Rightarrow> string list" where
  "net_sent p es = sent_session (snd p) (events_of (fst p) es)"

definition net_got :: "endpoint \<Rightarrow> (nat \<times> event) list \<Rightarrow> string list" where
  "net_got p es = got_session (snd p) (events_of (fst p) es)"

lemmas net_traffic_defs = net_queued_def net_sent_def net_got_def got_session_def traffic_defs

lemma net_traffic_Nil [simp]: "net_queued p [] = []" "net_sent p [] = []" "net_got p [] = []"
  by (simp_all add: net_traffic_defs)

lemma net_traffic_snoc:
  "net_queued p (es @ [(k, e)]) = net_queued p es @ (if k = fst p then queued_at (snd p) e else [])"
  "net_sent p (es @ [(k, e)]) = net_sent p es @ (if k = fst p then sent_at (snd p) e else [])"
  "net_got p (es @ [(k, e)]) = net_got p es @ (if k = fst p then got_at (snd p) e else [])"
  by (simp_all add: net_traffic_defs)

section \<open>The invariant of a network\<close>

text \<open>A step that ends a node neither queues nor sends.\<close>

lemma last_step_silent:
  assumes "node_step b w e n" and "node_ok w" and "\<And>u. n \<noteq> Running u"
  shows "queued_at a e = [] \<and> sent_at a e = []"
  using assms(1)
proof cases
  case (read_session xs s ys r)
  then show ?thesis by (cases r) simp_all
next
  case (read_client xs c ys r)
  then show ?thesis by (cases r) simp_all
next
  case (write_session xs s m ys ec)
  from good_write_session(2) [OF assms(2) write_session(3), of ec] write_session(2) assms(3)
  show ?thesis by (cases "session_on_write s ec (without xs ys w)") (auto simp: settle_def)
qed (use assms(3) in auto)

fun node_traffic :: "node option \<Rightarrow> nat \<Rightarrow> string list \<Rightarrow> string list \<Rightarrow> bool" where
  "node_traffic None a queued sent = (queued = [] \<and> sent = [])"
| "node_traffic (Some (Running w)) a queued sent = (node_ok w \<and> queued = sent @ session_queue_at a w)"
| "node_traffic (Some n) a queued sent = prefix sent queued"

lemma node_traffic_prefix: "node_traffic n a queued sent \<Longrightarrow> prefix sent queued"
  by (cases "(n, a, queued, sent)" rule: node_traffic.cases) auto

lemma node_traffic_step:
  assumes "node_step b w e n" and "node_traffic (Some (Running w)) a queued sent"
  shows "node_traffic (Some n) a (queued @ queued_at a e) (sent @ sent_at a e)"
proof (cases n)
  case (Running u)
  with assms have "node_ok u" "moves e w u" by (auto simp: good_step_def dest!: step_good)
  with assms(2) Running show ?thesis by (simp add: moves_def)
next
  case (Crashed x)
  with assms last_step_silent [OF assms(1), of a] show ?thesis by simp
next
  case Stuck
  with assms last_step_silent [OF assms(1), of a] show ?thesis by simp
next
  case (Stopped u)
  with assms last_step_silent [OF assms(1), of a] show ?thesis by simp
qed

lemma carry_wire:
  assumes "peer p = Some q" and "\<And>r. peer r = Some q \<Longrightarrow> r = p" and "readable peer k e wires"
  shows "wires q @ (if k = fst p then sent_at (snd p) e else []) =
    (if k = fst q then got_at (snd q) e else []) @ carry peer k e wires q"
proof -
  have q: "q \<in> ran peer" using assms(1) by (rule ranI)
  show ?thesis
  proof (cases e)
    case (Session_sent s m)
    show ?thesis
    proof (cases "(k, ses_addr s) = p")
      case True
      with Session_sent assms(1) show ?thesis by (auto simp: carry_def)
    next
      case False
      then have "peer (k, ses_addr s) \<noteq> Some q" using assms(2) by blast
      with False Session_sent show ?thesis by (cases p) (auto simp: carry_def split: option.split)
    qed
  next
    case (Session_got s m)
    with assms(3) q show ?thesis by (cases q) (auto simp: carry_def readable_def)
  qed (simp_all add: carry_def)
qed

lemma net_run_traffic:
  assumes "net_run libs configs peer es N"
  shows "node_traffic (net_nodes N (fst p)) (snd p) (net_queued p es) (net_sent p es)"
  using assms
proof (induction rule: net_run.induct)
  case net_empty
  then show ?case by (simp add: empty_network_def)
next
  case (net_start es N k threads w)
  note ok = started_ok [OF net_start.hyps(3)]
  have "session_queue_at (snd p) w = []" using queues_eqD [OF ok(2)] boot_queues by simp
  with net_start ok(1) show ?case by auto
next
  case (net_act es N k w e n)
  show ?case
  proof (cases "k = fst p")
    case True
    with net_act node_traffic_step [OF net_act.hyps(3), of "snd p"] show ?thesis
      by (simp add: net_traffic_snoc)
  next
    case False
    with net_act show ?thesis by (simp add: net_traffic_snoc)
  qed
qed

lemma net_run_wire:
  assumes "net_run libs configs peer es N" and "peer p = Some q" and "\<And>r. peer r = Some q \<Longrightarrow> r = p"
  shows "net_sent p es = net_got q es @ net_wires N q"
  using assms(1)
proof (induction rule: net_run.induct)
  case net_empty
  then show ?case by (simp add: empty_network_def)
next
  case (net_start es N k threads w)
  then show ?case by simp
next
  case (net_act es N k w e n)
  from carry_wire [OF assms(2,3) net_act.hyps(4)] net_act.IH
  show ?case by (simp add: net_traffic_snoc)
qed

end
