(* ===== verification/Turns.thy ===== *)
theory Turns
  imports Termination Runs Registry
begin

text \<open>
  One turn of a connection: a text is read, handled and answered, and the next read is started. The
  answer of the kernel to any message (\<open>kernel_well_answered\<close>) is combined with the callbacks of
  \<^verbatim>\<open>client::on_read\<close> and \<^verbatim>\<open>session::on_read\<close>. Then what happens when a client connects: its
  registration, its handshake and its welcome.
\<close>

section \<open>The answer to a message\<close>

definition well_answered :: "boost \<Rightarrow> json_object \<Rightarrow> response \<Rightarrow> bool" where
  "well_answered b data r \<longleftrightarrow> get_processed r \<and>
    (if get_passed (make_validator b data) then
       (\<exists>tid. id_param b data ''transaction_id'' tid \<and>
         (if map_of data ''action'' = Some (JString ''ack'') then is_ack r \<and> get_data r = []
          else \<not> is_ack r \<and> answered b tid r))
     else
       \<not> is_ack r \<and> get_failed r \<and>
       (\<exists>field argument. get_bag (make_validator b data) = [(field, argument)] \<and>
          failed_document (if rejected_id b data = nil_uuid then JNull
                           else JString (uuid_to_string b (rejected_id b data))) field argument (get_data r)))"

lemma kernel_well_answered:
  assumes "kernel b data ctx i w = (Ok r, w')"
  shows "well_answered b data r" and "w_response w' = r"
proof -
  have "well_answered b data r \<and> w_response w' = r"
    using assms
  proof (cases rule: kernel_returns)
    case (accepted action tid t)
    note d = accepted(4)
    show ?thesis
    proof (cases "action = ''ack''")
      case True
      with d accepted(1-3,5,6) show ?thesis
        by (auto simp: well_answered_def dispatch_ack mark_as_ack_def mark_as_processed_def get_processed_def
            is_ack_def get_data_def new_response_def)
    next
      case False
      with dispatch_settles [OF kernel_entry_frame(12) d] have "settled b tid (w_response t)"
        by (simp add: kernel_request_def)
      with False accepted show ?thesis
        by (auto simp: well_answered_def settled_def answered_def mark_as_processed_def get_processed_def is_ack_def)
    qed
  next
    case (refused t)
    obtain field argument where bag: "get_bag (make_validator b data) = [(field, argument)]"
      using bag_single [OF refused(1)] by blast
    have "w_response t = mark_as_failed b (clock_now b (w_clock (kernel_entry b w))) (rejected_id b data)
        ''unprocessable entity'' (clock_now b (w_clock w)) [(field, argument)] new_response"
      unfolding refused(2) by (simp add: respond_failed_def read_clock_def bag kernel_entry_def)
    with refused bag mark_as_failed_document show ?thesis
      by (simp add: well_answered_def mark_as_processed_def get_processed_def is_ack_def get_failed_def get_data_def
          new_response_def)
  qed
  then show "well_answered b data r" and "w_response w' = r" by simp_all
qed

section \<open>Reading from a client\<close>

text \<open>
  \<open>reply_text b text r m\<close>: \<open>m\<close> answers \<open>text\<close>, whose handling produced the response \<open>r\<close> (\<open>None\<close> when
  the text is not a JSON object).
\<close>

definition reply_text :: "boost \<Rightarrow> string \<Rightarrow> response option \<Rightarrow> string \<Rightarrow> bool" where
  "reply_text b text result m \<longleftrightarrow>
     (case json_parse b text of
        Some (JObject data) \<Rightarrow>
          (\<exists>r. result = Some r \<and> well_answered b data r \<and> m = serialize b (JObject (get_data r)))
      | _ \<Rightarrow> result = None \<and> (\<exists>now read_at. m = serialize b (JObject (unprocessable_object now read_at))))"

lemma client_turn:
  assumes "peers_accept b" and "message_fault b text On_client (cl_id c) w = None" and "calm w w" and "client_live w c"
  shows "\<exists>u v result m. client_on_read b c (Read_text text) w = (Ok (), u) \<and> calm w v \<and>
    reply_text b text result m \<and>
    w_pending u = w_pending v @ client_deliveries u [c] m @ [Client_read c]"
proof -
  let ?w = "snd (read_clock b w)"
  have w: "calm w ?w" using assms(3) quiet_basic(3) by (rule calm_quiet)
  have finish: "\<exists>u. client_do_read c (client_send c m v) = (Ok (), u) \<and>
      w_pending u = w_pending v @ client_deliveries u [c] m @ [Client_read c]" if "calm w v" for v m
  proof -
    have "client_live (client_send c m v) c"
      using client_live_mono [OF that assms(4)] by (simp add: client_send_post client_live_def)
    moreover have "client_open (initiate x u) d = client_open u d" for x u d
      by (simp add: client_open_def client_obj_of_def initiate_def)
    ultimately show ?thesis
      by (simp add: client_do_read_returns client_send_post initiate_post client_deliveries_def)
  qed
  show ?thesis
  proof (cases "\<exists>data. json_parse b text = Some (JObject data)")
    case True
    then obtain data where data: "json_parse b text = Some (JObject data)" by blast
    with assms(2) have "kernel_fault b data On_client (cl_id c) ?w = None" by (simp add: message_fault_def)
    from kernel_total [OF assms(1) this] obtain r v
      where k: "kernel b data On_client (cl_id c) ?w = (Ok r, v)" by blast
    have v: "calm w v" using keepsD [OF keeps_calm_kernel w, of b data On_client "cl_id c"] k by simp
    from finish [OF v] obtain u
      where u: "client_do_read c (client_send c (serialize b (JObject (get_data r))) v) = (Ok (), u)"
        "w_pending u = w_pending v @ client_deliveries u [c] (serialize b (JObject (get_data r))) @ [Client_read c]"
      by blast
    have "client_on_read b c (Read_text text) w = (Ok (), u)"
      using data k u(1) by (simp add: client_on_read_def bind_eff_call bind_eff_apply)
    moreover have "reply_text b text (Some r) (serialize b (JObject (get_data r)))"
      using data kernel_well_answered(1) [OF k] by (simp add: reply_text_def)
    ultimately show ?thesis using v u(2) by blast
  next
    case False
    let ?v = "snd (read_clock b ?w)" and ?m = "serialize b (JObject (unprocessable_object (fst (read_clock b ?w)) (fst (read_clock b w))))"
    have v: "calm w ?v" using w quiet_basic(3) by (rule calm_quiet)
    from finish [OF v] obtain u where u: "client_do_read c (client_send c ?m ?v) = (Ok (), u)"
      "w_pending u = w_pending ?v @ client_deliveries u [c] ?m @ [Client_read c]" by blast
    have "client_on_read b c (Read_text text) w =
        bind_eff (modify (client_unprocessable b c (fst (read_clock b w)))) (\<lambda>_. client_do_read c) ?w"
      using False by (auto simp: client_on_read_def bind_eff_call split: option.splits json.splits)
    also have "\<dots> = (Ok (), u)"
      using u(1) by (simp add: bind_eff_modify client_unprocessable_def case_prod_beta Let_def)
    finally have "client_on_read b c (Read_text text) w = (Ok (), u)" .
    moreover have "reply_text b text None ?m"
      using False by (auto simp: reply_text_def split: option.splits json.splits)
    ultimately show ?thesis using v u(2) by blast
  qed
qed

section \<open>Reading from a session\<close>

definition acknowledges :: "response option \<Rightarrow> bool" where
  "acknowledges result \<longleftrightarrow> (case result of Some r \<Rightarrow> is_ack r | None \<Rightarrow> False)"

lemma session_turn:
  assumes "peers_accept b" and "message_fault b text On_session (ses_id s) w = None" and "calm w w"
  shows "\<exists>u v result m. session_on_read b s (Read_text text) w = (Ok (), u) \<and> calm w v \<and>
    reply_text b text result m \<and>
    w_pending u = w_pending v @ (if acknowledges result then [] else session_deliveries u [s] m) @ [Session_read s]"
proof -
  let ?w = "snd (read_clock b w)"
  have w: "calm w ?w" using assms(3) quiet_basic(3) by (rule calm_quiet)
  have read: "w_pending (session_do_read s v) = w_pending v @ [Session_read s]"
    "session_open (session_do_read s v) = session_open v" for v
    by (simp_all add: session_do_read_def initiate_post)
  have sent: "w_pending (session_do_read s (session_send s m v)) =
      w_pending v @ session_deliveries (session_do_read s (session_send s m v)) [s] m @ [Session_read s]" for v m
    by (simp add: read session_send_post session_deliveries_def)
  show ?thesis
  proof (cases "\<exists>data. json_parse b text = Some (JObject data)")
    case True
    then obtain data where data: "json_parse b text = Some (JObject data)" by blast
    with assms(2) have "kernel_fault b data On_session (ses_id s) ?w = None" by (simp add: message_fault_def)
    from kernel_total [OF assms(1) this] obtain r v
      where k: "kernel b data On_session (ses_id s) ?w = (Ok r, v)" by blast
    let ?m = "serialize b (JObject (get_data r))"
    have v: "calm w v" using keepsD [OF keeps_calm_kernel w, of b data On_session "ses_id s"] k by simp
    have "session_on_read b s (Read_text text) w =
        (Ok (), session_do_read s (if is_ack r then v else session_send s ?m v))"
      using data k by (simp add: session_on_read_def bind_eff_call bind_eff_apply)
    moreover have "reply_text b text (Some r) ?m"
      using data kernel_well_answered(1) [OF k] by (simp add: reply_text_def)
    moreover have "w_pending (session_do_read s (if is_ack r then v else session_send s ?m v)) = w_pending v @
        (if acknowledges (Some r) then []
         else session_deliveries (session_do_read s (if is_ack r then v else session_send s ?m v)) [s] ?m) @
        [Session_read s]"
      using sent [of ?m v] read(1) [of v] by (simp add: acknowledges_def)
    ultimately show ?thesis using v by blast
  next
    case False
    let ?v = "snd (read_clock b ?w)"
    let ?m = "serialize b (JObject (unprocessable_object (fst (read_clock b ?w)) (fst (read_clock b w))))"
    have v: "calm w ?v" using w quiet_basic(3) by (rule calm_quiet)
    have "session_on_read b s (Read_text text) w =
        bind_eff (modify (session_unprocessable b s (fst (read_clock b w)))) (\<lambda>_. modify (session_do_read s)) ?w"
      using False by (auto simp: session_on_read_def bind_eff_call split: option.splits json.splits)
    then have "session_on_read b s (Read_text text) w = (Ok (), session_do_read s (session_send s ?m ?v))"
      by (simp add: bind_eff_modify session_unprocessable_def case_prod_beta Let_def)
    moreover have "reply_text b text None ?m"
      using False by (auto simp: reply_text_def split: option.splits json.splits)
    moreover have "w_pending (session_do_read s (session_send s ?m ?v)) = w_pending ?v @
        (if acknowledges None then [] else session_deliveries (session_do_read s (session_send s ?m ?v)) [s] ?m) @
        [Session_read s]"
      unfolding sent by (simp only: acknowledges_def option.case if_False)
    ultimately show ?thesis using v by blast
  qed
qed

section \<open>Turns of a running node\<close>

lemma node_client_turn:
  assumes w: "node_ok w" and p: "w_pending w = xs @ Client_read c # ys" and "peers_accept b"
    and "message_fault b text On_client (cl_id c) (without xs ys w) = None"
  shows "\<exists>u zs result m. node_step b w (Client_got c text) (Running u) \<and> reply_text b text result m \<and>
    w_pending u = xs @ ys @ zs @ client_deliveries u [c] m @ [Client_read c]"
proof -
  let ?w = "without xs ys w"
  have calm: "calm ?w ?w" using without_calm [OF w p] by simp
  have live: "client_live ?w c" using pending_live [OF w p] by simp
  from client_turn [OF assms(3,4) calm live] obtain u v result m
    where t: "client_on_read b c (Read_text text) ?w = (Ok (), u)" "calm ?w v" "reply_text b text result m"
      "w_pending u = w_pending v @ client_deliveries u [c] m @ [Client_read c]" by blast
  obtain zs where "w_pending v = xs @ ys @ zs" using t(2) by (auto simp: calm_def)
  moreover have "node_step b w (Client_got c text) (Running u)"
    using node_step.read_client [OF p, of b "Read_text text"] t(1) by (simp add: after_client_read_def settle_def)
  ultimately show ?thesis using t(3,4) by auto
qed

lemma node_session_turn:
  assumes w: "node_ok w" and p: "w_pending w = xs @ Session_read s # ys" and "peers_accept b"
    and "message_fault b text On_session (ses_id s) (without xs ys w) = None"
  shows "\<exists>u zs result m. node_step b w (Session_got s text) (Running u) \<and> reply_text b text result m \<and>
    w_pending u = xs @ ys @ zs @ (if acknowledges result then [] else session_deliveries u [s] m) @ [Session_read s]"
proof -
  let ?w = "without xs ys w"
  have calm: "calm ?w ?w" using without_calm [OF w p] by simp
  from session_turn [OF assms(3,4) calm] obtain u v result m
    where t: "session_on_read b s (Read_text text) ?w = (Ok (), u)" "calm ?w v" "reply_text b text result m"
      "w_pending u = w_pending v @ (if acknowledges result then [] else session_deliveries u [s] m) @ [Session_read s]"
    by blast
  obtain zs where zs: "w_pending v = xs @ ys @ zs" using t(2) by (auto simp: calm_def)
  have "node_step b w (Session_got s text) (Running u)"
    using node_step.read_session [OF p, of b "Read_text text"] t(1) by (simp add: after_session_read_def settle_def)
  with t(3,4) [unfolded zs append_assoc] show ?thesis by blast
qed

section \<open>A client connects\<close>

text \<open>The listener registers the client, tells every open session and starts the handshake.\<close>

lemma client_listener_accepts:
  assumes "get_client (random_uuid b (w_random w)) w = None"
  shows "\<exists>w'. client_listener_on_accept b False w = (Ok (), w') \<and>
    (\<lambda>i. get_client i w') = (\<lambda>i. get_client i w)(cl_id (accepted_client b w) \<mapsto> accepted_client b w) \<and>
    w_pending w' = w_pending w @ session_deliveries w (get_sessions w)
        (text_of b (join_object b (random_uuid b (Suc (w_random w))) (cl_id (accepted_client b w)))) @
      [Client_accept (accepted_client b w) (clock_now b (w_clock w)), Listener_accept_client] \<and>
    client_open w' (accepted_client b w) = False"
proof -
  let ?c = "accepted_client b w"
  let ?v = "set_socket ?c (snd (make_client b (st_id w) w))"
  let ?u = "snd (join_to_sessions b (cl_id ?c) (snd (add_client ?c ?v)))"
  let ?t = "snd (client_listener_on_accept b False w)"
  have c: "fst (make_client b (st_id w) w) = ?c"
    by (simp add: make_client_def new_client_def draw_uuid_def accepted_client_def Let_def)
  have v: "get_client i ?v = get_client i w" "w_pending ?v = w_pending w" "get_sessions ?v = get_sessions w"
    "w_random ?v = Suc (w_random w)" "w_clock ?v = w_clock w" "session_open ?v = session_open w"
    "w_client_objs ?v = (w_client_objs w)(w_next_addr w := \<lparr>co_socket = Some False, co_queue = []\<rparr>)" for i
    by (simp_all add: set_socket_def update_client_def make_client_def new_client_def draw_uuid_def Let_def
        get_client_def get_sessions_def session_open_def session_obj_of_def accepted_client_def fun_eq_iff)
  have a: "w_pending (snd (add_client ?c ?v)) = w_pending w" "get_sessions (snd (add_client ?c ?v)) = get_sessions w"
    "w_random (snd (add_client ?c ?v)) = Suc (w_random w)" "session_open (snd (add_client ?c ?v)) = session_open w"
    using v(2-4,6)
    by (simp_all add: add_client_def case_prod_beta get_sessions_def session_open_def session_obj_of_def fun_eq_iff)
  then have d: "session_deliveries (snd (add_client ?c ?v)) ss m = session_deliveries w ss m" for ss m
    by (simp add: session_deliveries_def)
  have u: "w_client_objs ?u = w_client_objs ?v" "w_clock ?u = w_clock w"
    "w_pending ?u = w_pending w @ session_deliveries w (get_sessions w)
      (text_of b (join_object b (random_uuid b (Suc (w_random w))) (cl_id ?c)))"
    by (simp_all add: join_to_sessions_eq a d)
      (simp_all add: draw_uuid_def add_client_def case_prod_beta v(5))
  have obj: "co_socket (w_client_objs ?u (cl_addr ?c)) = Some False"
    unfolding u(1) v(7) by (simp add: accepted_client_def)
  have run: "client_run b ?c ?u = initiate (Client_accept ?c (clock_now b (w_clock w))) (snd (read_clock b ?u))"
    by (simp add: client_run_def read_clock_def client_obj_of_def obj u(2))
  have t: "client_listener_on_accept b False w = (Ok (), initiate Listener_accept_client (client_run b ?c ?u))"
    by (simp add: client_listener_on_accept_def bind_eff_apply c get_id_def client_listener_do_accept_def)
  have "(\<lambda>i. get_client i ?t) = (\<lambda>i. get_client i (snd (add_client ?c ?v)))"
    unfolding t run snd_conv
    by (simp add: get_client_def initiate_def read_clock_def) (simp add: join_to_sessions_eq)
  also have "\<dots> = (\<lambda>i. get_client i w)(cl_id ?c \<mapsto> ?c)"
    unfolding get_client_add v using assms by (simp add: accepted_client_def)
  finally have map: "(\<lambda>i. get_client i ?t) = (\<lambda>i. get_client i w)(cl_id ?c \<mapsto> ?c)" .
  have "w_pending ?t = w_pending w @ session_deliveries w (get_sessions w)
      (text_of b (join_object b (random_uuid b (Suc (w_random w))) (cl_id ?c))) @
      [Client_accept ?c (clock_now b (w_clock w)), Listener_accept_client]"
    by (simp add: t run u(3) initiate_def read_clock_def)
  moreover have "\<not> client_open ?t ?c"
    by (simp add: t run client_open_def client_obj_of_def initiate_def read_clock_def obj)
  ultimately show ?thesis using map t by auto
qed

end
