(* ===== verification/Startup.thy ===== *)
theory Startup
  imports Turns
begin

text \<open>
  How a process starts (\<^verbatim>\<open>main.cpp\<close>, \<^verbatim>\<open>server::start\<close>): the outcome of the program as a
  function of its options and of the network, and the world it leaves to the event loop; then what
  the console does with a line.
\<close>

section \<open>The outcome of the program\<close>

definition remote_service :: "options \<Rightarrow> string" where
  "remote_service opts = decimal (unat (opt_remote_sessions_port opts))"

definition startup_outcome :: "boost \<Rightarrow> options option \<Rightarrow> nat outcome" where
  "startup_outcome b parsed =
     (case parsed of
        None \<Rightarrow> Throw Bad_option
      | Some opts \<Rightarrow>
          if \<not> make_address b (opt_address opts) then Throw Bad_address
          else if opt_is_node opts \<and> \<not> resolve b (opt_remote_address opts) (remote_service opts)
          then Throw Resolve_failure
          else if opt_is_node opts \<and> connect_loop (connects b (opt_remote_address opts) (remote_service opts)) 0 = None
          then Hang
          else if opt_threads opts = 0 then Throw Length_error
          else Ok (unat (opt_threads opts)))"

text \<open>The port a listener ends up with: the one bound, if every step of its set-up succeeds.\<close>

definition bound_port :: "boost \<Rightarrow> string \<Rightarrow> ushort \<Rightarrow> ushort" where
  "bound_port b address port =
     (let a = acceptor b address port
      in if as_opens a \<and> as_reuses a \<and> as_binds a \<and> as_listens a then as_port a else port)"

lemma listener_opens:
  "session_listener_open b address (cfg_sessions_port (get_config w)) w =
     w\<lparr>st_config := (st_config w)\<lparr>cfg_sessions_port := bound_port b address (cfg_sessions_port (st_config w))\<rparr>\<rparr>"
  "client_listener_open b address (cfg_clients_port (get_config w)) w =
     w\<lparr>st_config := (st_config w)\<lparr>cfg_clients_port := bound_port b address (cfg_clients_port (st_config w))\<rparr>\<rparr>"
  by (simp_all add: session_listener_open_def client_listener_open_def bound_port_def Let_def get_config_def)

text \<open>The session to the configured peer.\<close>

definition remote_session :: "boost \<Rightarrow> session" where
  "remote_session b = \<lparr>ses_addr = 0, ses_id = random_uuid b 1\<rparr>"

definition configured :: "boost \<Rightarrow> options \<Rightarrow> world" where
  "configured b opts = (boot b default_config)\<lparr>st_config := configure opts (st_config (boot b default_config))\<rparr>"

lemma configured_fields [simp]:
  "st_sessions (configured b opts) = []" "st_clients (configured b opts) = []"
  "st_subscriptions (configured b opts) = []" "w_pending (configured b opts) = []"
  "w_attempts (configured b opts) = 0" "w_random (configured b opts) = 1" "w_next_addr (configured b opts) = 0"
  "get_config (configured b opts) = configure opts default_config"
  "st_config (configured b opts) = configure opts default_config"
  by (simp_all add: configured_def boot_def state.extend_def world.fields_def make_state_def get_config_def)

lemma configure_fields [simp]:
  "cfg_address (configure opts c) = opt_address opts" "cfg_threads (configure opts c) = opt_threads opts"
  "cfg_is_node (configure opts c) = opt_is_node opts" "cfg_remote_address (configure opts c) = opt_remote_address opts"
  "cfg_remote_sessions_port (configure opts c) = opt_remote_sessions_port opts"
  "cfg_remote_clients_port (configure opts c) = opt_remote_clients_port opts"
  "cfg_sessions_port (configure opts c) = opt_sessions_port opts"
  "cfg_clients_port (configure opts c) = opt_clients_port opts"
  "cfg_repl_enabled (configure opts c) = cfg_repl_enabled c"
  by (simp_all add: configure_def)

lemma server_connect_outcome:
  "fst (server_connect b config w) =
     (if \<not> resolve b (cfg_remote_address config) (decimal (unat (cfg_remote_sessions_port config))) then Throw Resolve_failure
      else if connect_loop (connects b (cfg_remote_address config) (decimal (unat (cfg_remote_sessions_port config))))
          (w_attempts w) = None then Hang
      else Ok ())"
proof -
  have "w_attempts (snd (make_session b w)) = w_attempts w"
    by (simp add: make_session_def new_session_def draw_uuid_def Let_def)
  then show ?thesis
    by (simp add: server_connect_def Let_def bind_eff_apply connect_until_open_def split: option.splits)
qed

lemma server_start_outcome:
  "fst (server_start b w) =
     (if \<not> make_address b (cfg_address (get_config w)) then Throw Bad_address
      else case (if cfg_is_node (get_config w) then fst (server_connect b (get_config w) w) else Ok ()) of
        Throw e \<Rightarrow> Throw e
      | Hang \<Rightarrow> Hang
      | Ok _ \<Rightarrow> if cfg_threads (get_config w) = 0 then Throw Length_error else Ok (unat (cfg_threads (get_config w))))"
  by (simp add: server_start_def bind_eff_apply split: outcome.splits)

lemma main_outcome: "fst (main_program b parsed) = startup_outcome b parsed"
proof (cases parsed)
  case None
  then show ?thesis by (simp add: main_program_def startup_outcome_def)
next
  case (Some opts)
  have "fst (main_program b parsed) = fst (server_start b (configured b opts))"
    by (simp add: main_program_def Some Let_def case_prod_beta configured_def)
  then show ?thesis
    by (simp add: Some startup_outcome_def server_start_outcome server_connect_outcome remote_service_def)
qed

section \<open>The world after the start\<close>

definition started_config :: "boost \<Rightarrow> options \<Rightarrow> config" where
  "started_config b opts = (configure opts default_config)
     \<lparr>cfg_sessions_port := bound_port b (opt_address opts) (opt_sessions_port opts),
      cfg_clients_port := bound_port b (opt_address opts) (opt_clients_port opts)\<rparr>"

lemma server_connect_world:
  assumes "server_connect b config w = (Ok u, v)" and "st_sessions w = []"
  shows "st_sessions v = [(random_uuid b (w_random w), \<lparr>ses_addr = w_next_addr w, ses_id = random_uuid b (w_random w)\<rparr>)] \<and>
    w_pending v = w_pending w @ [Session_on_run \<lparr>ses_addr = w_next_addr w, ses_id = random_uuid b (w_random w)\<rparr> Remote] \<and>
    st_config v = st_config w \<and> st_clients v = st_clients w \<and> st_subscriptions v = st_subscriptions w"
  using assms
  by (auto simp: server_connect_def Let_def bind_eff_apply connect_until_open_def make_session_def new_session_def
      draw_uuid_def session_run_def initiate_def set_sessions_port_def set_clients_port_def update_session_def
      add_session_def case_prod_beta map_emplace_def split: option.splits outcome.splits if_splits)

lemma server_start_world:
  assumes "server_start b w = (Ok n, v)"
  shows "\<exists>u c. v = u\<lparr>st_config := c,
       w_pending := w_pending u @ [Listener_accept_session, Listener_accept_client] @
         (if cfg_repl_enabled (get_config w) then [Repl_read] else [])\<rparr> \<and>
    (if cfg_is_node (get_config w) then server_connect b (get_config w) w = (Ok (), u) else u = w) \<and>
    c = (st_config u)
      \<lparr>cfg_sessions_port := bound_port b (cfg_address (get_config w)) (cfg_sessions_port (st_config u)),
       cfg_clients_port := bound_port b (cfg_address (get_config w)) (cfg_clients_port (st_config u))\<rparr>"
proof -
  let ?c = "\<lambda>u :: world. (st_config u)
      \<lparr>cfg_sessions_port := bound_port b (cfg_address (get_config w)) (cfg_sessions_port (st_config u)),
       cfg_clients_port := bound_port b (cfg_address (get_config w)) (cfg_clients_port (st_config u))\<rparr>"
  have listen: "v = u\<lparr>st_config := ?c u, w_pending := w_pending u @ [Listener_accept_session, Listener_accept_client] @
         (if cfg_repl_enabled (get_config w) then [Repl_read] else [])\<rparr>"
    if "(if cfg_is_node (get_config w) then server_connect b (get_config w) else return ()) w = (Ok (), u)" for u
    using assms that
    by (auto simp: server_start_def bind_eff_apply listener_opens session_listener_start_def client_listener_start_def
        session_listener_do_accept_def client_listener_do_accept_def repl_start_def initiate_def
        split: outcome.splits if_splits)
  let ?m = "if cfg_is_node (get_config w) then server_connect b (get_config w) else return ()"
  have "fst (?m w) = Ok ()"
    using assms by (auto simp: server_start_def bind_eff_apply split: outcome.splits if_splits)
  then have m: "?m w = (Ok (), snd (?m w))" by (metis prod.collapse)
  then have "if cfg_is_node (get_config w) then server_connect b (get_config w) w = (Ok (), snd (?m w))
      else snd (?m w) = w" by (simp split: if_splits)
  with listen [OF m] show ?thesis by blast
qed

lemma main_world:
  assumes "main_program b (Some opts) = (Ok n, Some w)"
  shows "st_config w = started_config b opts \<and> st_clients w = [] \<and> st_subscriptions w = [] \<and>
    st_sessions w = (if opt_is_node opts then [(ses_id (remote_session b), remote_session b)] else []) \<and>
    w_pending w = (if opt_is_node opts then [Session_on_run (remote_session b) Remote] else []) @
      [Listener_accept_session, Listener_accept_client, Repl_read]"
proof -
  have "server_start b (configured b opts) = (Ok n, w)"
    using assms by (simp add: main_program_def Let_def case_prod_beta configured_def prod_eq_iff)
  note start = server_start_world [OF this, unfolded configured_fields configure_fields]
  have repl: "cfg_repl_enabled default_config" by (simp add: default_config_def)
  from start obtain u c where u: "w = u\<lparr>st_config := c,
       w_pending := w_pending u @ [Listener_accept_session, Listener_accept_client] @
         (if cfg_repl_enabled default_config then [Repl_read] else [])\<rparr>"
    "if opt_is_node opts then server_connect b (configure opts default_config) (configured b opts) = (Ok (), u)
     else u = configured b opts"
    "c = (st_config u)
      \<lparr>cfg_sessions_port := bound_port b (opt_address opts) (cfg_sessions_port (st_config u)),
       cfg_clients_port := bound_port b (opt_address opts) (cfg_clients_port (st_config u))\<rparr>"
    by blast
  have "st_config u = configure opts default_config \<and> st_clients u = [] \<and> st_subscriptions u = [] \<and>
    st_sessions u = (if opt_is_node opts then [(ses_id (remote_session b), remote_session b)] else []) \<and>
    w_pending u = (if opt_is_node opts then [Session_on_run (remote_session b) Remote] else [])"
    using u(2) server_connect_world [of b "configure opts default_config" "configured b opts" "()" u]
    by (auto simp: remote_session_def split: if_splits)
  with u(1,3) repl show ?thesis by (simp add: started_config_def)
qed

section \<open>The console\<close>

lemma line_length_line: "CHR 0x0A \<notin> set line \<Longrightarrow> line_length (line @ newline @ rest) = Suc (length line)"
  by (simp add: line_length_def newline_def takeWhile_append)

lemma fold_print: "fold print_text ls w = w\<lparr>w_output := w_output w @ ls\<rparr>"
  by (induction ls arbitrary: w) (simp_all add: print_text_def)

lemma dump_lines_input [simp]: "dump_lines b (w\<lparr>w_input := s\<rparr>) = dump_lines b w"
proof -
  have "session_lines b (w\<lparr>w_input := s\<rparr>) = session_lines b w"
    by (simp add: fun_eq_iff session_lines_def get_sessions_port_def get_clients_port_def session_obj_of_def)
  then show ?thesis by (simp add: dump_lines_def get_sessions_def get_clients_def get_subscriptions_def)
qed

lemma repl_read_line:
  assumes "w_input w = line @ newline @ rest" and "CHR 0x0A \<notin> set line"
  shows "repl_read b No_error (line_length (w_input w)) w = w
    \<lparr>w_input := rest,
     w_output := w_output w @ (if line = ''dump'' then dump_lines b w else []),
     w_pending := w_pending w @ (if line = ''exit'' then [] else [Repl_write (''EVALUATED: '' @ line @ newline)])\<rparr>"
proof -
  have n: "line_length (w_input w) = Suc (length line)"
    using line_length_line [OF assms(2)] by (simp add: assms(1))
  have "take (length line) (w_input w) = line" "drop (Suc (length line)) (w_input w) = rest"
    by (simp_all add: assms(1) newline_def)
  then show ?thesis
    by (auto simp: repl_read_def n Let_def initiate_def fold_print)
qed

lemma console_step:
  assumes "w_pending w = xs @ Repl_read # ys" and "w_input w @ typed = line @ newline @ rest"
    and "CHR 0x0A \<notin> set line"
  shows "\<exists>u. node_step b w Internal (Running u) \<and> state.truncate u = state.truncate w \<and> w_input u = rest \<and>
    w_output u = w_output w @ (if line = ''dump'' then dump_lines b w else []) \<and>
    w_pending u = xs @ ys @ (if line = ''exit'' then [] else [Repl_write (''EVALUATED: '' @ line @ newline)])"
proof -
  let ?w = "type_input typed (without xs ys w)"
  have input: "w_input ?w = line @ newline @ rest" "w_input w @ typed = w_input ?w"
    using assms(2) by (simp_all add: type_input_def without_def)
  have "CHR 0x0A \<in> set (w_input w @ typed)" by (simp add: assms(2) newline_def)
  from node_step.console_line [OF assms(1) this, of b]
  have step: "node_step b w Internal (Running (repl_read b No_error (line_length (w_input ?w)) ?w))"
    unfolding input(2) .
  have dump: "dump_lines b ?w = dump_lines b w"
  proof -
    have "session_lines b ?w = session_lines b w"
      by (simp add: fun_eq_iff session_lines_def get_sessions_port_def get_clients_port_def session_obj_of_def
          type_input_def without_def)
    then show ?thesis
      by (simp add: dump_lines_def get_sessions_def get_clients_def get_subscriptions_def type_input_def without_def)
  qed
  show ?thesis
    by (rule exI, rule conjI, rule step [unfolded repl_read_line [OF input(1) assms(3)] dump])
      (simp add: state.truncate_def type_input_def without_def)
qed

end
