(* ===== verification/Handshake.thy ===== *)
theory Handshake
  imports Startup
begin

text \<open>
  How a peer becomes known: the node that connected sends \<^verbatim>\<open>register\<close> when its handshake completes
  (\<^verbatim>\<open>session::on_accept\<close>), the other one stores its ports and synchronises it
  (\<^verbatim>\<open>register_handler\<close>). The two sides are composed through the text between them.
\<close>

section \<open>Documents across the wire\<close>

text \<open>
  What parsing a serialised document gives: the document, except that a number without a sign is read
  as a signed one whenever it fits.
\<close>

fun as_parsed :: "json \<Rightarrow> json" where
  "as_parsed (JUint64 n) = (if n < 2 ^ 63 then JInt64 n else JUint64 n)"
| "as_parsed (JArray vs) = JArray (map as_parsed vs)"
| "as_parsed (JObject ms) = JObject (map (\<lambda>(k, v). (k, as_parsed v)) ms)"
| "as_parsed v = v"

lemma port_fits [simp]: "(ucast (n :: ushort) :: 64 word) < 2 ^ 63"
proof -
  have "unat n < 2 ^ 16" using unsigned_less [of n] by simp
  then have "unat (ucast n :: 64 word) < 2 ^ 63"
    by (simp add: unsigned_ucast_eq take_bit_eq_mod)
  then show ?thesis by (simp add: word_less_nat_alt)
qed

lemma port_roundtrip [simp]: "ucast (ucast (n :: ushort) :: 64 word) = n"
  by (rule bit_word_eqI) (simp add: bit_unsigned_iff)

section \<open>The handling of \<^verbatim>\<open>register\<close>\<close>

definition registered_view :: "session \<Rightarrow> 64 word \<Rightarrow> 64 word \<Rightarrow> world \<Rightarrow> world" where
  "registered_view s sp cp w =
     mark_as_registered s (set_sessions_port s (ucast sp) (set_clients_port s (ucast cp) w))"

lemma registered_view_obj: "session_obj_of (registered_view s sp cp w) s = (session_obj_of w s)
    \<lparr>so_clients_port := ucast cp, so_sessions_port := ucast sp, so_registered := True\<rparr>"
  by (simp add: registered_view_def mark_as_registered_def set_sessions_port_def set_clients_port_def
      update_session_def session_obj_of_def)

lemma registered_view_frame [simp]:
  "state.truncate (registered_view s sp cp w) = state.truncate w" "w_pending (registered_view s sp cp w) = w_pending w"
  "w_random (registered_view s sp cp w) = w_random w"
  "session_deliveries (registered_view s sp cp w) ss m = session_deliveries w ss m"
proof -
  have "session_open (registered_view s sp cp w) = session_open w"
    by (simp add: fun_eq_iff session_open_def registered_view_def mark_as_registered_def set_sessions_port_def
        set_clients_port_def update_session_def session_obj_of_def)
  then show "session_deliveries (registered_view s sp cp w) ss m = session_deliveries w ss m"
    by (simp add: session_deliveries_def)
qed (simp_all add: registered_view_def mark_as_registered_def set_sessions_port_def set_clients_port_def
    update_session_def state.truncate_def)

lemma kernel_register:
  assumes "addressed b data ''register'' tid p" and "map_of p ''sessions_port'' = Some (JInt64 sp)"
    and "map_of p ''clients_port'' = Some (JInt64 cp)" and "map_of p ''registered'' = Some (JBool registered)"
    and "get_session i w = Some s"
  shows "\<exists>r w'. kernel b data On_session i w = (Ok r, w') \<and> state.truncate w' = state.truncate w \<and>
    w_session_objs w' = w_session_objs (registered_view s sp cp w) \<and>
    w_pending w' = w_pending w @ concat (map (\<lambda>d. session_deliveries w [s] (text_of b d))
      (stamped b (w_random w) (sync_notices b (registered_view s sp cp w) s registered)))"
proof -
  note k = kernel_addressed [OF assms(1), of On_session i w]
  let ?v = "registered_view s sp cp (kernel_entry b w)"
  let ?t = "ended (next_reply b (kernel_request b data On_session i tid w) ''ok'' [] (sync b s registered ?v))"
  have found: "get_session i (kernel_entry b w) = Some s" using assms(5) by (simp add: get_session_def)
  have run: "kernel b data On_session i w = (Ok (w_response ?t), ?t)"
    unfolding k(1) dispatch_def
    by (simp add: register_on_session_eq [OF _ k(2) assms(2-4)] found finish_ended registered_view_def)
  have entry: "state.truncate (kernel_entry b w) = state.truncate w" "state.truncate (ended v) = state.truncate v" for v
    by (simp_all add: kernel_entry_def ended_def state.truncate_def)
  have notices: "sync_notices b ?v s registered = sync_notices b (registered_view s sp cp w) s registered"
  proof -
    have objs: "w_session_objs ?v = w_session_objs (registered_view s sp cp w)"
      and core: "st_id ?v = st_id (registered_view s sp cp w)" "st_sessions ?v = st_sessions (registered_view s sp cp w)"
        "st_clients ?v = st_clients (registered_view s sp cp w)"
        "st_subscriptions ?v = st_subscriptions (registered_view s sp cp w)"
      by (simp_all add: registered_view_def mark_as_registered_def set_sessions_port_def set_clients_port_def
          update_session_def kernel_entry_def)
    then have "session_notice b ?v = session_notice b (registered_view s sp cp w)"
      "reported ?v s = reported (registered_view s sp cp w) s" "get_sessions ?v = get_sessions (registered_view s sp cp w)"
      by (simp_all add: fun_eq_iff session_notice_def get_host_def get_sessions_port_def get_clients_port_def
          session_obj_of_def reported_def get_id_def get_registered_def get_sessions_def)
    with core show ?thesis by (simp add: sync_notices_def local_clients_def local_subscriptions_def)
  qed
  have deliveries: "session_deliveries (kernel_entry b w) ss m = session_deliveries w ss m" for ss m
  proof -
    have "session_open (kernel_entry b w) = session_open w"
      by (simp add: session_open_def session_obj_of_def fun_eq_iff kernel_entry_def)
    then show ?thesis by (simp add: session_deliveries_def)
  qed
  have "w_session_objs ?t = w_session_objs (registered_view s sp cp w)"
    by (simp add: sync_emits)
      (simp add: registered_view_def mark_as_registered_def set_sessions_port_def set_clients_port_def update_session_def
        kernel_entry_def)
  moreover have "w_pending ?t = w_pending w @ concat (map (\<lambda>d. session_deliveries w [s] (text_of b d))
      (stamped b (w_random w) (sync_notices b (registered_view s sp cp w) s registered)))"
    by (simp add: sync_emits emit_def notices deliveries)
  moreover have "state.truncate ?t = state.truncate w" using entry by simp
  ultimately show ?thesis using run by blast
qed

section \<open>From one node to the other\<close>

lemma register_object_parsed:
  assumes "uuid_text_ok b" and "as_parsed (JObject (register_object b tid config)) = JObject data"
  shows "addressed b data ''register'' tid
    [(''registered'', JBool (cfg_registered config)), (''clients_port'', JInt64 (ucast (cfg_clients_port config))),
     (''sessions_port'', JInt64 (ucast (cfg_sessions_port config)))]"
proof -
  have "as_parsed (JUint64 (ucast (n :: ushort))) = JInt64 (ucast n)" for n by (simp del: power_numeral)
  with assms(2) have "data =
      [(''transaction_id'', JString (uuid_to_string b tid)), (''action'', JString ''register''),
       (''params'', JObject [(''registered'', JBool (cfg_registered config)),
          (''clients_port'', JInt64 (ucast (cfg_clients_port config))),
          (''sessions_port'', JInt64 (ucast (cfg_sessions_port config)))])]"
    by (simp add: register_object_def del: as_parsed.simps(1))
  with assms(1) show ?thesis by (simp add: addressed_def id_param_to_string)
qed

lemma register_received:
  assumes "uuid_text_ok b" and "get_session (ses_id s) w = Some s"
    and "json_parse b text = Some (as_parsed (JObject (register_object b tid config)))"
  shows "\<exists>u. session_on_read b s (Read_text text) w = (Ok (), u) \<and>
    get_sessions_port u s = cfg_sessions_port config \<and> get_clients_port u s = cfg_clients_port config \<and>
    get_registered u s"
proof -
  obtain data where data: "as_parsed (JObject (register_object b tid config)) = JObject data" by simp
  let ?w = "snd (read_clock b w)"
  have "get_session (ses_id s) ?w = Some s" using assms(2) by (simp add: get_session_def read_clock_def)
  with kernel_register [OF register_object_parsed [OF assms(1) data]] obtain r v
    where k: "kernel b data On_session (ses_id s) ?w = (Ok r, v)"
      and objs: "w_session_objs v = w_session_objs (registered_view s (ucast (cfg_sessions_port config))
        (ucast (cfg_clients_port config)) ?w)"
    by fastforce
  let ?u = "session_do_read s (if is_ack r then v else session_send s (serialize b (JObject (get_data r))) v)"
  have run: "session_on_read b s (Read_text text) w = (Ok (), ?u)"
    using assms(3) data k by (simp add: session_on_read_def bind_eff_call bind_eff_apply)
  have "session_obj_of ?u s = session_obj_of v s"
    by (simp add: session_do_read_def session_obj_of_def session_send_post initiate_post)
  also have "\<dots> = session_obj_of (registered_view s (ucast (cfg_sessions_port config))
        (ucast (cfg_clients_port config)) ?w) s"
    using objs by (simp add: session_obj_of_def)
  finally have "session_obj_of ?u s = \<dots>" .
  with run show ?thesis
    by (simp add: registered_view_obj get_sessions_port_def get_clients_port_def get_registered_def)
qed

lemma session_registers:
  "\<exists>u. session_on_accept b s Remote False (Some host) w = (Ok (), u) \<and>
     w_pending u = w_pending w @ session_deliveries w [s]
       (text_of b (register_object b (random_uuid b (w_random w)) (st_config w))) @ [Session_read s] \<and>
     cfg_registered (st_config u)"
proof -
  let ?h = "set_host s host w"
  let ?c = "(snd (draw_uuid b ?h))\<lparr>st_config := (st_config w)\<lparr>cfg_registered := True\<rparr>\<rparr>"
  let ?m = "text_of b (register_object b (random_uuid b (w_random w)) (st_config w))"
  have "session_deliveries ?c [s] ?m = session_deliveries w [s] ?m"
    by (simp add: session_deliveries_def session_open_def session_obj_of_def draw_uuid_def set_host_def update_session_def)
  moreover have "session_register b s ?h = session_send s ?m ?c"
    by (simp add: session_register_def draw_uuid_def Let_def set_host_def update_session_def)
  ultimately show ?thesis
    by (simp add: session_on_accept_def bind_eff_apply session_do_read_def session_send_post initiate_post)
      (simp add: draw_uuid_def set_host_def update_session_def)
qed

section \<open>The handshake of a client\<close>

lemma client_welcomed:
  assumes "client_live w c"
  shows "client_on_accept b c run_at False w = (Ok (), post (client_deliveries w [c]
        (text_of b (welcome_object b (random_uuid b (w_random w)) (clock_now b (w_clock w)) run_at (cl_id c))) @
        [Client_read c]) (snd (draw_uuid b (snd (read_clock b w)))))"
proof -
  let ?u = "snd (draw_uuid b (snd (read_clock b w)))"
  let ?m = "text_of b (welcome_object b (random_uuid b (w_random w)) (clock_now b (w_clock w)) run_at (cl_id c))"
  have u: "client_open ?u = client_open w"
    by (simp add: fun_eq_iff client_open_def client_obj_of_def draw_uuid_def read_clock_def)
  have "client_welcome b c run_at w = client_send c ?m ?u"
    by (simp add: client_welcome_def read_clock_def draw_uuid_def Let_def)
  moreover have "client_deliveries ?u [c] ?m = client_deliveries w [c] ?m"
    unfolding client_deliveries_def u ..
  ultimately have "client_welcome b c run_at w = post (client_deliveries w [c] ?m) ?u"
    by (simp only: client_send_post)
  moreover have "client_live (post xs v) c = client_live v c" for xs v
    by (simp add: client_live_def)
  ultimately show ?thesis
    using assms by (simp add: client_on_accept_def bind_eff_modify client_do_read_returns initiate_post)
qed

lemma client_refused:
  "\<exists>w'. client_on_accept b c run_at True w = (Ok (), w') \<and> get_client (cl_id c) w' = None \<and>
     w_pending w' = w_pending w @ session_deliveries w (get_sessions w)
       (text_of b (leave_object b (random_uuid b (w_random w)) (cl_id c)))"
proof -
  let ?u = "snd (remove_client (cl_id c) w)"
  have "session_open ?u = session_open w"
    by (simp add: fun_eq_iff remove_client_def Let_def session_open_def session_obj_of_def)
  then have u: "session_deliveries ?u (get_sessions ?u) m = session_deliveries w (get_sessions w) m"
    "w_random ?u = w_random w" "w_pending ?u = w_pending w" for m
    by (simp_all add: remove_client_def Let_def get_sessions_def session_deliveries_def)
  have "get_client (cl_id c) ?u = None" using fun_cong [OF get_client_remove [of "cl_id c" w], of "cl_id c"] by simp
  then have "get_client (cl_id c) (snd (leave_to_sessions b (cl_id c) ?u)) = None"
    by (simp add: leave_to_sessions_eq get_client_def)
  then show ?thesis
    by (simp add: client_on_accept_def client_disconnected_def bind_eff_call leave_to_sessions_eq u)
qed

end
