(* ===== verification/Messages.thy ===== *)
theory Messages
  imports Handshake
begin

text \<open>
  The types of the messages between nodes. \<open>schema\<close> gives for each action the parameters a node's
  handler reads, with their kinds. A document that has them, read by the receiver's libraries, makes
  the kernel throw nothing but the failure to resolve a host; and every document a node composes for
  a peer has them, for every receiver that reads the identifiers the sender writes.
\<close>

section \<open>The schema\<close>

datatype kind = Identifier | Text | Port | Flag | Payload

definition schema :: "string \<Rightarrow> (string \<times> kind) list" where
  "schema action =
     (if action = ''broadcast'' then [(''client_id'', Identifier), (''payload'', Payload)]
      else if action = ''publish'' then [(''client_id'', Identifier), (''channel'', Text), (''payload'', Payload)]
      else if action = ''send'' then
        [(''from_client_id'', Identifier), (''to_client_id'', Identifier), (''payload'', Payload)]
      else if action = ''subscribe'' \<or> action = ''unsubscribe'' then [(''client_id'', Identifier), (''channel'', Text)]
      else if action = ''is_subscribed'' then [(''channel'', Text)]
      else if action = ''join'' \<or> action = ''leave'' then [(''client_id'', Identifier)]
      else if action = ''register'' then [(''registered'', Flag), (''sessions_port'', Port), (''clients_port'', Port)]
      else if action = ''session'' then [(''host'', Text), (''sessions_port'', Port), (''clients_port'', Port)]
      else [])"

text \<open>A text both readers of the receiver take for an identifier.\<close>

definition readable_id :: "boost \<Rightarrow> string \<Rightarrow> bool" where
  "readable_id b s \<longleftrightarrow> is_uuid b (c_str s) \<and> lexical_cast_uuid b s \<noteq> None"

fun has_kind :: "boost \<Rightarrow> json \<Rightarrow> kind \<Rightarrow> bool" where
  "has_kind b (JString s) Identifier = readable_id b s"
| "has_kind b (JString s) Text = True"
| "has_kind b (JInt64 n) Port = (n < 65536)"
| "has_kind b (JBool x) Flag = True"
| "has_kind b (JObject ms) Payload = True"
| "has_kind b _ _ = False"

definition has_fields :: "boost \<Rightarrow> json_object \<Rightarrow> (string \<times> kind) list \<Rightarrow> bool" where
  "has_fields b p fs \<longleftrightarrow>
     list_all (\<lambda>(field, k). case map_of p field of Some v \<Rightarrow> has_kind b v k | None \<Rightarrow> False) fs"

definition typed :: "boost \<Rightarrow> json_object \<Rightarrow> bool" where
  "typed b data \<longleftrightarrow>
     (case map_of data ''transaction_id'' of
        Some (JString s) \<Rightarrow> readable_id b s | Some JNull \<Rightarrow> True | _ \<Rightarrow> False) \<and>
     (case map_of data ''action'' of
        None \<Rightarrow> True
      | Some (JString action) \<Rightarrow>
          (case map_of data ''params'' of
             Some (JObject p) \<Rightarrow> has_fields b p (schema action)
           | _ \<Rightarrow> schema action = [])
      | Some _ \<Rightarrow> False)"

lemma has_fields_simps [simp]:
  "has_fields b p []"
  "has_fields b p ((field, k) # fs) \<longleftrightarrow> (\<exists>v. map_of p field = Some v \<and> has_kind b v k) \<and> has_fields b p fs"
  by (auto simp: has_fields_def split: option.splits)

lemma has_kind_iffs [simp]:
  "has_kind b v Identifier \<longleftrightarrow> (\<exists>s. v = JString s \<and> readable_id b s)"
  "has_kind b v Text \<longleftrightarrow> (\<exists>s. v = JString s)"
  "has_kind b v Port \<longleftrightarrow> (\<exists>n. v = JInt64 n \<and> n < 65536)"
  "has_kind b v Flag \<longleftrightarrow> (\<exists>x. v = JBool x)"
  "has_kind b v Payload \<longleftrightarrow> (\<exists>ms. v = JObject ms)"
  by (cases v; simp)+

section \<open>A typed message throws nothing\<close>

lemma readable_no_fault: "map_of p field = Some (JString s) \<Longrightarrow> readable_id b s \<Longrightarrow> id_fault b p field = None"
  by (simp add: id_fault_def readable_id_def)

text \<open>The host a \<^verbatim>\<open>session\<close> message names can be resolved.\<close>

definition resolvable :: "boost \<Rightarrow> json_object \<Rightarrow> bool" where
  "resolvable b data \<longleftrightarrow>
     (\<forall>p host sp. map_of data ''action'' = Some (JString ''session'') \<and> map_of data ''params'' = Some (JObject p) \<and>
        map_of p ''host'' = Some (JString host) \<and> map_of p ''sessions_port'' = Some (JInt64 sp) \<longrightarrow>
        resolve b host (decimal (unat sp)))"

lemma typed_faults:
  assumes "map_of (rq_data rq) ''params'' = Some (JObject p)"
  shows "has_kind b (JString s) Identifier \<Longrightarrow> map_of p ''client_id'' = Some (JString s) \<Longrightarrow> channel_fault complaint b rq = None"
    and "has_kind b (JString s) Identifier \<Longrightarrow> map_of p ''client_id'' = Some (JString s) \<Longrightarrow> member_fault b rq = None"
    and "readable_id b s \<Longrightarrow> readable_id b t \<Longrightarrow> map_of p ''from_client_id'' = Some (JString s) \<Longrightarrow>
      map_of p ''to_client_id'' = Some (JString t) \<Longrightarrow> send_fault b rq = None"
    and "is_subscribed_fault b rq = None"
    and "map_of p ''sessions_port'' = Some (JInt64 m) \<Longrightarrow> map_of p ''clients_port'' = Some (JInt64 n) \<Longrightarrow>
      register_fault b rq = None"
    and "map_of p ''host'' = Some (JString host) \<Longrightarrow> map_of p ''sessions_port'' = Some (JInt64 m) \<Longrightarrow>
      map_of p ''clients_port'' = Some (JInt64 n) \<Longrightarrow>
      session_fault b rq w = None \<or> session_fault b rq w = Some Resolve_failure \<and> \<not> resolve b host (decimal (unat m))"
  using assms
  by (simp_all add: channel_fault_def member_fault_def send_fault_def is_subscribed_fault_def register_fault_def
      session_fault_def with_params_def peer_id_fault_def readable_no_fault number_fault_def resolve_fault_def
      split: option.split json.split)

lemma typed_dispatch:
  assumes "map_of (rq_data rq) ''params'' = Some (JObject p)" and "has_fields b p (schema action)"
    and "map_of (rq_data rq) ''action'' = Some (JString action)"
  shows "dispatch_fault b action rq w = None \<or> dispatch_fault b action rq w = Some Resolve_failure \<and> \<not> resolvable b (rq_data rq)"
proof -
  note f = typed_faults [OF assms(1)]
  let ?members = "{''broadcast'', ''publish'', ''subscribe'', ''unsubscribe'', ''join'', ''leave''}"
  consider "action \<in> ?members" | "action = ''send''" | "action = ''is_subscribed''" | "action = ''register''"
    | "action = ''session''"
    | "action \<notin> ?members" "action \<noteq> ''send''" "action \<noteq> ''is_subscribed''" "action \<noteq> ''register''"
      "action \<noteq> ''session''"
    by argo
  then show ?thesis
  proof cases
    case 1
    then have "has_fields b p [(''client_id'', Identifier)]"
      using assms(2) by (elim insertE emptyE) (simp_all add: schema_def)
    then have "channel_fault c b rq = None" "member_fault b rq = None" for c using f(1,2) by auto
    with 1 show ?thesis by (elim insertE emptyE) (simp_all add: dispatch_fault_def)
  next
    case 2
    with assms(2) f(3) show ?thesis by (auto simp: dispatch_fault_def schema_def)
  next
    case 3
    with f(4) show ?thesis by (simp add: dispatch_fault_def)
  next
    case 4
    with assms(2) f(5) show ?thesis by (auto simp: dispatch_fault_def schema_def)
  next
    case 5
    with assms(2) obtain host m n where p: "map_of p ''host'' = Some (JString host)"
      "map_of p ''sessions_port'' = Some (JInt64 m)" "map_of p ''clients_port'' = Some (JInt64 n)"
      by (auto simp: schema_def)
    from f(6) [OF p, of b w] 5 assms(1,3) p show ?thesis by (auto simp: dispatch_fault_def resolvable_def)
  next
    case 6
    then show ?thesis by (simp add: dispatch_fault_def)
  qed
qed

lemma untyped_dispatch:
  assumes "schema action = []"
  shows "dispatch_fault b action rq w = None"
  using assms by (auto simp: dispatch_fault_def schema_def split: if_splits)

lemma typed_kernel:
  assumes "typed b data"
  shows "kernel_fault b data ctx i w = None \<or> kernel_fault b data ctx i w = Some Resolve_failure \<and> \<not> resolvable b data"
proof (cases "\<exists>s action. map_of data ''transaction_id'' = Some (JString s) \<and> map_of data ''action'' = Some (JString action)")
  case True
  then obtain s action where d: "map_of data ''transaction_id'' = Some (JString s)"
    "map_of data ''action'' = Some (JString action)" by blast
  with assms obtain tid where "lexical_cast_uuid b s = Some tid"
    by (auto simp: typed_def readable_id_def)
  moreover have "dispatch_fault b action (kernel_request b data ctx i tid w) (kernel_entry b w) = None \<or>
      dispatch_fault b action (kernel_request b data ctx i tid w) (kernel_entry b w) = Some Resolve_failure \<and>
      \<not> resolvable b data" for tid
  proof (cases "\<exists>p. map_of data ''params'' = Some (JObject p)")
    case True
    then obtain p where p: "map_of data ''params'' = Some (JObject p)" ..
    with assms d have "has_fields b p (schema action)" by (simp add: typed_def)
    with p d(2) typed_dispatch [of "kernel_request b data ctx i tid w" p b action "kernel_entry b w"]
    show ?thesis by (simp add: kernel_request_def)
  next
    case False
    with assms d have "schema action = []" by (auto simp: typed_def split: option.splits json.splits)
    then show ?thesis by (simp add: untyped_dispatch)
  qed
  ultimately show ?thesis using d by (auto simp: kernel_fault_def)
next
  case False
  with assms show ?thesis
    by (auto simp: kernel_fault_def typed_def readable_id_def split: option.splits json.splits)
qed

section \<open>What a node composes is typed\<close>

text \<open>
  \<open>reads_ids b a\<close>: the readers of node \<open>b\<close> read the identifiers the writer of node \<open>a\<close> writes.
  \<open>understands b a\<close>: moreover a document, if its text parses at all, is read as that document.
\<close>

definition reads_ids :: "boost \<Rightarrow> boost \<Rightarrow> bool" where
  "reads_ids b a \<longleftrightarrow> (\<forall>u. lexical_cast_uuid b (uuid_to_string a u) = Some u
     \<and> string_generator b (uuid_to_string a u) = Some u \<and> CHR 0x00 \<notin> set (uuid_to_string a u))"

definition understands :: "boost \<Rightarrow> boost \<Rightarrow> bool" where
  "understands b a \<longleftrightarrow>
     reads_ids b a \<and> (\<forall>d v. json_parse b (serialize a (JObject d)) = Some v \<longrightarrow> v = as_parsed (JObject d))"

lemma reads_own_ids: "reads_ids b b = uuid_text_ok b"
  by (simp add: reads_ids_def uuid_text_ok_def)

lemma readable_text: "reads_ids b a \<Longrightarrow> readable_id b (uuid_to_string a u)"
  by (simp add: readable_id_def reads_ids_def is_uuid_def c_str_id)

definition as_read :: "json_object \<Rightarrow> json_object" where
  "as_read d = map (\<lambda>(k, v). (k, as_parsed v)) d"

definition conforms :: "boost \<Rightarrow> json_object \<Rightarrow> bool" where
  "conforms a d \<longleftrightarrow> (\<forall>b. reads_ids b a \<longrightarrow> typed b (as_read d))"

lemma as_parsed_String: "as_parsed v = JString s \<longleftrightarrow> v = JString s"
  by (cases v) auto

lemma map_of_read: "map_of (as_read d) key = map_option as_parsed (map_of d key)"
  by (induction d) (auto simp: as_read_def)

lemma port_parsed [simp]: "as_parsed (JUint64 (ucast (n :: ushort))) = JInt64 (ucast n)"
  by (simp del: power_numeral)

lemma port_bound [simp]: "(ucast (n :: ushort) :: 64 word) < 65536"
proof -
  have "unat n < 65536" using unsigned_less [of n] by simp
  then have "unat (ucast n :: 64 word) < 65536" by (simp add: unsigned_ucast_eq take_bit_eq_mod)
  then show ?thesis by (simp add: word_less_nat_alt)
qed

lemma conformsI: "(\<And>r. reads_ids r b \<Longrightarrow> typed r (as_read d)) \<Longrightarrow> conforms b d"
  by (simp add: conforms_def)

lemma conforms_objects:
  "conforms b (make_broadcast_request_object b rq i p)"
  "conforms b (make_publish_request_object b rq i ch p)"
  "conforms b (make_subscribe_request_object b rq i ch)"
  "conforms b (make_unsubscribe_request_object b rq i ch)"
  "conforms b (send_object b tid frm to p)"
  "conforms b (join_object b tid i)"
  "conforms b (leave_object b tid i)"
  "conforms b (register_object b tid cfg)"
  "conforms b (unprocessable_object now t)"
  "conforms b (session_notice b w s tid)"
  "conforms b (join_notice b c tid)"
  "conforms b (subscribe_notice b y tid)"
  unfolding request_object_defs send_object_def leave_object_def register_object_def unprocessable_object_def
    session_notice_def subscribe_notice_def join_object_def join_notice_def
  by (rule conformsI, simp add: typed_def schema_def map_of_read readable_text del: as_parsed.simps(1))+

lemma conforms_answer:
  assumes "well_answered b data r" and "\<not> is_ack r"
  shows "conforms b (get_data r)"
proof (rule conformsI)
  fix reader assume ids: "reads_ids reader b"
  have "map_of (get_data r) ''action'' = Some (JString ''ack'') \<and>
      (map_of (get_data r) ''transaction_id'' = Some JNull \<or>
       (\<exists>u. map_of (get_data r) ''transaction_id'' = Some (JString (uuid_to_string b u))))"
    using assms
    by (auto simp: well_answered_def answered_def failed_document_def Response.acknowledges_def get_data_def
        split: if_splits)
  then show "typed reader (as_read (get_data r))"
    using readable_text [OF ids] by (auto simp: typed_def map_of_read schema_def split: option.split json.split)
qed

end
