(* ===== verification/Provenance.thy ===== *)
theory Provenance
  imports Isolation Network Messages
begin

text \<open>
  Where the clients and subscriptions of a registry come from. A client is in a node's registry because
  the node's own listener accepted it, or because a peer announced it in a \<^verbatim>\<open>join\<close> message; a
  subscription belongs to a client the listener accepted, or a peer announced it in a \<^verbatim>\<open>subscribe\<close>
  message; and a node announces only clients its own listener accepted, never one it heard of from a peer.
  All this is one invariant, \<open>sourced b J w\<close>: \<open>J sid i topic\<close> says which client \<open>i\<close> (\<open>None\<close>) and which
  subscription of it (\<open>Some channel\<close>) may stand under the session \<open>sid\<close>, the node's own identifier
  standing for its listener. The invariant also says that every document on its way to a peer has the
  types of \<open>Messages\<close>. Composed over the wires of a network, what a node knows through a connected session
  belongs to clients of the node at the other end, and no text of another node crashes it.
\<close>

section \<open>The invariant\<close>

type_synonym source = "uuid \<Rightarrow> uuid \<Rightarrow> string option \<Rightarrow> bool"

definition honest_document :: "boost \<Rightarrow> source \<Rightarrow> json_object \<Rightarrow> bool" where
  "honest_document b J d \<longleftrightarrow> conforms b d \<and>
     (map_of d ''action'' = Some (JString ''join'') \<longrightarrow>
        (\<exists>i. J (random_uuid b 0) i None \<and>
           map_of d ''params'' = Some (JObject [(''client_id'', JString (uuid_to_string b i))]))) \<and>
     (map_of d ''action'' = Some (JString ''subscribe'') \<longrightarrow>
        (\<exists>i ch. J (random_uuid b 0) i (Some ch) \<and>
           map_of d ''params'' = Some (JObject
             [(''client_id'', JString (uuid_to_string b i)), (''channel'', JString ch)])))"

definition honest_text :: "boost \<Rightarrow> source \<Rightarrow> string \<Rightarrow> bool" where
  "honest_text b J m \<longleftrightarrow> (\<exists>d. m = text_of b d \<and> honest_document b J d)"

fun honest_op :: "boost \<Rightarrow> source \<Rightarrow> op \<Rightarrow> bool" where
  "honest_op b J (Session_on_send s m) = honest_text b J m"
| "honest_op b J (Client_accept c t) = J (random_uuid b 0) (cl_id c) None"
| "honest_op b J (Client_read c) = J (random_uuid b 0) (cl_id c) None"
| "honest_op b J _ = True"

definition sourced :: "boost \<Rightarrow> source \<Rightarrow> world \<Rightarrow> bool" where
  "sourced b J w \<longleftrightarrow>
     st_id w = random_uuid b 0 \<and> 0 < w_random w \<and> (\<forall>x\<in>set (w_pending w). honest_op b J x) \<and>
     (\<forall>c\<in>set (st_clients w). J (cl_session_id c) (cl_id c) None) \<and>
     (\<forall>x\<in>set (st_subscriptions w). J (sub_session_id x) (sub_client_id x) (Some (sub_channel x))) \<and>
     (\<forall>s\<in>set (w_live_sessions w). \<exists>n>0. ses_id s = random_uuid b n)"

lemma honest_document_mono:
  "honest_document b J d \<Longrightarrow> (\<And>sid i topic. J sid i topic \<Longrightarrow> K sid i topic) \<Longrightarrow> honest_document b K d"
  unfolding honest_document_def by blast

lemma honest_op_mono: "(\<And>sid i topic. J sid i topic \<Longrightarrow> K sid i topic) \<Longrightarrow> honest_op b J x \<Longrightarrow> honest_op b K x"
  using honest_document_mono [of b J _ K] by (cases x) (simp_all add: honest_text_def, blast)

lemma sourced_mono: "sourced b J w \<Longrightarrow> (\<And>sid i topic. J sid i topic \<Longrightarrow> K sid i topic) \<Longrightarrow> sourced b K w"
  using honest_op_mono [of J K b] by (auto simp: sourced_def)

section \<open>Discreet operations\<close>

text \<open>
  A discreet operation brings no client, subscription or session into the world and sends nothing but
  honest documents to the peers.
\<close>

definition discreet :: "boost \<Rightarrow> source \<Rightarrow> world \<Rightarrow> world \<Rightarrow> bool" where
  "discreet b J v w \<longleftrightarrow>
     st_id w = st_id v \<and> w_random v \<le> w_random w \<and> set (w_live_sessions w) \<subseteq> set (w_live_sessions v) \<and>
     set (st_clients w) \<subseteq> set (st_clients v) \<and> set (st_subscriptions w) \<subseteq> set (st_subscriptions v) \<and>
     (\<forall>x\<in>set (w_pending w). x \<in> set (w_pending v) \<or> honest_op b J x)"

lemma sourced_discreet: "sourced b J v \<Longrightarrow> discreet b J v w \<Longrightarrow> sourced b J w"
  unfolding sourced_def discreet_def by (intro conjI; elim conjE) (simp | blast)+

lemma discreet_trans: "discreet b J u v \<Longrightarrow> discreet b J v w \<Longrightarrow> discreet b J u w"
  unfolding discreet_def by (intro conjI; elim conjE) (simp | blast)+

lemma discreet_basic:
  "discreet b J w w"
  "discreet b J w (snd (draw_uuid b w))"
  "discreet b J w (snd (read_clock b w))"
  "discreet b J w (next_reply b rq m d w)"
  "discreet b J w (mark_as_invalid b rq f a w)"
  "discreet b J w (respond_failed b tid ts bag w)"
  "discreet b J w (w\<lparr>w_response := r\<rparr>)"
  "discreet b J w (w\<lparr>w_attempts := n\<rparr>)"
  "discreet b J w (update_session s f' w)"
  "discreet b J w (update_client c g w)"
  "discreet b J w (w\<lparr>st_config := cfg\<rparr>)"
  "discreet b J w (w\<lparr>w_input := i\<rparr>)"
  "discreet b J w (w\<lparr>w_output := o'\<rparr>)"
  by (simp_all add: discreet_def device_defs next_reply_def mark_as_invalid_def respond_failed_def Let_def)

lemma discreet_members:
  "discreet b J w (set_sessions_port s p w)"
  "discreet b J w (set_clients_port s p w)"
  "discreet b J w (set_host s h w)"
  "discreet b J w (mark_as_registered s w)"
  "discreet b J w (set_socket c w)"
  by (simp_all add: object_defs discreet_basic)

lemma discreet_registration:
  "discreet b J w (snd (unsubscribe s c ch w))"
  "discreet b J w (snd (remove_client i w))"
  "discreet b J w (snd (remove_session i w))"
  "discreet b J w (snd (add_session x w))"
  "discreet b J w (remove_state_of_session i w)"
  using set_remove1_subset [of _ "st_subscriptions w"]
  by (auto simp: discreet_def registration_defs case_prod_beta Let_def mi_erase_range_def
      split: option.splits dest: in_set_takeD in_set_dropD)

lemma discreet_post: "discreet b J v w \<Longrightarrow> list_all (honest_op b J) xs \<Longrightarrow> discreet b J v (post xs w)"
  by (auto simp: discreet_def list_all_iff)

lemma honest_deliveries:
  "honest_document b J d \<Longrightarrow> list_all (honest_op b J) (session_deliveries w ss (text_of b d))"
  "list_all (honest_op b J) (client_deliveries w cs m)"
  by (auto simp: list_all_iff session_deliveries_def client_deliveries_def honest_text_def)

lemma honest_objects:
  "honest_document b J (make_broadcast_request_object b rq i p)"
  "honest_document b J (make_publish_request_object b rq i ch p)"
  "honest_document b J (make_unsubscribe_request_object b rq i ch)"
  "honest_document b J (send_object b tid frm to p)"
  "honest_document b J (leave_object b tid i)"
  "honest_document b J (register_object b tid cfg)"
  "honest_document b J (unprocessable_object now t)"
  "honest_document b J (session_notice b w s tid)"
  by (simp_all add: honest_document_def conforms_objects)
    (simp_all add: request_object_defs send_object_def leave_object_def register_object_def
      unprocessable_object_def session_notice_def)

lemma honest_announcements:
  "J (random_uuid b 0) i None \<Longrightarrow> honest_document b J (join_object b tid i)"
  "J (random_uuid b 0) (cl_id c) None \<Longrightarrow> honest_document b J (join_notice b c tid)"
  "J (random_uuid b 0) i (Some ch) \<Longrightarrow> honest_document b J (make_subscribe_request_object b rq i ch)"
  "J (random_uuid b 0) (sub_client_id y) (Some (sub_channel y)) \<Longrightarrow> honest_document b J (subscribe_notice b y tid)"
  by (simp_all add: honest_document_def conforms_objects)
    (auto simp: join_object_def join_notice_def request_object_defs subscribe_notice_def)

lemma discreet_sending:
  "honest_document b J d \<Longrightarrow> discreet b J w (snd (send_to_sessions b d w))"
  "discreet b J w (snd (send_to_others_clients b d sid cid w))"
  "honest_document b J d \<Longrightarrow> discreet b J w (snd (send_to_subscribed_sessions b d ch w))"
  "discreet b J w (send_to_session b sid frm to p w)"
  "discreet b J w (snd (leave_to_sessions b i w))"
  "honest_document b J d \<Longrightarrow> discreet b J w (session_send s (text_of b d) w)"
  "discreet b J w (client_send c m w)"
  "discreet b J w (send_object_to_client b c frm p w)"
  unfolding send_eqs session_send_post client_send_post send_object_to_client_eq snd_conv
  by (intro discreet_post discreet_basic honest_deliveries honest_objects; assumption?)+

lemma discreet_forwarding:
  "discreet b J w (snd (broadcast_to_sessions b rq i d w))"
  "discreet b J w (snd (broadcast_to_clients b rq sid i d w))"
  "discreet b J w (snd (publish_to_sessions b rq i ch d w))"
  "discreet b J w (snd (publish_to_clients b rq sid i ch d w))"
  "discreet b J w (snd (unsubscribe_to_sessions b rq i ch w))"
  "J (random_uuid b 0) i (Some ch) \<Longrightarrow> discreet b J w (snd (subscribe_to_sessions b rq i ch w))"
  by (simp_all add: forward_defs discreet_sending honest_objects honest_announcements)

lemma discreet_initiate: "honest_op b J x \<Longrightarrow> discreet b J w (initiate x w)"
  by (simp add: initiate_post discreet_post discreet_basic)

lemma discreet_run: "discreet b J w (session_run s ctx w)"
  by (simp add: session_run_def discreet_initiate)

section \<open>Handlers\<close>

lemma keeps_discreet: "(\<And>w. discreet b J w (f w)) \<Longrightarrow> keeps (sourced b J) (modify f)"
  by (auto intro: keeps_modify sourced_discreet)

lemma keeps_discreet_call: "(\<And>w. discreet b J w (snd (f w))) \<Longrightarrow> keeps (sourced b J) (call f)"
  by (auto intro: keeps_call sourced_discreet)

lemma keeps_sourced_reply: "keeps (sourced b J) (reply b rq m d)"
  unfolding reply_def by (intro keeps_discreet discreet_basic)

lemma keeps_sourced_id: "keeps (sourced b J) (id_validator b rq p field)"
  by (auto simp: keeps_def id_validator_eq split: option.splits intro: sourced_discreet discreet_basic)

context param_validator
begin

lemma validate_sourced: "keeps (sourced b J) (validate b rq)"
proof (rule keepsI)
  fix w assume "sourced b J w"
  then show "sourced b J (snd (validate b rq w))"
    by (cases rule: validate_cases [where b = b and rq = rq and w = w])
      (auto intro: sourced_discreet discreet_basic)
qed

end

lemmas keeps_sourced_validators = broadcast_v.validate_sourced is_subscribed_v.validate_sourced
  publish_v.validate_sourced register_v.validate_sourced send_v.validate_sourced session_v.validate_sourced
  subscriptions_v.validate_sourced

lemmas keeps_sourced_rules = keeps_if keeps_lift keeps_return keeps_case_option keeps_case_context
  keeps_sourced_reply keeps_sourced_id keeps_sourced_validators keeps_discreet keeps_discreet_call
  discreet_basic discreet_members discreet_registration discreet_forwarding(1-5) discreet_run
  discreet_sending(2,4,5,7,8) keeps_gets keeps_bind

lemma keeps_sourced_simple:
  "keeps (sourced b J) (ping_handler b rq)" "keeps (sourced b J) (unimplemented_handler b rq)"
  "keeps (sourced b J) (is_subscribed_handler b rq)" "keeps (sourced b J) (broadcast_handler b rq)"
  "keeps (sourced b J) (publish_handler b rq)" "keeps (sourced b J) (send_handler b rq)"
  "keeps (sourced b J) (unsubscribe_handler b rq)"
  "keeps (sourced b J) (leave_handler b rq)"
  unfolding handler_defs by (rule keeps_sourced_rules)+

text \<open>A synchronisation announces the clients and subscriptions under the node's own identifier.\<close>

lemma honest_stamped:
  "(\<And>f tid. f \<in> set fs \<Longrightarrow> honest_document b J (f tid)) \<Longrightarrow> d \<in> set (stamped b n fs) \<Longrightarrow> honest_document b J d"
  by (induction fs arbitrary: n) auto

lemma honest_notices:
  assumes "sourced b J w" and "f \<in> set (sync_notices b w s registered)"
  shows "honest_document b J (f tid)"
proof -
  from assms(2) consider x where "f = session_notice b w x"
    | c where "f = join_notice b c" "c \<in> set (local_clients w)"
    | y where "f = subscribe_notice b y" "y \<in> set (local_subscriptions w)"
    by (auto simp: sync_notices_def split: if_splits)
  then show ?thesis
  proof cases
    case (2 c)
    then have "J (random_uuid b 0) (cl_id c) None" using assms(1) by (auto simp: local_clients_def sourced_def)
    with 2 show ?thesis by (simp add: honest_announcements)
  next
    case (3 y)
    then have "J (random_uuid b 0) (sub_client_id y) (Some (sub_channel y))"
      using assms(1) by (auto simp: local_subscriptions_def sourced_def)
    with 3 show ?thesis by (simp add: honest_announcements)
  qed (simp add: honest_objects)
qed

lemma sourced_sync: "sourced b J w \<Longrightarrow> sourced b J (sync b s registered w)"
proof -
  assume w: "sourced b J w"
  let ?fs = "sync_notices b w s registered"
  have "honest_document b J d" if "d \<in> set (stamped b n ?fs)" for d n
    by (rule honest_stamped [OF _ that]) (rule honest_notices [OF w])
  then have "list_all (honest_op b J) (concat (map (\<lambda>d. session_deliveries w [s] (text_of b d)) (stamped b (w_random w) ?fs)))"
    using honest_deliveries(1) by (fastforce simp: list_all_iff)
  then have "discreet b J w (emit b s ?fs w)"
    unfolding emit_def by (auto simp: discreet_def list_all_iff)
  with w show ?thesis unfolding sync_emits by (rule sourced_discreet)
qed

lemma keeps_sourced_sync: "keeps (sourced b J) (modify (sync b s registered))"
  by (auto intro: keeps_modify sourced_sync)

lemma keeps_sourced_register: "keeps (sourced b J) (register_handler b rq)"
  unfolding register_handler_def
  by (rule keeps_sourced_sync keeps_sourced_rules | assumption)+

lemma keeps_sourced_connect: "keeps (sourced b J) (connect_until_open b host service)"
  by (auto simp: keeps_def connect_until_open_def intro: sourced_discreet discreet_basic split: option.splits)

lemma sourced_make_session: "sourced b J w \<Longrightarrow> sourced b J (snd (make_session b w))"
  by (auto simp: sourced_def make_session_def new_session_def draw_uuid_def Let_def)

lemma keeps_sourced_make: "keeps (sourced b J) (call (make_session b))"
  by (auto intro: keeps_call sourced_make_session)

lemma keeps_sourced_session: "keeps (sourced b J) (session_handler b rq)"
  unfolding session_handler_def
  by (rule keeps_sourced_make keeps_sourced_connect keeps_sourced_rules)+

text \<open>A \<^verbatim>\<open>join\<close> message brings the client it names, under the session it came through.\<close>

lemma sourced_joins:
  assumes "sourced b J w" and "J i k None"
  shows "sourced b J (snd (add_client (fst (new_client i k w)) (snd (new_client i k w))))"
  using assms
  by (auto simp: sourced_def add_client_def case_prod_beta clients_insert_eq new_client_def Let_def)

lemma keeps_bind_lift:
  "(\<And>a. r = Ok a \<Longrightarrow> keeps P (f a)) \<Longrightarrow> keeps P (bind_eff (lift_outcome r) f)"
  by (cases r) (simp_all add: keeps_def)

lemma keeps_sourced_joins:
  assumes "J i k None" and "\<And>x. keeps (sourced b J) (f x)"
  shows "keeps (sourced b J) (bind_eff (call (new_client i k)) (\<lambda>c. bind_eff (call (add_client c)) f))"
  using assms sourced_joins by (simp add: keeps_def)

lemma keeps_sourced_join:
  assumes "\<And>p k. rq_context rq = On_session \<Longrightarrow> get_params rq = Ok p \<Longrightarrow> get_param_as_id b p ''client_id'' = Ok k \<Longrightarrow>
    J (rq_entity_id rq) k None"
  shows "keeps (sourced b J) (join_handler b rq)"
proof (cases "rq_context rq")
  case On_session
  show ?thesis
    unfolding join_handler_def On_session kernel_context.simps
    by (rule keeps_bind_lift keeps_sourced_joins assms On_session keeps_sourced_rules | assumption)+
next
  case On_client
  then show ?thesis by (simp add: join_handler_def keeps_sourced_reply)
qed

text \<open>\<^verbatim>\<open>subscribe\<close> brings a subscription: of the client that sends it, or of the one a peer names.\<close>

lemma keeps_sourced_subscribes:
  assumes "J sid i (Some ch)"
  shows "keeps (sourced b J) (call (subscribe sid i ch))"
  using assms by (auto simp: keeps_def sourced_def subscribe_def case_prod_beta subscriptions_insert_eq)

lemma keeps_own_id:
  assumes "keeps (sourced b J) (f (random_uuid b 0))"
  shows "keeps (sourced b J) (bind_eff (gets get_id) f)"
proof (rule keepsI)
  fix w assume w: "sourced b J w"
  then have "bind_eff (gets get_id) f w = f (random_uuid b 0) w" by (simp add: get_id_def sourced_def bind_eff_apply)
  with keepsD [OF assms w] show "sourced b J (snd (bind_eff (gets get_id) f w))" by simp
qed

lemma keeps_sourced_subscribe:
  assumes client: "\<And>p ch. rq_context rq = On_client \<Longrightarrow> get_params rq = Ok p \<Longrightarrow>
      get_param_as_string p ''channel'' = Ok ch \<Longrightarrow> J (random_uuid b 0) (rq_entity_id rq) (Some ch)"
    and peer: "\<And>p k ch. rq_context rq = On_session \<Longrightarrow> get_params rq = Ok p \<Longrightarrow>
      get_param_as_id b p ''client_id'' = Ok k \<Longrightarrow> get_param_as_string p ''channel'' = Ok ch \<Longrightarrow>
      J (rq_entity_id rq) k (Some ch)"
  shows "keeps (sourced b J) (subscribe_handler b rq)"
proof (cases "rq_context rq")
  case On_session
  show ?thesis
    unfolding subscribe_handler_def On_session kernel_context.simps
    by (rule keeps_bind_lift keeps_sourced_subscribes peer On_session keeps_sourced_rules | assumption)+
next
  case On_client
  have sends: "keeps (sourced b J) (call (subscribe_to_sessions b rq (rq_entity_id rq) ch))"
    if "J (random_uuid b 0) (rq_entity_id rq) (Some ch)" for ch
    using that by (intro keeps_discreet_call discreet_forwarding)
  show ?thesis
    unfolding subscribe_handler_def On_client kernel_context.simps
    by (rule keeps_bind_lift keeps_own_id keeps_sourced_subscribes sends client On_client keeps_sourced_rules | assumption)+
qed

text \<open>
  \<open>announces b data k topic\<close>: the document of a peer announces client \<open>k\<close>, or its subscription to a channel.
  \<open>asks data ch\<close>: the document of a client asks for a subscription to the channel.
\<close>

definition announces :: "boost \<Rightarrow> json_object \<Rightarrow> uuid \<Rightarrow> string option \<Rightarrow> bool" where
  "announces b data k topic \<longleftrightarrow>
     (\<exists>p. map_of data ''params'' = Some (JObject p) \<and> get_param_as_id b p ''client_id'' = Ok k \<and>
        (case topic of
           None \<Rightarrow> map_of data ''action'' = Some (JString ''join'')
         | Some ch \<Rightarrow> map_of data ''action'' = Some (JString ''subscribe'') \<and> map_of p ''channel'' = Some (JString ch)))"

definition asks :: "json_object \<Rightarrow> string \<Rightarrow> bool" where
  "asks data ch \<longleftrightarrow> map_of data ''action'' = Some (JString ''subscribe'') \<and>
     (\<exists>p. map_of data ''params'' = Some (JObject p) \<and> map_of p ''channel'' = Some (JString ch))"

lemma keeps_sourced_dispatch:
  assumes "map_of (rq_data rq) ''action'' = Some (JString action)"
    and "\<And>ch. rq_context rq = On_client \<Longrightarrow> asks (rq_data rq) ch \<Longrightarrow> J (random_uuid b 0) (rq_entity_id rq) (Some ch)"
    and "\<And>k topic. rq_context rq = On_session \<Longrightarrow> announces b (rq_data rq) k topic \<Longrightarrow> J (rq_entity_id rq) k topic"
  shows "keeps (sourced b J) (dispatch b action rq)"
proof -
  have join: "keeps (sourced b J) (join_handler b rq)" if "action = ''join''"
    using assms(1) that by (intro keeps_sourced_join assms(3)) (auto simp: announces_def)
  have subscribe: "keeps (sourced b J) (subscribe_handler b rq)" if "action = ''subscribe''"
    using assms(1) that by (intro keeps_sourced_subscribe assms(2,3)) (auto simp: announces_def asks_def)
  show ?thesis
    unfolding dispatch_def using join subscribe
    by (auto intro!: keeps_sourced_simple keeps_sourced_register keeps_sourced_session keeps_discreet discreet_basic)
qed

lemma keeps_sourced_kernel:
  assumes "\<And>ch. ctx = On_client \<Longrightarrow> asks data ch \<Longrightarrow> J (random_uuid b 0) i (Some ch)"
    and "\<And>k topic. ctx = On_session \<Longrightarrow> announces b data k topic \<Longrightarrow> J i k topic"
  shows "keeps (sourced b J) (kernel b data ctx i)"
proof -
  have d: "keeps (sourced b J) (bind_eff (lift_outcome (get_param_as_string data ''action'')) (\<lambda>action.
      dispatch b action \<lparr>rq_transaction_id = tid, rq_entity_id = i, rq_context = ctx, rq_data = data,
        rq_timestamp = ts, rq_is_local = False\<rparr>))" for tid ts
    using assms by (intro keeps_bind_lift keeps_sourced_dispatch) simp_all
  show ?thesis
    unfolding kernel_def kernel_rejected_def
    by (rule d keeps_sourced_rules)+
qed

section \<open>Callbacks\<close>

lemma honest_answer: "well_answered b data r \<Longrightarrow> \<not> is_ack r \<Longrightarrow> honest_document b J (get_data r)"
proof -
  assume r: "well_answered b data r" "\<not> is_ack r"
  then have "map_of (get_data r) ''action'' = Some (JString ''ack'')"
    by (auto simp: well_answered_def answered_def failed_document_def Response.acknowledges_def get_data_def
        split: if_splits)
  with conforms_answer [OF r] show ?thesis by (simp add: honest_document_def)
qed

lemma keeps_sourced_send: "honest_document b J d \<Longrightarrow> keeps (sourced b J) (modify (session_send s (text_of b d)))"
  by (rule keeps_discreet) (rule discreet_sending)

lemma keeps_sourced_answered:
  assumes "\<And>ch. ctx = On_client \<Longrightarrow> asks data ch \<Longrightarrow> J (random_uuid b 0) i (Some ch)"
    and "\<And>k topic. ctx = On_session \<Longrightarrow> announces b data k topic \<Longrightarrow> J i k topic"
    and "\<And>r. well_answered b data r \<Longrightarrow> keeps (sourced b J) (f r)"
  shows "keeps (sourced b J) (bind_eff (kernel b data ctx i) f)"
proof (rule keepsI)
  fix w assume w: "sourced b J w"
  have "keeps (sourced b J) (kernel b data ctx i)" using assms(1,2) by (rule keeps_sourced_kernel)
  with w have k: "sourced b J (snd (kernel b data ctx i w))" by (simp add: keepsD)
  show "sourced b J (snd (bind_eff (kernel b data ctx i) f w))"
  proof (cases "fst (kernel b data ctx i w)")
    case (Ok r)
    then have "kernel b data ctx i w = (Ok r, snd (kernel b data ctx i w))" by (simp add: prod_eq_iff)
    from assms(3) [OF kernel_well_answered(1) [OF this]] k Ok show ?thesis
      by (simp add: bind_eff_apply keeps_def)
  qed (use k in \<open>simp_all add: bind_eff_apply\<close>)
qed

lemma discreet_unprocessable:
  "discreet b J w (session_unprocessable b s t w)" "discreet b J w (client_unprocessable b c t w)"
  "discreet b J w (client_welcome b c t w)" "discreet b J w (session_register b s w)"
proof -
  show "discreet b J w (session_unprocessable b s t w)" "discreet b J w (client_unprocessable b c t w)"
    "discreet b J w (client_welcome b c t w)"
    unfolding session_unprocessable_def client_unprocessable_def client_welcome_def Let_def case_prod_beta
    by (rule discreet_trans [OF discreet_trans [OF discreet_basic(3) discreet_basic(2)]]
        discreet_trans [OF discreet_basic(3)], rule discreet_sending, (rule honest_objects)?)+
  let ?v = "snd (draw_uuid b w)"
  have "discreet b J w (?v\<lparr>st_config := (st_config ?v)\<lparr>cfg_registered := True\<rparr>\<rparr>)"
    by (rule discreet_trans [OF discreet_basic(2) discreet_basic(11)])
  from discreet_trans [OF this discreet_sending(6)] show "discreet b J w (session_register b s w)"
    by (simp add: session_register_def case_prod_beta Let_def honest_objects)
qed

lemma discreet_posted:
  "discreet b J w (session_on_run s ctx w)" "discreet b J w (session_do_read s w)"
  "discreet b J w (session_on_send s m w)" "discreet b J w (client_on_send c m w)"
proof -
  show "discreet b J w (session_on_run s ctx w)" "discreet b J w (session_do_read s w)"
    by (simp_all add: session_on_run_def session_do_read_def discreet_initiate split: session_context.split)
  have s: "discreet b J w (initiate (Session_write s x) (update_session s g w))"
    and c: "discreet b J w (initiate (Client_write c x) (update_client c h w))" for x g h
    by (rule discreet_trans [OF discreet_basic(9) discreet_initiate] discreet_trans [OF discreet_basic(10) discreet_initiate],
        simp)+
  show "discreet b J w (session_on_send s m w)" "discreet b J w (client_on_send c m w)"
    using s c by (simp_all add: session_on_send_def client_on_send_def Let_def discreet_basic split: option.split)
qed

lemma keeps_sourced_callbacks:
  "keeps (sourced b J) (session_on_accept b s ctx ec endpoint)" "keeps (sourced b J) (session_on_write s ec)"
  "keeps (sourced b J) (client_disconnected b c)" "keeps (sourced b J) (client_on_write c ec)"
  "J (random_uuid b 0) (cl_id c) None \<Longrightarrow> keeps (sourced b J) (client_do_read c)"
  "J (random_uuid b 0) (cl_id c) None \<Longrightarrow> keeps (sourced b J) (client_on_accept b c t ec)"
proof -
  have writes: "keeps (sourced b J) (modify (initiate (Session_write s m)))"
    "keeps (sourced b J) (modify (initiate (Client_write c m)))" for m
    by (rule keeps_discreet, rule discreet_initiate, simp)+
  note rules = writes discreet_posted discreet_unprocessable keeps_sourced_rules
  show "keeps (sourced b J) (session_on_accept b s ctx ec endpoint)" "keeps (sourced b J) (session_on_write s ec)"
    unfolding session_on_accept_def session_on_write_def by (rule rules)+
  show gone: "keeps (sourced b J) (client_disconnected b c)" and "keeps (sourced b J) (client_on_write c ec)"
    unfolding client_disconnected_def client_on_write_def case_prod_beta by (rule rules)+
  assume own: "J (random_uuid b 0) (cl_id c) None"
  then have "keeps (sourced b J) (modify (initiate (Client_read c)))"
    by (intro keeps_discreet discreet_initiate) simp
  then show read: "keeps (sourced b J) (client_do_read c)"
    unfolding client_do_read_def by (intro keeps_bind keeps_gets keeps_case_option keeps_lift)
  show "keeps (sourced b J) (client_on_accept b c t ec)"
    unfolding client_on_accept_def by (rule gone read rules)+
qed

lemma keeps_sourced_session_read:
  assumes "\<And>m data k topic. r = Read_text m \<Longrightarrow> json_parse b m = Some (JObject data) \<Longrightarrow>
    announces b data k topic \<Longrightarrow> J (ses_id s) k topic"
  shows "keeps (sourced b J) (session_on_read b s r)"
proof (cases r)
  case (Read_text m)
  have answer: "keeps (sourced b J) (bind_eff (kernel b data On_session (ses_id s)) (\<lambda>response.
      if \<not> is_ack response then modify (session_send s (serialize b (JObject (get_data response)))) else return ()))"
    if "json_parse b m = Some (JObject data)" for data
    using assms that Read_text honest_answer
    by (intro keeps_sourced_answered) (auto simp: keeps_return intro: keeps_sourced_send)
  have failed: "keeps (sourced b J) (modify (session_unprocessable b s t))" for t
    by (intro keeps_discreet discreet_unprocessable)
  have "keeps (sourced b J) (case json_parse b m of
      Some (JObject data) \<Rightarrow>
        bind_eff (kernel b data On_session (ses_id s)) (\<lambda>response.
        if \<not> is_ack response then modify (session_send s (serialize b (JObject (get_data response)))) else return ())
    | _ \<Rightarrow> modify (session_unprocessable b s t))" for t
    using answer failed by (auto split: option.split json.split)
  then show ?thesis
    unfolding session_on_read_def Read_text read_result.simps
    by (intro keeps_bind keeps_discreet_call keeps_discreet discreet_basic discreet_posted)
qed (simp_all add: session_on_read_def keeps_bind keeps_return keeps_discreet_call discreet_registration)

lemma keeps_sourced_client_read:
  assumes own: "J (random_uuid b 0) (cl_id c) None"
    and asked: "\<And>m data ch. r = Read_text m \<Longrightarrow> json_parse b m = Some (JObject data) \<Longrightarrow> asks data ch \<Longrightarrow>
      J (random_uuid b 0) (cl_id c) (Some ch)"
  shows "keeps (sourced b J) (client_on_read b c r)"
proof (cases r)
  case (Read_text m)
  have answer: "keeps (sourced b J) (bind_eff (kernel b data On_client (cl_id c)) (\<lambda>response.
      modify (client_send c (serialize b (JObject (get_data response))))))"
    if "json_parse b m = Some (JObject data)" for data
    using asked [OF Read_text that] by (intro keeps_sourced_answered keeps_discreet discreet_sending) simp_all
  have failed: "keeps (sourced b J) (modify (client_unprocessable b c t))" for t
    by (intro keeps_discreet discreet_unprocessable)
  have "keeps (sourced b J) (case json_parse b m of
      Some (JObject data) \<Rightarrow>
        bind_eff (kernel b data On_client (cl_id c)) (\<lambda>response.
        modify (client_send c (serialize b (JObject (get_data response)))))
    | _ \<Rightarrow> modify (client_unprocessable b c t))" for t
    using answer failed by (auto split: option.split json.split)
  then show ?thesis
    unfolding client_on_read_def Read_text read_result.simps
    by (intro keeps_bind keeps_discreet_call keeps_sourced_callbacks own discreet_basic)
qed (simp_all add: client_on_read_def keeps_sourced_callbacks)

section \<open>Listeners, console and start\<close>

lemma discreet_print: "discreet b J w (fold print_text ls w)"
  by (induction ls arbitrary: w) (auto simp: print_text_def intro: discreet_trans [OF discreet_basic(13)] discreet_basic)

lemma discreet_console: "discreet b J w (repl_read b' err n w)" "discreet b J w (repl_write err w)"
  "discreet b J w (type_input s w)"
proof -
  have line: "discreet b J w (initiate (Repl_write m) (fold print_text ls (w\<lparr>w_input := x\<rparr>)))"
    "discreet b J w (fold print_text ls (w\<lparr>w_input := x\<rparr>))" for m ls x
    using discreet_trans [OF discreet_trans [OF discreet_basic(12) discreet_print] discreet_initiate]
      discreet_trans [OF discreet_basic(12) discreet_print] by simp_all
  show "discreet b J w (repl_read b' err n w)"
    using line [where ls = "[]"] line
    by (cases err) (simp_all add: repl_read_def Let_def print_text_def discreet_basic)
  show "discreet b J w (repl_write err w)" "discreet b J w (type_input s w)"
    by (cases err; simp add: repl_write_def repl_start_def print_text_def discreet_basic discreet_initiate)
      (simp add: type_input_def discreet_basic)
qed

lemma keeps_sourced_listen_session:
  "keeps (sourced b J) (session_listener_on_accept b ec)"
  unfolding session_listener_on_accept_def session_listener_do_accept_def
  by (rule keeps_sourced_make keeps_discreet [OF discreet_initiate] keeps_sourced_rules | simp)+

lemma discreet_listen: "discreet b J w (client_listener_do_accept w)" "discreet b J w (session_listener_do_accept w)"
  "J (random_uuid b 0) (cl_id c) None \<Longrightarrow> discreet b J w (client_run b' c w)"
proof -
  show "discreet b J w (client_listener_do_accept w)" "discreet b J w (session_listener_do_accept w)"
    by (simp_all add: client_listener_do_accept_def session_listener_do_accept_def discreet_initiate)
  assume "J (random_uuid b 0) (cl_id c) None"
  then have "discreet b J w (initiate (Client_accept c t) (snd (read_clock b' w)))" "discreet b J w (snd (read_clock b' w))" for t
    using discreet_initiate [of b J "Client_accept c t" "snd (read_clock b' w)"]
    by (simp_all add: discreet_def read_clock_def)
  then show "discreet b J w (client_run b' c w)"
    by (simp add: client_run_def case_prod_beta Let_def split: option.split)
qed

lemma sourced_listen_client:
  assumes w: "sourced b J w" and new: "\<not> ec \<Longrightarrow> J (random_uuid b 0) (random_uuid b (w_random w)) None"
  shows "sourced b J (snd (client_listener_on_accept b ec w))"
proof (cases ec)
  case True
  then show ?thesis using sourced_discreet [OF w discreet_listen(1)] by (simp add: client_listener_on_accept_def)
next
  case False
  let ?c = "fst (make_client b (st_id w) w)" and ?v = "snd (make_client b (st_id w) w)"
  have id: "cl_id ?c = random_uuid b (w_random w)" "cl_session_id ?c = st_id w"
    by (simp_all add: make_client_def new_client_def draw_uuid_def Let_def)
  have J: "J (random_uuid b 0) (cl_id ?c) None" using new [OF False] id by simp
  have "sourced b J ?v" using w by (auto simp: sourced_def make_client_def new_client_def draw_uuid_def Let_def)
  then have "sourced b J (set_socket ?c ?v)" using discreet_members(5) by (rule sourced_discreet)
  then have added: "sourced b J (snd (add_client ?c (set_socket ?c ?v)))" (is "sourced b J ?u")
    using J id w by (auto simp: sourced_def add_client_def case_prod_beta clients_insert_eq)
  have "discreet b J ?u (snd (join_to_sessions b (cl_id ?c) ?u))"
    unfolding join_to_sessions_eq snd_conv using J
    by (intro discreet_post discreet_basic honest_deliveries honest_announcements)
  from sourced_discreet [OF sourced_discreet [OF sourced_discreet [OF added this] discreet_listen(3) [where J = J, OF J]] discreet_listen(1)]
  show ?thesis using False by (simp add: client_listener_on_accept_def bind_eff_apply get_id_def)
qed

lemma sourced_destroy: "sourced b J w \<Longrightarrow> sourced b J (destroy_session s w)"
proof -
  assume w: "sourced b J w"
  have "set (remove1 s xs) \<subseteq> set xs" for xs by (rule set_remove1_subset)
  then have "discreet b J w (destroy_session s w)"
    using discreet_registration(5) [of b J w "ses_id s"] by (force simp: discreet_def destroy_session_def Let_def)
  with w show ?thesis by (rule sourced_discreet)
qed

lemma sourced_boot: "sourced b J (boot b config)"
  by (simp add: sourced_def boot_def state.extend_def world.fields_def make_state_def)

lemma keeps_sourced_start: "keeps (sourced b J) (server_start b)"
proof -
  have opens: "discreet b J w (session_listener_open b a p w)" "discreet b J w (client_listener_open b a p w)" for a p w
    by (simp_all add: session_listener_open_def client_listener_open_def Let_def discreet_basic)
  have repl: "discreet b J w (repl_start w)" for w by (simp add: repl_start_def discreet_initiate)
  have connect: "keeps (sourced b J) (server_connect b c)" for c
    unfolding server_connect_def Let_def
    by (rule keeps_sourced_make keeps_sourced_connect keeps_sourced_rules)+
  show ?thesis
    unfolding server_start_def session_listener_start_def client_listener_start_def
    by (rule connect opens repl discreet_listen(1,2) keeps_sourced_rules)+
qed

section \<open>Steps and runs\<close>

lemma sourced_without: "sourced b J w \<Longrightarrow> w_pending w = xs @ x # ys \<Longrightarrow> sourced b J (without xs ys w)"
  by (auto simp: sourced_def without_def)

lemma sourced_settled: "keeps (sourced b J) m \<Longrightarrow> sourced b J w \<Longrightarrow> settle (m w) = Running u \<Longrightarrow> sourced b J u"
  by (auto simp: settle_Running dest: keepsD)

text \<open>What the events of a run tell about the clients and subscriptions of the node.\<close>

definition own_entry :: "boost \<Rightarrow> event list \<Rightarrow> uuid \<Rightarrow> string option \<Rightarrow> bool" where
  "own_entry b es i topic \<longleftrightarrow>
     (case topic of
        None \<Rightarrow> \<exists>c. Client_accepted c \<in> set es \<and> cl_id c = i
      | Some ch \<Rightarrow> \<exists>c m data. Client_got c m \<in> set es \<and> cl_id c = i \<and> json_parse b m = Some (JObject data) \<and> asks data ch)"

definition explains :: "boost \<Rightarrow> event list \<Rightarrow> source" where
  "explains b es sid i topic \<longleftrightarrow>
     sid = random_uuid b 0 \<and> own_entry b es i topic \<or>
     (\<exists>n s m data. 0 < n \<and> sid = random_uuid b n \<and> Session_got s m \<in> set es \<and> ses_id s = sid \<and>
        json_parse b m = Some (JObject data) \<and> announces b data i topic)"

lemma explains_mono: "explains b es sid i topic \<Longrightarrow> explains b (es @ fs) sid i topic"
  unfolding explains_def own_entry_def set_append by (cases topic) (simp_all, blast+)

lemma explains_accepted: "Client_accepted c \<in> set es \<Longrightarrow> explains b es (random_uuid b 0) (cl_id c) None"
  by (auto simp: explains_def own_entry_def)

lemma explains_asked:
  "Client_got c m \<in> set es \<Longrightarrow> json_parse b m = Some (JObject data) \<Longrightarrow> asks data ch \<Longrightarrow>
     explains b es (random_uuid b 0) (cl_id c) (Some ch)"
  by (auto simp: explains_def own_entry_def)

lemma explains_got:
  assumes "Session_got s m \<in> set es" and "ses_id s = random_uuid b n" and "0 < n"
    and "json_parse b m = Some (JObject data)" and "announces b data i topic"
  shows "explains b es (ses_id s) i topic"
  using assms unfolding explains_def by blast

text \<open>What a callback prepares before it runs hides nothing: sockets, buffers and the peer's address.\<close>

lemma discreet_opened:
  "discreet b J v (set_session_open x s v)" "discreet b J v (set_client_open x c v)"
  "discreet b J v (after_session_read s r v)" "discreet b J v (after_client_read c r v)"
  by (simp_all add: set_session_open_def set_client_open_def after_session_read_def after_client_read_def discreet_basic)

lemma sourced_reads_session:
  assumes w: "sourced b (explains b (es @ [read_event s r])) w" "node_ok w" and p: "w_pending w = xs @ Session_read s # ys"
  shows "keeps (sourced b (explains b (es @ [read_event s r]))) (session_on_read b s r)"
proof -
  have "s \<in> set (w_live_sessions w)" using pending_live [OF w(2) p] by simp
  then obtain n where "0 < n" "ses_id s = random_uuid b n" using w(1) by (auto simp: sourced_def)
  then show ?thesis by (intro keeps_sourced_session_read explains_got) auto
qed

lemma sourced_reads_client:
  assumes "sourced b (explains b (es @ [client_read_event c r])) w" and "w_pending w = xs @ Client_read c # ys"
  shows "keeps (sourced b (explains b (es @ [client_read_event c r]))) (client_on_read b c r)"
proof -
  have "explains b (es @ [client_read_event c r]) (random_uuid b 0) (cl_id c) None" using assms by (simp add: sourced_def)
  then show ?thesis by (intro keeps_sourced_client_read explains_asked) auto
qed

lemma explains_listened:
  assumes "\<not> ec"
  shows "explains b (es @ [if ec then Internal else Client_accepted (accepted_client b w)])
    (random_uuid b 0) (random_uuid b (w_random (without xs ys w))) None"
proof -
  have "Client_accepted (accepted_client b w) \<in> set (es @ [if ec then Internal else Client_accepted (accepted_client b w)])"
    using assms by simp
  moreover have "cl_id (accepted_client b w) = random_uuid b (w_random (without xs ys w))"
    by (simp add: accepted_client_def without_def)
  ultimately show ?thesis using explains_accepted by fastforce
qed

lemma sourced_step:
  assumes w: "sourced b (explains b es) w" "node_ok w" and step: "node_step b w e (Running u)"
  shows "sourced b (explains b (es @ [e])) u"
proof -
  let ?J = "explains b (es @ [e])"
  have w': "sourced b ?J w" using w(1) by (rule sourced_mono) (rule explains_mono)
  note v = sourced_without [OF w'] and opened = sourced_discreet [OF sourced_without [OF w'] discreet_opened(1)]
    sourced_discreet [OF sourced_without [OF w'] discreet_opened(2)]
  have own: "?J (random_uuid b 0) (cl_id c) None" if "w_pending w = xs @ Client_accept c t # ys" for xs c t ys
    using w' that by (simp add: sourced_def)
  from step show ?thesis
  proof cases
    case (read_session xs s ys r)
    note p = read_session(3)
    have "keeps (sourced b ?J) (session_on_read b s r)"
      unfolding read_session(1) by (rule sourced_reads_session [OF w' [unfolded read_session(1)] w(2) p])
    from sourced_settled [OF this sourced_discreet [OF v [OF p] discreet_opened(3)] sym [OF read_session(2)]] show ?thesis .
  next
    case (read_client xs c ys r)
    note p = read_client(3)
    have "keeps (sourced b ?J) (client_on_read b c r)"
      unfolding read_client(1) by (rule sourced_reads_client [OF w' [unfolded read_client(1)] p])
    from sourced_settled [OF this sourced_discreet [OF v [OF p] discreet_opened(4)] sym [OF read_client(2)]] show ?thesis .
  next
    case (listen_client xs ys ec)
    have "sourced b ?J (snd (client_listener_on_accept b ec (without xs ys w)))"
      by (rule sourced_listen_client [OF v [OF listen_client(3)]], unfold listen_client(1), rule explains_listened)
    with sym [OF listen_client(2)] show ?thesis by (auto simp: settle_Running)
  next
    case (accept_session xs s ctx ys ec endpoint)
    show ?thesis by (rule sourced_settled [OF keeps_sourced_callbacks(1) opened(1) [OF accept_session(3)] sym [OF accept_session(2)]])
  next
    case (handshake_session xs s host ctx ys ec endpoint)
    show ?thesis
      by (rule sourced_settled [OF keeps_sourced_callbacks(1) opened(1) [OF handshake_session(3)] sym [OF handshake_session(2)]])
  next
    case (accept_client xs c run_at ys ec)
    show ?thesis
      by (rule sourced_settled [OF keeps_sourced_callbacks(6) [where J = ?J, OF own [OF accept_client(3)]]
            opened(2) [OF accept_client(3)] sym [OF accept_client(2)]])
  next
    case (write_session xs s m ys ec)
    show ?thesis by (rule sourced_settled [OF keeps_sourced_callbacks(2) v [OF write_session(3)] sym [OF write_session(2)]])
  next
    case (write_client xs c m ys ec)
    show ?thesis by (rule sourced_settled [OF keeps_sourced_callbacks(4) v [OF write_client(3)] sym [OF write_client(2)]])
  next
    case (listen_session xs ys ec)
    show ?thesis by (rule sourced_settled [OF keeps_sourced_listen_session v [OF listen_session(3)] sym [OF listen_session(2)]])
  qed (use sourced_destroy [OF w'] sourced_discreet [OF v discreet_posted(1)] sourced_discreet [OF v discreet_posted(3)]
      sourced_discreet [OF v discreet_posted(4)] sourced_discreet [OF v discreet_trans [OF discreet_console(3) discreet_console(1)]]
      sourced_discreet [OF v discreet_console(2)] sourced_discreet [OF w' discreet_opened(1)]
      sourced_discreet [OF w' discreet_opened(2)] in simp_all)
qed

lemma sourced_run:
  assumes "node_run b v es w" and "node_ok v" and "sourced b (explains b []) v"
  shows "sourced b (explains b es) w"
  using assms
proof (induction rule: node_run.induct)
  case (stop w)
  then show ?case by simp
next
  case (step v es x e u)
  have "node_ok x" using step.hyps(1) step.prems(1) by (rule run_ok)
  with step.IH [OF step.prems] show ?case by (rule sourced_step [OF _ _ step.hyps(2)])
qed

lemma started_sourced: "server_start b (boot b config) = (Ok n, v) \<Longrightarrow> sourced b J v"
  using keepsD [OF keeps_sourced_start sourced_boot] by (metis snd_conv)

lemma reaches_sourced: "reaches b config es w \<Longrightarrow> sourced b (explains b es) w"
  using sourced_run started_ok(1) started_sourced unfolding reaches_def by blast

text \<open>The texts a node has queued for its peers are honest.\<close>

lemma run_queues_honest:
  assumes "node_run b v es w" and "node_ok v" and "sourced b (explains b []) v" and "m \<in> set (queued_session a es)"
  shows "honest_text b (explains b es) m"
  using assms
proof (induction rule: node_run.induct)
  case (stop w)
  then show ?case by (simp add: traffic_defs)
next
  case (step v es x e u)
  note mono = honest_op_mono [of "explains b es" "explains b (es @ [e])" b "Session_on_send s m" for s, OF explains_mono]
  show ?case
  proof (cases "m \<in> set (queued_session a es)")
    case True
    with step.IH step.prems mono show ?thesis by simp
  next
    case False
    with step.prems(3) obtain s where e: "e = Session_queued s m"
      by (cases e) (auto simp: traffic_defs split: if_splits)
    from step.hyps(2) have "Session_on_send s m \<in> set (w_pending x)"
      unfolding e
    proof cases
      case (read_session xs s' ys r)
      then show ?thesis by (cases r) simp_all
    qed (auto split: if_splits)
    with sourced_run [OF step.hyps(1) step.prems(1,2)] mono show ?thesis by (auto simp: sourced_def)
  qed
qed

lemma reaches_queues_honest:
  assumes "reaches b config es w" and "m \<in> set (queued_session a es)"
  shows "honest_text b (explains b es) m"
  using assms run_queues_honest started_ok(1) started_sourced unfolding reaches_def by blast

section \<open>A network\<close>

text \<open>What a node of a network has done, also when it has ended.\<close>

fun node_history :: "boost \<Rightarrow> config \<Rightarrow> event list \<Rightarrow> node option \<Rightarrow> bool" where
  "node_history b config es None = (es = [])"
| "node_history b config es (Some (Running w)) = reaches b config es w"
| "node_history b config es (Some n) =
     (\<exists>w fs e. es = fs @ [e] \<and> reaches b config fs w \<and> node_step b w e n)"

lemma net_run_history:
  assumes "net_run libs configs peer es N"
  shows "node_history (libs k) (configs k) (events_of k es) (net_nodes N k)"
  using assms
proof (induction rule: net_run.induct)
  case net_empty
  then show ?case by (simp add: empty_network_def)
next
  case (net_start es N l threads w)
  then show ?case by (auto simp: reaches_def intro: node_run.stop)
next
  case (net_act es N l w e n)
  show ?case
  proof (cases "l = k")
    case True
    with net_act have r: "reaches (libs k) (configs k) (events_of k es) w" and s: "node_step (libs k) w e n" by simp_all
    have "node_history (libs k) (configs k) (events_of k es @ [e]) (Some n)"
      using r s by (cases n) (auto simp: reaches_def intro: node_run.step)
    with True show ?thesis by simp
  next
    case False
    with net_act show ?thesis by simp
  qed
qed

lemma history_queues_honest:
  assumes "node_history b config es n" and "m \<in> set (queued_session a es)"
  shows "honest_text b (explains b es) m"
proof -
  have over: ?thesis if "reaches b config fs w" "node_step b w e n'" "es = fs @ [e]" "\<And>u. n' \<noteq> Running u" for w fs e n'
  proof -
    have "queued_at a e = []" using last_step_silent [OF that(2) reaches_ok [OF that(1)] that(4)] by blast
    with assms(2) that(3) have "m \<in> set (queued_session a fs)" by (simp add: traffic_defs)
    from reaches_queues_honest [OF that(1) this] have "honest_op b (explains b fs) (Session_on_send s m)" for s
      by simp
    from honest_op_mono [OF _ this, of "explains b es"] that(3) explains_mono show ?thesis by simp
  qed
  show ?thesis
  proof (cases n)
    case None
    with assms show ?thesis by (simp add: traffic_defs)
  next
    case (Some x)
    with assms over reaches_queues_honest show ?thesis by (cases x) auto
  qed
qed

section \<open>What a peer makes of an honest text\<close>

lemma honest_read:
  assumes "understands b a" and "honest_text a J m" and "json_parse b m = Some v"
  obtains d where "v = JObject (as_read d)" "typed b (as_read d)" "honest_document a J d"
proof -
  obtain d where m: "m = text_of a d" and d: "honest_document a J d" using assms(2) by (auto simp: honest_text_def)
  have "v = JObject (as_read d)" using assms(1,3) by (auto simp: understands_def m as_read_def)
  moreover have "typed b (as_read d)" using assms(1) d by (simp add: understands_def honest_document_def conforms_def)
  ultimately show ?thesis using d that by blast
qed

lemma announced_honestly:
  assumes "understands b a" and "honest_text a J m" and "json_parse b m = Some (JObject data)"
    and "announces b data i topic"
  shows "J (random_uuid a 0) i topic"
proof -
  from honest_read [OF assms(1-3)] obtain d where d: "data = as_read d" "honest_document a J d" by auto
  have ids: "lexical_cast_uuid b (uuid_to_string a k) = Some k" for k
    using assms(1) by (simp add: understands_def reads_ids_def)
  show ?thesis
  proof (cases topic)
    case None
    with assms(4) have "map_of d ''action'' = Some (JString ''join'')"
      by (auto simp: announces_def d(1) map_of_read as_parsed_String)
    with d(2) obtain k where "J (random_uuid a 0) k None"
      "map_of d ''params'' = Some (JObject [(''client_id'', JString (uuid_to_string a k))])"
      by (auto simp: honest_document_def)
    with None assms(4) show ?thesis by (auto simp: announces_def d(1) map_of_read ids)
  next
    case (Some ch)
    with assms(4) have "map_of d ''action'' = Some (JString ''subscribe'')"
      by (auto simp: announces_def d(1) map_of_read as_parsed_String)
    with d(2) obtain k c where "J (random_uuid a 0) k (Some c)"
      "map_of d ''params'' = Some (JObject [(''client_id'', JString (uuid_to_string a k)), (''channel'', JString c)])"
      by (auto simp: honest_document_def)
    with Some assms(4) show ?thesis by (auto simp: announces_def d(1) map_of_read ids)
  qed
qed

text \<open>The generator never draws the node's own identifier, its first draw, again.\<close>

definition fresh_id :: "boost \<Rightarrow> bool" where
  "fresh_id b \<longleftrightarrow> (\<forall>n>0. random_uuid b n \<noteq> random_uuid b 0)"

lemma explains_own: "fresh_id b \<Longrightarrow> explains b es (random_uuid b 0) i topic \<Longrightarrow> own_entry b es i topic"
  unfolding explains_def fresh_id_def by metis

lemma explains_peer: "sid \<noteq> random_uuid b 0 \<Longrightarrow> explains b es sid i topic \<Longrightarrow>
    \<exists>s m data. Session_got s m \<in> set es \<and> ses_id s = sid \<and> json_parse b m = Some (JObject data) \<and> announces b data i topic"
  by (auto simp: explains_def)

text \<open>Why an entry of the registry is there.\<close>

definition accounted :: "boost \<Rightarrow> event list \<Rightarrow> world \<Rightarrow> uuid \<Rightarrow> uuid \<Rightarrow> string option \<Rightarrow> bool" where
  "accounted b es w sid i topic \<longleftrightarrow>
     (if sid = st_id w then own_entry b es i topic
      else \<exists>s m data. Session_got s m \<in> set es \<and> ses_id s = sid \<and>
        json_parse b m = Some (JObject data) \<and> announces b data i topic)"

lemma reaches_accounted:
  assumes run: "reaches b config es w" and fresh: "fresh_id b"
  shows "c \<in> set (st_clients w) \<Longrightarrow> accounted b es w (cl_session_id c) (cl_id c) None"
    and "x \<in> set (st_subscriptions w) \<Longrightarrow>
      accounted b es w (sub_session_id x) (sub_client_id x) (Some (sub_channel x))"
proof -
  have w: "sourced b (explains b es) w" using run by (rule reaches_sourced)
  have why: "accounted b es w sid i topic" if e: "explains b es sid i topic" for sid i topic
  proof (cases "sid = random_uuid b 0")
    case True
    with w explains_own [OF fresh] e show ?thesis by (simp add: accounted_def sourced_def)
  next
    case False
    from explains_peer [OF False e] False w show ?thesis by (auto simp: accounted_def sourced_def)
  qed
  show "c \<in> set (st_clients w) \<Longrightarrow> accounted b es w (cl_session_id c) (cl_id c) None"
    and "x \<in> set (st_subscriptions w) \<Longrightarrow>
      accounted b es w (sub_session_id x) (sub_client_id x) (Some (sub_channel x))"
    using w by (auto intro!: why simp: sourced_def)
qed

lemma got_set: "m \<in> set (net_got (k, a) es) \<longleftrightarrow> (\<exists>s. Session_got s m \<in> set (events_of k es) \<and> ses_addr s = a)"
proof -
  have "m \<in> set (got_at a e) \<longleftrightarrow> (\<exists>s. e = Session_got s m \<and> ses_addr s = a)" for e
    by (cases e) auto
  then show ?thesis by (auto simp: net_got_def got_session_def)
qed

text \<open>What is on a wire, or was taken off it, was queued honestly at the other end.\<close>

lemma wire_honest:
  assumes run: "net_run libs configs peer es N" and p: "peer (j, a) = Some q"
    and wires: "\<And>p. peer p = Some q \<Longrightarrow> p = (j, a)" and m: "m \<in> set (net_got q es @ net_wires N q)"
  shows "honest_text (libs j) (explains (libs j) (events_of j es)) m"
proof -
  have "m \<in> set (net_sent (j, a) es)" using net_run_wire [OF run p wires] m by simp
  moreover have "prefix (net_sent (j, a) es) (net_queued (j, a) es)"
    using net_run_traffic [OF run, of "(j, a)"] by (rule node_traffic_prefix)
  ultimately have "m \<in> set (queued_session a (events_of j es))"
    by (auto simp: net_queued_def dest: set_mono_prefix)
  with net_run_history [OF run] show ?thesis by (rule history_queues_honest)
qed

lemma net_genuine:
  assumes run: "net_run libs configs peer es N" and "net_nodes N k = Some (Running w)"
    and e: "explains (libs k) (events_of k es) sid i topic" "sid \<noteq> st_id w"
    and fresh: "\<And>j. fresh_id (libs j)" and wires: "\<And>p q r. peer p = Some r \<Longrightarrow> peer q = Some r \<Longrightarrow> p = q"
    and und: "\<And>j l. understands (libs j) (libs l)"
  shows "\<exists>s m. Session_got s m \<in> set (events_of k es) \<and> ses_id s = sid \<and>
    (\<forall>j a. peer (j, a) = Some (k, ses_addr s) \<longrightarrow> own_entry (libs j) (events_of j es) i topic)"
proof -
  have "reaches (libs k) (configs k) (events_of k es) w" using net_run_history [OF run, of k] assms(2) by simp
  from reaches_sourced [OF this] e(2) have "sid \<noteq> random_uuid (libs k) 0" by (simp add: sourced_def)
  from explains_peer [OF this e(1)] obtain s m data where s: "Session_got s m \<in> set (events_of k es)" "ses_id s = sid"
    and m: "json_parse (libs k) m = Some (JObject data)" "announces (libs k) data i topic" by blast
  have "own_entry (libs j) (events_of j es) i topic" if p: "peer (j, a) = Some (k, ses_addr s)" for j a
  proof -
    have "m \<in> set (net_got (k, ses_addr s) es)" using s(1) by (auto simp: got_set)
    then have "honest_text (libs j) (explains (libs j) (events_of j es)) m"
      using wire_honest [OF run p wires [OF _ p], of m] by simp
    from explains_own [OF fresh announced_honestly [OF und this m]] show ?thesis .
  qed
  with s show ?thesis by blast
qed

lemma net_known_explained:
  assumes "net_run libs configs peer es N" and "net_nodes N k = Some (Running w)"
  shows "c \<in> set (st_clients w) \<Longrightarrow> explains (libs k) (events_of k es) (cl_session_id c) (cl_id c) None"
    and "x \<in> set (st_subscriptions w) \<Longrightarrow>
      explains (libs k) (events_of k es) (sub_session_id x) (sub_client_id x) (Some (sub_channel x))"
proof -
  have "reaches (libs k) (configs k) (events_of k es) w" using net_run_history [OF assms(1), of k] assms(2) by simp
  from reaches_sourced [OF this] show "c \<in> set (st_clients w) \<Longrightarrow> explains (libs k) (events_of k es) (cl_session_id c) (cl_id c) None"
    and "x \<in> set (st_subscriptions w) \<Longrightarrow>
      explains (libs k) (events_of k es) (sub_session_id x) (sub_client_id x) (Some (sub_channel x))"
    by (simp_all add: sourced_def)
qed

section \<open>No text of a node crashes another\<close>

lemma honest_message_fault:
  assumes "understands b a" and "honest_text a J m"
  shows "message_fault b m On_session i w = None \<or> message_fault b m On_session i w = Some Resolve_failure \<and>
    (\<exists>data. json_parse b m = Some (JObject data) \<and> \<not> resolvable b data)"
proof (cases "json_parse b m")
  case (Some v)
  from honest_read [OF assms Some] obtain d where "v = JObject (as_read d)" "typed b (as_read d)" by blast
  with Some typed_kernel show ?thesis by (auto simp: message_fault_def)
qed (simp add: message_fault_def)

lemma honest_read_step:
  assumes "node_ok w" and "peers_accept b" and "understands b a" and "honest_text a J m"
    and step: "node_step b w (Session_got s m) n"
  shows "(\<exists>u. n = Running u) \<or> n = Crashed Resolve_failure"
  using step
proof cases
  case (read_session xs s' ys r)
  then have r: "r = Read_text m" "s' = s" by (cases r; simp)+
  let ?w = "without xs ys w"
  have n: "n = settle (session_on_read b s (Read_text m) ?w)"
    using read_session(2) r by (simp add: after_session_read_def)
  from honest_message_fault [OF assms(3,4), of "ses_id s" ?w]
  consider "message_fault b m On_session (ses_id s) ?w = None"
    | "message_fault b m On_session (ses_id s) ?w = Some Resolve_failure" by auto
  then show ?thesis
  proof cases
    case 1
    have "calm ?w ?w" using without_calm [OF assms(1) read_session(3)] by simp
    from session_turn [OF assms(2) 1 this] n show ?thesis by (auto simp: settle_def)
  next
    case 2
    then have "throws (fst (session_on_read b s (Read_text m) ?w)) = Some Resolve_failure"
      by (simp add: session_on_read_throws read_fault_def)
    with n show ?thesis by (auto simp: settle_def throws_def split: outcome.splits prod.splits)
  qed
qed (auto split: if_splits)

end
