(* ===== verification/Delivery.thy ===== *)
theory Delivery
  imports Provenance
begin

text \<open>
  The connections of a node work off what is posted on them: one contract, \<open>mailbox\<close>, for sessions and
  clients. What is posted can be queued, what is queued can be written, and a run of one node that reads
  what is on the wires is a run of the network.
\<close>

section \<open>What is posted on a connection\<close>

text \<open>
  The operations posted on a connection run in their order (\<open>blocks\<close>), and each appends its text to the
  write queue. \<open>working\<close> says that the connection at this address is alive and being written.
\<close>

locale mailbox =
  fixes blocks :: "nat \<Rightarrow> op \<Rightarrow> bool"
    and text_at :: "nat \<Rightarrow> op \<Rightarrow> string list"
    and queue_at :: "nat \<Rightarrow> world \<Rightarrow> string list"
    and working :: "nat \<Rightarrow> world \<Rightarrow> bool"
  assumes unblocked: "\<not> blocks a x \<Longrightarrow> text_at a x = []"
    and turn: "working a w \<Longrightarrow> w_pending w = xs @ x # ys \<Longrightarrow> \<not> list_ex (blocks a) xs \<Longrightarrow> blocks a x \<Longrightarrow>
      \<exists>e u zs. node_step b w e (Running u) \<and> unconnected e \<and> w_pending u = xs @ ys @ zs \<and> working a u \<and>
        queue_at a u = queue_at a w @ text_at a x"
begin

definition texts :: "nat \<Rightarrow> op list \<Rightarrow> string list" where
  "texts a xs = concat (map (text_at a) xs)"

lemma texts_simps [simp]:
  "texts a [] = []" "texts a (x # xs) = text_at a x @ texts a xs" "texts a (xs @ ys) = texts a xs @ texts a ys"
  by (simp_all add: texts_def)

lemma texts_unblocked: "\<not> list_ex (blocks a) xs \<Longrightarrow> texts a xs = []"
  by (induction xs) (auto simp: unblocked)

lemma queued_in_turn:
  assumes "working a w" and "w_pending w = xs @ x # ys" and "blocks a x"
  shows "\<exists>es u. node_run b w es u \<and> list_all unconnected es \<and> working a u \<and>
    queue_at a u = queue_at a w @ texts a xs @ text_at a x"
  using assms
proof (induction "length (filter (blocks a) xs)" arbitrary: w xs ys)
  case 0
  then have "\<not> list_ex (blocks a) xs" by (auto simp: list_ex_iff filter_empty_conv)
  from turn [OF "0.prems"(1,2) this "0.prems"(3), of b] texts_unblocked [OF this] obtain e u
    where "node_step b w e (Running u)" "unconnected e" "working a u" "queue_at a u = queue_at a w @ texts a xs @ text_at a x"
    by auto
  with node_run_first [OF node_run.stop] show ?case by (intro exI [of _ "[e]"] exI [of _ u]) simp
next
  case (Suc n)
  then have "filter (blocks a) xs \<noteq> []" by auto
  then have "list_ex (blocks a) xs" by (simp add: list_ex_iff filter_empty_conv)
  then obtain us y vs where xs: "xs = us @ y # vs" "blocks a y" "\<not> list_ex (blocks a) us"
    using split_list_first_prop [of xs "blocks a"] by (auto simp: list_ex_iff)
  have p: "w_pending w = us @ y # (vs @ x # ys)" using Suc.prems(2) xs(1) by simp
  from turn [OF Suc.prems(1) p xs(3,2), of b] obtain e u zs
    where u: "node_step b w e (Running u)" "unconnected e" "w_pending u = us @ (vs @ x # ys) @ zs" "working a u"
      "queue_at a u = queue_at a w @ text_at a y" by blast
  have "n = length (filter (blocks a) (us @ vs))" using Suc.hyps(2) xs by simp
  moreover have "w_pending u = (us @ vs) @ x # (ys @ zs)" using u(3) by simp
  ultimately obtain es v where v: "node_run b u es v" "list_all unconnected es" "working a v"
    "queue_at a v = queue_at a u @ texts a (us @ vs) @ text_at a x"
    using Suc.hyps(1) u(4) Suc.prems(3) by blast
  have "queue_at a v = queue_at a w @ texts a xs @ text_at a x"
    using v(4) u(5) xs(1) texts_unblocked [OF xs(3)] by simp
  with node_run_first [OF v(1) u(1)] v(2,3) u(2) show ?case by (intro exI [of _ "e # es"] exI [of _ v]) simp
qed

end

fun session_text_at :: "nat \<Rightarrow> op \<Rightarrow> string list" where
  "session_text_at a (Session_on_send s m) = (if ses_addr s = a then [m] else [])"
| "session_text_at a _ = []"

fun client_text_at :: "nat \<Rightarrow> op \<Rightarrow> string list" where
  "client_text_at a (Client_on_send c m) = (if cl_addr c = a then [m] else [])"
| "client_text_at a _ = []"

definition session_working :: "nat \<Rightarrow> world \<Rightarrow> bool" where
  "session_working a w \<longleftrightarrow> node_ok w \<and> (\<exists>s\<in>set (w_live_sessions w). ses_addr s = a) \<and>
     flowing (session_queue_at a w) (session_writes a (w_pending w))"

definition client_working :: "nat \<Rightarrow> world \<Rightarrow> bool" where
  "client_working a w \<longleftrightarrow> node_ok w \<and> (\<exists>c. cl_addr c = a \<and> client_open w c) \<and>
     flowing (client_queue_at a w) (client_writes a (w_pending w))"

lemma session_post_turn:
  assumes w: "session_working a w" and p: "w_pending w = xs @ x # ys"
    and first: "\<not> list_ex (posted_on_session a) xs" and x: "posted_on_session a x"
  shows "\<exists>e u zs. node_step b w e (Running u) \<and> unconnected e \<and> w_pending u = xs @ ys @ zs \<and> session_working a u \<and>
    session_queue_at a u = session_queue_at a w @ session_text_at a x"
proof -
  let ?w = "without xs ys w"
  have ok: "node_ok w" and flow: "flowing (session_queue_at a w) (session_writes a (w_pending w))"
    using w by (simp_all add: session_working_def)
  consider (run) s ctx where "x = Session_on_run s ctx" "ses_addr s = a"
    | (send) s m where "x = Session_on_send s m" "ses_addr s = a"
    using x by (cases x) auto
  then show ?thesis
  proof cases
    case run
    let ?u = "session_on_run s ctx ?w"
    have step: "node_step b w Internal (Running ?u)"
      using node_step.run_session [of w xs s ctx ys b] p first run by simp
    then have "node_ok ?u" using step_good [OF _ ok] by (simp add: good_step_def)
    moreover obtain y where "?u = initiate y ?w" "session_write_of a y = []"
      unfolding session_on_run_def by (cases ctx) auto
    then have "w_pending ?u = xs @ ys @ [y]" "session_queue_at a ?u = session_queue_at a w"
      "w_live_sessions ?u = w_live_sessions w" "session_writes a [y] = []"
      by (simp_all add: initiate_def session_queue_at_def without_def)
    ultimately show ?thesis using step w flow p run
      by (intro exI [of _ Internal] exI [of _ ?u] exI [of _ "[y]"]) (auto simp: session_working_def)
  next
    case send
    let ?u = "session_on_send s m ?w"
    have step: "node_step b w (Session_queued s m) (Running ?u)"
      using node_step.send_session [of w xs s m ys b] p first send by simp
    then have "node_ok ?u" using step_good [OF _ ok] by (simp add: good_step_def)
    moreover have "session_queue_at a ?u = session_queue_at a w @ [m]"
      using ses.send_queue [of a s m ?w] send(2) by simp
    moreover have "flowing (session_queue_at a ?w) (session_writes a (w_pending ?w))" using flow p send by simp
    then have "flowing (session_queue_at a ?u) (session_writes a (w_pending ?u))"
      using ses.send_flowing [of s ?w m] send(2) by simp
    moreover have "w_live_sessions ?u = w_live_sessions w"
      by (simp add: session_on_send_def Let_def update_session_def initiate_def)
    ultimately show ?thesis using step w ses.send_pending [of s m ?w] send
      by (intro exI [of _ "Session_queued s m"] exI [of _ ?u]) (auto simp: session_working_def)
  qed
qed

lemma client_post_turn:
  assumes w: "client_working a w" and p: "w_pending w = xs @ x # ys"
    and first: "\<not> list_ex (posted_on_client a) xs" and x: "posted_on_client a x"
  shows "\<exists>e u zs. node_step b w e (Running u) \<and> unconnected e \<and> w_pending u = xs @ ys @ zs \<and> client_working a u \<and>
    client_queue_at a u = client_queue_at a w @ client_text_at a x"
proof -
  let ?w = "without xs ys w"
  have ok: "node_ok w" and flow: "flowing (client_queue_at a w) (client_writes a (w_pending w))"
    using w by (simp_all add: client_working_def)
  obtain c m where send: "x = Client_on_send c m" "cl_addr c = a" using x by (cases x) auto
  let ?u = "client_on_send c m ?w"
  have open': "client_open ?w c"
    using w send(2) by (auto simp: client_working_def client_open_def client_obj_of_def without_def)
  have step: "node_step b w (Client_queued c m) (Running ?u)"
    using node_step.send_client [of w xs c m ys b] p first send by simp
  then have "node_ok ?u" using step_good [OF _ ok] by (simp add: good_step_def)
  moreover have "client_queue_at a ?u = client_queue_at a w @ [m]"
    using cli.send_queue [of a c m ?w] send(2) by simp
  moreover have "flowing (client_queue_at a ?w) (client_writes a (w_pending ?w))" using flow p send by simp
  then have "flowing (client_queue_at a ?u) (client_writes a (w_pending ?u))"
    using cli.send_flowing [of c ?w m] send(2) open' by simp
  moreover have "client_open ?u c" using cli.send_ready [where d = c and c = c and m = m and w = ?w] open' by simp
  ultimately show ?thesis using step cli.send_pending [of c m ?w] send
    by (intro exI [of _ "Client_queued c m"] exI [of _ ?u]) (auto simp: client_working_def)
qed

interpretation ses_box: mailbox posted_on_session session_text_at session_queue_at session_working
proof unfold_locales
  show "\<not> posted_on_session a x \<Longrightarrow> session_text_at a x = []" for a x by (cases x) auto
qed (rule session_post_turn)

interpretation cli_box: mailbox posted_on_client client_text_at client_queue_at client_working
proof unfold_locales
  show "\<not> posted_on_client a x \<Longrightarrow> client_text_at a x = []" for a x by (cases x) auto
qed (rule client_post_turn)

text \<open>What is posted is queued, and what is queued is written.\<close>

lemma unconnected_silent:
  "list_all unconnected es \<Longrightarrow> sent_session a es = [] \<and> got_session a es = [] \<and> Session_got t m \<notin> set es"
proof -
  have "unconnected e \<Longrightarrow> sent_at a e = [] \<and> got_at a e = []" for e by (cases e) simp_all
  then show "list_all unconnected es \<Longrightarrow> sent_session a es = [] \<and> got_session a es = [] \<and> Session_got t m \<notin> set es"
    by (induction es) (auto simp: sent_session_def got_session_def)
qed

lemma session_delivers:
  assumes w: "session_working (ses_addr s) w" and p: "w_pending w = xs @ Session_on_send s m # ys"
  shows "\<exists>es u. node_run b w es u \<and> (\<forall>t m. Session_got t m \<notin> set es) \<and>
    sent_session (ses_addr s) es = session_queue s w @ ses_box.texts (ses_addr s) xs @ [m]"
proof -
  let ?a = "ses_addr s"
  from ses_box.queued_in_turn [OF w p, of b] obtain es u
    where u: "node_run b w es u" "list_all unconnected es" "session_working ?a u"
      "session_queue_at ?a u = session_queue_at ?a w @ ses_box.texts ?a xs @ [m]" by auto
  obtain t where t: "t \<in> set (w_live_sessions u)" "ses_addr t = ?a" using u(3) by (auto simp: session_working_def)
  from session_drains [of u t "session_queue t u" b] u(3) t obtain v where v: "node_run b u (map (Session_sent t) (session_queue t u)) v"
    by (auto simp: session_working_def session_queue_eq)
  have "sent_session ?a (map (Session_sent t) ms) = ms" for ms
    using t(2) by (induction ms) (simp_all add: sent_session_def)
  then have "sent_session ?a (es @ map (Session_sent t) (session_queue t u)) = session_queue s w @ ses_box.texts ?a xs @ [m]"
    using unconnected_silent [OF u(2)] u(4) t(2) by (simp add: sent_session_def session_queue_eq)
  moreover have "Session_got x y \<notin> set (es @ map (Session_sent t) (session_queue t u))" for x y
    using unconnected_silent [OF u(2)] by auto
  ultimately show ?thesis using node_run_append [OF v u(1)] by blast
qed

lemma client_delivers:
  assumes w: "client_working (cl_addr c) w" and p: "w_pending w = xs @ Client_on_send c m # ys"
  shows "\<exists>es u. node_run b w es u \<and> list_all unconnected es \<and> m \<in> set (sent_client (cl_addr c) es)"
proof -
  let ?a = "cl_addr c"
  from cli_box.queued_in_turn [OF w p, of b] obtain es u
    where u: "node_run b w es u" "list_all unconnected es" "client_working ?a u"
      "client_queue_at ?a u = client_queue_at ?a w @ cli_box.texts ?a xs @ [m]" by auto
  obtain d where d: "client_open u d" "cl_addr d = ?a" using u(3) by (auto simp: client_working_def)
  from client_drains [of u d "client_queue d u" b] u(3) d obtain fs v
    where v: "node_run b u fs v" "sent_client ?a fs = client_queue d u" "\<forall>e\<in>set fs. \<exists>t m. e = Client_sent t m"
    by (auto simp: client_working_def client_queue_eq)
  have "list_all unconnected fs" using v(3) by (auto simp: list_all_iff)
  moreover have "m \<in> set (sent_client ?a (es @ fs))" using v(2) u(4) d(2) by (simp add: sent_client_def client_queue_eq)
  ultimately show ?thesis using node_run_append [OF v(1) u(1)] u(2) by (meson list_all_append)
qed

section \<open>Runs of one node in a network\<close>

lemma net_traffic_played:
  "net_sent (l, a) (es @ map (Pair k) fs) = net_sent (l, a) es @ (if l = k then sent_session a fs else [])"
  "net_got (l, a) (es @ map (Pair k) fs) = net_got (l, a) es @ (if l = k then got_session a fs else [])"
proof -
  have "events_of l (map (Pair k) fs) = (if l = k then fs else [])" by (simp add: events_of_def filter_map comp_def)
  then show "net_sent (l, a) (es @ map (Pair k) fs) = net_sent (l, a) es @ (if l = k then sent_session a fs else [])"
    "net_got (l, a) (es @ map (Pair k) fs) = net_got (l, a) es @ (if l = k then got_session a fs else [])"
    by (simp_all add: net_sent_def net_got_def sent_session_def got_session_def)
qed

lemma wires_played:
  assumes "net_run libs configs peer es N" and "net_run libs configs peer (es @ map (Pair k) fs) M"
    and "peer (l, a) = Some (n, c)" and "\<And>p. peer p = Some (n, c) \<Longrightarrow> p = (l, a)"
  shows "net_wires N (n, c) @ (if l = k then sent_session a fs else []) =
    (if n = k then got_session c fs else []) @ net_wires M (n, c)"
  using net_run_wire [OF assms(1,3,4)] net_run_wire [OF assms(2,3,4)] by (simp add: net_traffic_played)

lemma net_run_plays:
  assumes "node_run (libs k) w fs u" and "net_run libs configs peer es N" and "net_nodes N k = Some (Running w)"
    and wires: "\<And>p q r. peer p = Some r \<Longrightarrow> peer q = Some r \<Longrightarrow> p = q"
    and "\<And>a. (k, a) \<in> ran peer \<Longrightarrow> prefix (got_session a fs) (net_wires N (k, a))"
  shows "\<exists>M. net_run libs configs peer (es @ map (Pair k) fs) M \<and> net_nodes M = (net_nodes N)(k \<mapsto> Running u)"
  using assms(1-3,5)
proof (induction rule: node_run.induct)
  case (stop w)
  then show ?case by (auto simp: fun_upd_idem)
next
  case (step w fs v e u)
  have got: "got_session a (fs @ [x]) = got_session a fs @ got_at a x" for a x by (simp add: got_session_def)
  have "prefix (got_session a fs) (net_wires N (k, a))" if "(k, a) \<in> ran peer" for a
    using step.prems(3) [OF that] by (auto simp: got intro: append_prefixD)
  from step.IH [OF step.prems(1,2) this] obtain M where M: "net_run libs configs peer (es @ map (Pair k) fs) M"
    "net_nodes M = (net_nodes N)(k \<mapsto> Running v)" by blast
  have "readable peer k e (net_wires M)"
  proof (cases e)
    case (Session_got s m)
    have "net_wires M (k, ses_addr s) \<noteq> [] \<and> hd (net_wires M (k, ses_addr s)) = m" if q: "(k, ses_addr s) \<in> ran peer"
    proof -
      obtain l a where p: "peer (l, a) = Some (k, ses_addr s)" using q by (auto simp: ran_def)
      from wires_played [OF step.prems(1) M(1) p wires [OF _ p]]
      obtain xs where "net_wires N (k, ses_addr s) @ xs = got_session (ses_addr s) fs @ net_wires M (k, ses_addr s)" by simp
      moreover obtain ys where "net_wires N (k, ses_addr s) = got_session (ses_addr s) fs @ m # ys"
        using step.prems(3) [OF q] Session_got by (auto simp: got prefix_def)
      ultimately have "m # ys @ xs = net_wires M (k, ses_addr s)" by simp
      then show ?thesis by (metis list.distinct(1) list.sel(1))
    qed
    with Session_got show ?thesis by (simp add: readable_def)
  qed (simp_all add: readable_def)
  from net_run.net_act [OF M(1) _ step.hyps(2) this] M(2) show ?case by auto
qed

end
