(* ===== verification/Bystanders.thy ===== *)
theory Bystanders
  imports Delivery
begin

text \<open>
  What the texts of a peer leave alone: the registration and the socket of every client they do not
  retract. Hence a node that awaits texts from a session and has a client whose connection works is in the
  same position after any harmless texts of a node it understands, and hands over the text that is for
  the client.
\<close>

section \<open>What the texts of a peer leave alone\<close>

text \<open>
  \<open>spares gone v w\<close>: the clients of \<open>v\<close> are still registered in \<open>w\<close>, but for those \<open>gone\<close> names, and
  every socket is as open as it was.
\<close>

definition spares :: "(uuid \<Rightarrow> bool) \<Rightarrow> world \<Rightarrow> world \<Rightarrow> bool" where
  "spares gone v w \<longleftrightarrow>
     st_id w = st_id v \<and> w_next_addr v \<le> w_next_addr w \<and>
     (\<forall>c\<in>set (st_clients v). gone (cl_id c) \<or> c \<in> set (st_clients w)) \<and>
     (\<forall>a<w_next_addr v. co_socket (w_client_objs w a) = co_socket (w_client_objs v a))"

lemma spares_trans: "spares gone u v \<Longrightarrow> spares gone v w \<Longrightarrow> spares gone u w"
  unfolding spares_def by (intro conjI; elim conjE) (simp, simp, blast, simp)

lemma spares_basic:
  "spares gone w w"
  "spares gone w (snd (draw_uuid b w))"
  "spares gone w (snd (read_clock b w))"
  "spares gone w (next_reply b rq m d w)"
  "spares gone w (mark_as_invalid b rq f a w)"
  "spares gone w (respond_failed b tid ts bag w)"
  "spares gone w (w\<lparr>w_response := r\<rparr>)"
  "spares gone w (w\<lparr>w_attempts := n\<rparr>)"
  "spares gone w (update_session s f' w)"
  "spares gone w (post xs w)"
  "spares gone w (initiate x w)"
  by (simp_all add: spares_def post_def device_defs next_reply_def mark_as_invalid_def respond_failed_def Let_def)

lemma spares_members:
  "spares gone w (set_sessions_port s p w)"
  "spares gone w (set_clients_port s p w)"
  "spares gone w (mark_as_registered s w)"
  "spares gone w (session_run s ctx w)"
  by (simp_all add: object_defs session_run_def spares_basic)

lemma spares_registration:
  "spares gone w (snd (subscribe s c ch w))"
  "spares gone w (snd (unsubscribe s c ch w))"
  "gone i \<Longrightarrow> spares gone w (snd (remove_client i w))"
  "spares gone w (snd (add_session x w))"
  by (auto simp: spares_def registration_defs case_prod_beta Let_def split: option.splits)

lemma spares_allocation:
  "spares gone w (snd (new_client i k w))" "spares gone w (snd (make_session b w))"
  "spares gone w (snd (add_client c w))"
  by (auto simp: spares_def new_client_def make_session_def new_session_def draw_uuid_def add_client_def
      clients_insert_eq case_prod_beta Let_def)

lemma spares_sending:
  "spares gone w (snd (send_to_others_clients b d sid cid w))"
  "spares gone w (send_object_to_client b c frm p w)"
  "spares gone w (session_send s m w)"
  "spares gone w (snd (broadcast_to_clients b rq sid i d w))"
  "spares gone w (snd (publish_to_clients b rq sid i ch d w))"
  "spares gone w (sync b s registered w)"
  unfolding forward_defs send_eqs session_send_post send_object_to_client_eq sync_emits emit_def snd_conv
  by (rule spares_basic spares_trans [OF spares_basic(2) spares_basic(10)] | simp add: spares_def)+

lemma keeps_spares: "(\<And>w. spares gone w (f w)) \<Longrightarrow> keeps (spares gone v) (modify f)"
  "(\<And>w. spares gone w (snd (g w))) \<Longrightarrow> keeps (spares gone v) (call g)"
  by (auto intro: keeps_modify keeps_call spares_trans)

lemma keeps_spares_reply: "keeps (spares gone v) (reply b rq m d)"
  unfolding reply_def by (intro keeps_spares spares_basic)

lemma keeps_spares_id: "keeps (spares gone v) (id_validator b rq p field)"
  by (auto simp: keeps_def id_validator_eq split: option.splits intro: spares_trans spares_basic)

lemma keeps_spares_connect: "keeps (spares gone v) (connect_until_open b host service)"
  by (auto simp: keeps_def connect_until_open_def split: option.splits intro: spares_trans spares_basic)

context param_validator
begin

lemma validate_spares: "keeps (spares gone v) (validate b rq)"
proof (rule keepsI)
  fix w assume "spares gone v w"
  then show "spares gone v (snd (validate b rq w))"
    by (cases rule: validate_cases [where b = b and rq = rq and w = w]) (auto intro: spares_trans spares_basic)
qed

end

lemmas keeps_spares_validators = broadcast_v.validate_spares is_subscribed_v.validate_spares
  publish_v.validate_spares register_v.validate_spares send_v.validate_spares session_v.validate_spares
  subscriptions_v.validate_spares

text \<open>A \<^verbatim>\<open>leave\<close> message retracts the client it names; no other message of a peer drops one.\<close>

definition retracts :: "boost \<Rightarrow> json_object \<Rightarrow> uuid \<Rightarrow> bool" where
  "retracts b data k \<longleftrightarrow> map_of data ''action'' = Some (JString ''leave'') \<and>
     (\<exists>p. map_of data ''params'' = Some (JObject p) \<and> get_param_as_id b p ''client_id'' = Ok k)"

lemmas spares_rules = keeps_if keeps_return keeps_gets keeps_case_option keeps_spares_reply keeps_spares_id
  keeps_spares_validators keeps_spares_connect keeps_spares spares_basic spares_members spares_registration(1,2,4)
  spares_allocation spares_sending keeps_lift keeps_bind

lemma keeps_spares_leave:
  assumes "rq_context rq = On_session"
    and "\<And>p k. get_params rq = Ok p \<Longrightarrow> get_param_as_id b p ''client_id'' = Ok k \<Longrightarrow> gone k"
  shows "keeps (spares gone v) (leave_handler b rq)"
  unfolding leave_handler_def assms(1) kernel_context.simps
  by (rule keeps_bind_lift keeps_spares(2) [OF spares_registration(3)] assms(2) spares_rules | assumption)+

lemma keeps_spares_dispatch:
  assumes "rq_context rq = On_session" and "map_of (rq_data rq) ''action'' = Some (JString action)"
    and "\<And>k. retracts b (rq_data rq) k \<Longrightarrow> gone k"
  shows "keeps (spares gone v) (dispatch b action rq)"
proof -
  have leave: "keeps (spares gone v) (leave_handler b rq)" if "action = ''leave''"
    using assms that by (intro keeps_spares_leave) (auto simp: retracts_def)
  have rest: "keeps (spares gone v) (ping_handler b rq)" "keeps (spares gone v) (unimplemented_handler b rq)"
    "keeps (spares gone v) (is_subscribed_handler b rq)" "keeps (spares gone v) (broadcast_handler b rq)"
    "keeps (spares gone v) (publish_handler b rq)" "keeps (spares gone v) (send_handler b rq)"
    "keeps (spares gone v) (register_handler b rq)" "keeps (spares gone v) (session_handler b rq)"
    "keeps (spares gone v) (subscribe_handler b rq)" "keeps (spares gone v) (unsubscribe_handler b rq)"
    "keeps (spares gone v) (join_handler b rq)"
    unfolding handler_defs assms(1) kernel_context.simps by (rule spares_rules)+
  show ?thesis
    unfolding dispatch_def using leave rest by (auto intro!: keeps_spares spares_basic)
qed

lemma keeps_spares_kernel:
  assumes "\<And>k. retracts b data k \<Longrightarrow> gone k"
  shows "keeps (spares gone v) (kernel b data On_session i)"
proof -
  have d: "keeps (spares gone v) (bind_eff (lift_outcome (get_param_as_string data ''action'')) (\<lambda>action.
      dispatch b action \<lparr>rq_transaction_id = tid, rq_entity_id = i, rq_context = On_session, rq_data = data,
        rq_timestamp = ts, rq_is_local = False\<rparr>))" for tid ts
    using assms by (intro keeps_bind_lift keeps_spares_dispatch) simp_all
  show ?thesis unfolding kernel_def kernel_rejected_def by (rule d spares_rules)+
qed

lemma read_spares:
  assumes "\<And>data k. json_parse b m = Some (JObject data) \<Longrightarrow> retracts b data k \<Longrightarrow> gone k"
  shows "spares gone w (snd (session_on_read b t (Read_text m) w))"
proof -
  have answer: "keeps (spares gone w) (bind_eff (kernel b data On_session (ses_id t)) (\<lambda>response.
      if \<not> is_ack response then modify (session_send t (serialize b (JObject (get_data response)))) else return ()))"
    if "json_parse b m = Some (JObject data)" for data
    using assms that by (intro keeps_bind keeps_spares_kernel keeps_if keeps_return keeps_spares spares_sending)
  have "spares gone v (session_unprocessable b t at v)" "spares gone v (session_do_read t v)" for at v
    by (simp_all add: session_unprocessable_def session_do_read_def session_send_post initiate_post case_prod_beta Let_def
        spares_basic spares_trans [OF spares_basic(3) spares_basic(10)])
  then have "keeps (spares gone w) (session_on_read b t (Read_text m))"
    unfolding session_on_read_def read_result.simps
    using answer by (intro keeps_bind keeps_spares spares_basic) (auto split: option.split json.split intro!: keeps_spares)
  then show ?thesis using spares_basic(1) by (rule keepsD)
qed

section \<open>Reading what comes before\<close>

text \<open>
  \<open>awaits w t d\<close>: session \<open>t\<close> is being read and \<open>d\<close> is a client of the node itself whose connection works.
\<close>

definition awaits :: "world \<Rightarrow> session \<Rightarrow> client \<Rightarrow> bool" where
  "awaits w t d \<longleftrightarrow> Session_read t \<in> set (w_pending w) \<and> client_working (cl_addr d) w \<and> client_open w d \<and>
     d \<in> set (st_clients w) \<and> cl_session_id d = st_id w"

text \<open>A text that neither retracts the client \<open>i\<close> nor names a host that cannot be resolved.\<close>

definition harmless :: "boost \<Rightarrow> uuid \<Rightarrow> string \<Rightarrow> bool" where
  "harmless b i m \<longleftrightarrow>
     (\<forall>data. json_parse b m = Some (JObject data) \<longrightarrow> \<not> retracts b data i \<and> resolvable b data)"

lemma awaits_read:
  assumes w: "awaits w t d" and p: "w_pending w = xs @ Session_read t # ys"
    and r: "session_on_read b t (Read_text m) (without xs ys w) = (Ok (), u)"
    and kept: "\<And>data. json_parse b m = Some (JObject data) \<Longrightarrow> \<not> retracts b data (cl_id d)"
  shows "node_step b w (Session_got t m) (Running u) \<and> awaits u t d"
proof -
  let ?w = "without xs ys w" and ?a = "cl_addr d"
  have ok: "node_ok w" and flow: "flowing (client_queue_at ?a w) (client_writes ?a (w_pending w))"
    using w by (simp_all add: awaits_def client_working_def)
  have step: "node_step b w (Session_got t m) (Running u)"
    using node_step.read_session [OF p, of b "Read_text m"] r by (simp add: after_session_read_def settle_def)
  have u: "node_ok u" "moves (Session_got t m) w u" using step_good [OF step ok] by (simp_all add: good_step_def)
  have "t \<in> set (w_live_sessions ?w)" using pending_live [OF ok p] by simp
  from keepsD [OF calm_session_on_read [OF this] without_calm [OF ok p], of b "Read_text m"] r have "calm ?w u" by simp
  then obtain zs where zs: "w_pending u = xs @ ys @ zs" "added u zs" by (auto simp: calm_def)
  have "flowing (client_queue_at ?a u) (client_writes ?a (w_pending u))"
    using flow u(2) by (simp add: moves_def p zs(1) writes_none(2) [OF zs(2)])
  moreover have "Session_read t \<in> set (w_pending u)"
  proof -
    obtain v where "u = session_do_read t v" using r by (auto simp: session_on_read_def bind_eff_eq_Ok)
    then show ?thesis by (simp add: session_do_read_def initiate_post)
  qed
  moreover have s: "spares (\<lambda>k. k \<noteq> cl_id d) ?w u"
    using read_spares [of b m "\<lambda>k. k \<noteq> cl_id d" ?w t] kept r by auto
  moreover have "cl_addr d < w_next_addr w"
    using w ok wf_client_allocated [of w d] by (simp add: awaits_def node_ok_def get_clients_def)
  then have "client_open u d = client_open ?w d"
    using s by (simp add: spares_def client_open_def client_obj_of_def)
  moreover have "client_open ?w d = client_open w d" by (simp add: client_open_def client_obj_of_def without_def)
  ultimately show ?thesis
    using step u(1) w by (auto simp: awaits_def client_working_def spares_def without_def)
qed

lemma awaits_split:
  assumes "awaits w t d"
  obtains xs ys where "w_pending w = xs @ Session_read t # ys"
  using assms by (auto simp: awaits_def dest: split_list)

lemma awaits_honest:
  assumes w: "awaits w t d" and b: "peers_accept b" "understands b a" and m: "honest_text a J m" "harmless b (cl_id d) m"
  shows "\<exists>u. node_step b w (Session_got t m) (Running u) \<and> awaits u t d"
proof -
  obtain xs ys where p: "w_pending w = xs @ Session_read t # ys" using w by (rule awaits_split)
  have "message_fault b m On_session (ses_id t) (without xs ys w) = None"
    using honest_message_fault [OF b(2) m(1)] m(2) by (auto simp: harmless_def)
  moreover have "calm (without xs ys w) (without xs ys w)"
    using without_calm [OF _ p] w by (simp add: awaits_def client_working_def)
  ultimately obtain u where "session_on_read b t (Read_text m) (without xs ys w) = (Ok (), u)"
    using session_turn [OF b(1)] by blast
  from awaits_read [OF w p this] m(2) show ?thesis by (auto simp: harmless_def)
qed

lemma awaits_run:
  assumes "awaits w t d" and "peers_accept b" "understands b a"
    and "\<And>m. m \<in> set ms \<Longrightarrow> honest_text a J m \<and> harmless b (cl_id d) m"
  shows "\<exists>u. node_run b w (map (Session_got t) ms) u \<and> awaits u t d"
  using assms(1,4)
proof (induction ms arbitrary: w)
  case Nil
  then show ?case by (auto intro: node_run.stop)
next
  case (Cons m ms)
  from Cons.prems awaits_honest [OF _ assms(2,3), of w t d J m] obtain u
    where u: "node_step b w (Session_got t m) (Running u)" "awaits u t d" by auto
  from Cons.IH [OF u(2)] Cons.prems(2) obtain v where "node_run b u (map (Session_got t) ms) v" "awaits v t d" by auto
  with node_run_first [OF _ u(1)] show ?case by auto
qed

text \<open>The text that is for the client.\<close>

lemma awaits_hands_over:
  assumes w: "awaits w t d" and data: "json_parse b m = Some (JObject data)" "\<not> retracts b data (cl_id d)"
    and k: "\<And>v. st_clients v = st_clients w \<Longrightarrow> st_id v = st_id w \<Longrightarrow> client_open v d \<Longrightarrow> w_random v = w_random w \<Longrightarrow>
      \<exists>r u. kernel b data On_session (ses_id t) v = (Ok r, u) \<and> Client_on_send d text \<in> set (w_pending u)"
  shows "\<exists>u. node_step b w (Session_got t m) (Running u) \<and> awaits u t d \<and> Client_on_send d text \<in> set (w_pending u)"
proof -
  obtain xs ys where p: "w_pending w = xs @ Session_read t # ys" using w by (rule awaits_split)
  let ?w = "snd (read_clock b (without xs ys w))"
  have "client_open ?w d"
    using w by (simp add: awaits_def client_open_def client_obj_of_def without_def read_clock_def)
  then obtain r v where v: "kernel b data On_session (ses_id t) ?w = (Ok r, v)" "Client_on_send d text \<in> set (w_pending v)"
    using k [of ?w] by (auto simp: without_def read_clock_def)
  let ?u = "session_do_read t (if is_ack r then v else session_send t (serialize b (JObject (get_data r))) v)"
  have "session_on_read b t (Read_text m) (without xs ys w) = (Ok (), ?u)"
    using data(1) v(1) by (simp add: session_on_read_def bind_eff_call bind_eff_apply)
  from awaits_read [OF w p this] data have "node_step b w (Session_got t m) (Running ?u) \<and> awaits ?u t d" by auto
  moreover have "Client_on_send d text \<in> set (w_pending ?u)"
    using v(2) by (simp add: session_do_read_def session_send_post initiate_post)
  ultimately show ?thesis by blast
qed

end
