(* ===== verification/Arrival.thy ===== *)
theory Arrival
  imports Bystanders
begin

text \<open>
  End to end: the text of a client of one node, posted on the session to another node, can be queued,
  written, carried, read and handed to a client of that node, whatever else is on its way before it.
\<close>

section \<open>What a client makes its node post\<close>

lemma deliveries_split:
  assumes "s \<in> set ss" and "session_open v s" and unique: "\<And>x. x \<in> set ss \<Longrightarrow> ses_addr x = ses_addr s \<Longrightarrow> x = s"
  shows "\<exists>pre rest. session_deliveries v ss m = pre @ Session_on_send s m # rest \<and>
    ses_box.texts (ses_addr s) pre = []"
proof -
  obtain us vs where ss: "ss = us @ s # vs" "s \<notin> set us" using split_list_first [OF assms(1)] by blast
  have "ses_box.texts (ses_addr s) (session_deliveries v us m) = []"
    using ss unique by (auto simp: ses_box.texts_def session_deliveries_def)
  with ss(1) assms(2) show ?thesis
    by (intro exI [of _ "session_deliveries v us m"] exI [of _ "session_deliveries v vs m"])
      (simp add: session_deliveries_def)
qed

lemma texts_client_deliveries [simp]: "ses_box.texts a (client_deliveries v cs m) = []"
  by (simp add: ses_box.texts_def client_deliveries_def comp_def)

lemma client_read_posts:
  assumes w: "session_working (ses_addr s) w" and p: "w_pending w = xs @ Client_read c # ys"
    and data: "json_parse b text = Some (JObject data)"
    and k: "kernel b data On_client (cl_id c) (snd (read_clock b (without xs ys w))) = (Ok r, v)"
    and v: "w_pending v = xs @ ys @ pre @ Session_on_send s m # rest" "ses_box.texts (ses_addr s) pre = []"
  shows "\<exists>u us vs. node_step b w (Client_got c text) (Running u) \<and> session_working (ses_addr s) u \<and>
    w_pending u = us @ Session_on_send s m # vs \<and> session_queue s u = session_queue s w \<and>
    ses_box.texts (ses_addr s) us = ses_box.texts (ses_addr s) (w_pending w)"
proof -
  let ?w = "without xs ys w" and ?a = "ses_addr s"
  let ?v = "client_send c (serialize b (JObject (get_data r))) v"
  let ?u = "initiate (Client_read c) ?v"
  have ok: "node_ok w" and flow: "flowing (session_queue_at ?a w) (session_writes ?a (w_pending w))"
    using w by (simp_all add: session_working_def)
  have calm: "calm ?w (snd (read_clock b ?w))" using without_calm [OF ok p] quiet_basic(3) by (auto intro: calm_quiet)
  have "calm ?w v" using keepsD [OF keeps_calm_kernel calm, of b data On_client "cl_id c"] k by simp
  moreover have live: "client_live ?w c" using pending_live [OF ok p] by simp
  ultimately have "client_live ?v c" using client_live_mono by (simp add: client_send_post client_live_def)
  then have read: "client_on_read b c (Read_text text) ?w = (Ok (), ?u)"
    using data k by (simp add: client_on_read_def bind_eff_call bind_eff_apply client_do_read_returns)
  then have step: "node_step b w (Client_got c text) (Running ?u)"
    using node_step.read_client [OF p, of b "Read_text text"] by (simp add: after_client_read_def settle_def)
  have u: "node_ok ?u" "moves (Client_got c text) w ?u" using step_good [OF step ok] by (simp_all add: good_step_def)
  from keepsD [OF calm_client_on_read [OF live] without_calm [OF ok p], of b "Read_text text"] read
  have "calm ?w ?u" by simp
  then obtain zs where zs: "w_pending ?u = xs @ ys @ zs" "added ?u zs"
    and old: "set (w_live_sessions w) \<subseteq> set (w_live_sessions ?u)" by (auto simp: calm_def)
  have q: "session_queue_at ?a ?u = session_queue_at ?a w" using u(2) by (simp add: moves_def)
  have "session_writes ?a (w_pending ?u) = session_writes ?a (w_pending w)"
    by (simp add: zs(1) writes_none(1) [OF zs(2)] p)
  then have "session_working ?a ?u" using u(1) q flow w old by (auto simp: session_working_def)
  moreover have "w_pending ?u = (xs @ ys @ pre) @ Session_on_send s m # rest @
      client_deliveries v [c] (serialize b (JObject (get_data r))) @ [Client_read c]"
    by (simp add: v(1) client_send_post initiate_post)
  moreover have "ses_box.texts ?a (xs @ ys @ pre) = ses_box.texts ?a (w_pending w)" using v(2) by (simp add: p)
  ultimately show ?thesis using step q by (metis session_queue_eq)
qed

lemma registered_unique:
  "node_ok w \<Longrightarrow> s \<in> set (get_sessions w) \<Longrightarrow> t \<in> set (get_sessions w) \<Longrightarrow> ses_addr t = ses_addr s \<Longrightarrow> t = s"
  using live_unique wf_registered_live by (fastforce simp: node_ok_def)

lemma view_read [simp]:
  "get_sessions (snd (read_clock b (without xs ys w))) = get_sessions w"
  "get_clients (snd (read_clock b (without xs ys w))) = get_clients w"
  "get_client i (snd (read_clock b (without xs ys w))) = get_client i w"
  "st_id (snd (read_clock b (without xs ys w))) = st_id w"
  "session_open (snd (read_clock b (without xs ys w))) = session_open w"
  "w_random (snd (read_clock b (without xs ys w))) = w_random w"
  by (simp_all add: get_sessions_def get_clients_def get_client_def session_open_def session_obj_of_def read_clock_def
      without_def fun_eq_iff)

text \<open>A broadcast is posted on every open session, a message to a remote client on the session it came from.\<close>

definition broadcast_text :: "boost \<Rightarrow> uuid \<Rightarrow> uuid \<Rightarrow> json_object \<Rightarrow> json_object" where
  "broadcast_text b tid i payload =
     [(''transaction_id'', JString (uuid_to_string b tid)), (''action'', JString ''broadcast''),
      (''params'', JObject [(''client_id'', JString (uuid_to_string b i)), (''payload'', JObject payload)])]"

lemma broadcast_text_request:
  "make_broadcast_request_object b rq i payload = broadcast_text b (rq_transaction_id rq) i payload"
  by (simp add: make_broadcast_request_object_def broadcast_text_def)

lemma broadcast_posts:
  assumes w: "session_working (ses_addr s) w" and p: "w_pending w = xs @ Client_read c # ys"
    and s: "s \<in> set (get_sessions w)" "session_open w s"
    and data: "json_parse b text = Some (JObject data)" "addressed b data ''broadcast'' tid p'"
      "map_of p' ''payload'' = Some (JObject payload)"
  shows "\<exists>u us vs. node_step b w (Client_got c text) (Running u) \<and> session_working (ses_addr s) u \<and>
    w_pending u = us @ Session_on_send s (text_of b (broadcast_text b tid (cl_id c) payload)) # vs \<and>
    session_queue s u = session_queue s w \<and>
    ses_box.texts (ses_addr s) us = ses_box.texts (ses_addr s) (w_pending w)"
proof -
  let ?w = "snd (read_clock b (without xs ys w))" and ?m = "text_of b (broadcast_text b tid (cl_id c) payload)"
  have ok: "node_ok w" using w by (simp add: session_working_def)
  obtain pre rest where d: "session_deliveries ?w (get_sessions ?w) ?m = pre @ Session_on_send s ?m # rest"
    "ses_box.texts (ses_addr s) pre = []"
    using deliveries_split [of s "get_sessions ?w" ?w ?m] s registered_unique [OF ok s(1)] by auto
  note k = kernel_addressed [OF data(2), of On_client "cl_id c" ?w]
  obtain r v where v: "kernel b data On_client (cl_id c) ?w = (Ok r, v)" "w_pending v = w_pending ?w @
      client_deliveries ?w (other_clients (st_id ?w) (cl_id c) ?w) ?m @ session_deliveries ?w (get_sessions ?w) ?m"
    unfolding k(1) dispatch_def
    by (simp add: broadcast_on_client_eq [OF _ k(2) data(3)] finish_ended broadcast_text_request count_reply_def)
  have "w_pending v = xs @ ys @ (client_deliveries ?w (other_clients (st_id ?w) (cl_id c) ?w) ?m @ pre) @
      Session_on_send s ?m # rest"
    unfolding v(2) d(1) by simp
  from client_read_posts [OF w p data(1) v(1) this] d(2) show ?thesis by simp
qed

lemma send_posts:
  assumes w: "session_working (ses_addr s) w" and p: "w_pending w = xs @ Client_read c # ys"
    and s: "s \<in> set (get_sessions w)" "session_open w s"
    and known: "get_client to w = Some e" "cl_session_id e = ses_id s" "ses_id s \<noteq> st_id w"
    and data: "json_parse b text = Some (JObject data)" "addressed b data ''send'' tid p'"
      "map_of p' ''payload'' = Some (JObject payload)" "id_param b p' ''to_client_id'' to"
  shows "\<exists>u us vs n. node_step b w (Client_got c text) (Running u) \<and> session_working (ses_addr s) u \<and>
    w_pending u = us @ Session_on_send s (text_of b (send_object b (random_uuid b n) (cl_id c) to payload)) # vs \<and>
    session_queue s u = session_queue s w \<and>
    ses_box.texts (ses_addr s) us = ses_box.texts (ses_addr s) (w_pending w)"
proof -
  let ?w = "snd (read_clock b (without xs ys w))"
  let ?m = "text_of b (send_object b (random_uuid b (w_random w)) (cl_id c) to payload)"
  let ?ss = "filter (\<lambda>x. ses_id x = ses_id s) (get_sessions w)"
  have ok: "node_ok w" using w by (simp add: session_working_def)
  have e: "cl_id e = to" using known(1) by (auto simp: get_client_def dest: mi_find_Some)
  obtain pre rest where d: "session_deliveries ?w ?ss ?m = pre @ Session_on_send s ?m # rest"
    "ses_box.texts (ses_addr s) pre = []"
    using deliveries_split [of s ?ss ?w ?m] s registered_unique [OF ok s(1)] by auto
  note k = kernel_addressed [OF data(2), of On_client "cl_id c" ?w]
  obtain r v where v: "kernel b data On_client (cl_id c) ?w = (Ok r, v)"
    "w_pending v = w_pending ?w @ session_deliveries ?w ?ss ?m"
    unfolding k(1) dispatch_def
    by (simp add: send_on_client_eq [OF _ k(2) data(3,4)] finish_ended known e send_to_session_eq)
  have "w_pending v = xs @ ys @ pre @ Session_on_send s ?m # rest" unfolding v(2) d(1) by simp
  from client_read_posts [OF w p data(1) v(1) this d(2)] show ?thesis by blast
qed

section \<open>What the receiving node makes of it\<close>

text \<open>\<open>relays b a\<close>: the libraries of \<open>b\<close> read every document that those of \<open>a\<close> write.\<close>

definition relays :: "boost \<Rightarrow> boost \<Rightarrow> bool" where
  "relays b a \<longleftrightarrow> understands b a \<and> (\<forall>d. json_parse b (serialize a (JObject d)) \<noteq> None)"

lemma relays_read: "relays b a \<Longrightarrow> json_parse b (text_of a d) = Some (JObject (as_read d))"
  by (fastforce simp: relays_def understands_def as_read_def)

lemma id_param_read:
  "relays b a \<Longrightarrow> map_of p field = Some (JString (uuid_to_string a i)) \<Longrightarrow> id_param b (as_read p) field i"
  by (simp add: relays_def understands_def reads_ids_def id_param_iff map_of_read is_uuid_def c_str_id)

lemma as_parsed_object: "as_parsed (JObject d) = JObject (as_read d)"
  by (simp add: as_read_def)

lemma broadcast_read:
  assumes w: "awaits w t d" and b: "relays b a" and i: "cl_id d \<noteq> i"
  shows "\<exists>u. node_step b w (Session_got t (text_of a (broadcast_text a tid i payload))) (Running u) \<and> awaits u t d \<and>
    Client_on_send d (text_of b (broadcast_text b tid i (as_read payload))) \<in> set (w_pending u)"
proof (rule awaits_hands_over [OF w relays_read [OF b]])
  let ?p = "[(''client_id'', JString (uuid_to_string a i)), (''payload'', JObject payload)]"
  let ?d = "broadcast_text a tid i payload"
  show "\<not> retracts b (as_read ?d) (cl_id d)"
    by (simp add: retracts_def map_of_read broadcast_text_def)
  have a: "addressed b (as_read ?d) ''broadcast'' tid (as_read ?p)"
    using id_param_read [OF b] by (simp add: addressed_def map_of_read broadcast_text_def as_parsed_object as_parsed_String del: as_parsed.simps)
  have q: "map_of (as_read ?p) ''payload'' = Some (JObject (as_read payload))" "id_param b (as_read ?p) ''client_id'' i"
    using id_param_read [OF b] by (simp_all add: map_of_read as_parsed_object del: as_parsed.simps)
  fix v assume v: "st_clients v = st_clients w" "st_id v = st_id w" "client_open v d"
  note k = kernel_addressed [OF a, of On_session "ses_id t" v]
  have "d \<in> set (other_clients (st_id v) i v)" using v w i by (simp add: other_clients_def awaits_def get_clients_def)
  with v(3) show "\<exists>r u. kernel b (as_read ?d) On_session (ses_id t) v = (Ok r, u) \<and>
      Client_on_send d (text_of b (broadcast_text b tid i (as_read payload))) \<in> set (w_pending u)"
    unfolding k(1) dispatch_def
    by (simp add: broadcast_on_session_eq [OF _ k(2) q] finish_ended broadcast_text_request client_deliveries_def)
qed

lemma send_read:
  assumes w: "awaits w t d" and b: "relays b a"
  shows "\<exists>u n. node_step b w (Session_got t (text_of a (send_object a tid i (cl_id d) payload))) (Running u) \<and> awaits u t d \<and>
    Client_on_send d (text_of b (send_object b (random_uuid b n) i (cl_id d) (as_read payload))) \<in> set (w_pending u)"
proof -
  let ?p = "[(''from_client_id'', JString (uuid_to_string a i)), (''to_client_id'', JString (uuid_to_string a (cl_id d))),
    (''payload'', JObject payload)]"
  let ?d = "send_object a tid i (cl_id d) payload"
  have a: "addressed b (as_read ?d) ''send'' tid (as_read ?p)"
    using id_param_read [OF b] by (simp add: addressed_def map_of_read send_object_def as_parsed_object as_parsed_String del: as_parsed.simps)
  have q: "map_of (as_read ?p) ''payload'' = Some (JObject (as_read payload))" "id_param b (as_read ?p) ''to_client_id'' (cl_id d)"
    "id_param b (as_read ?p) ''from_client_id'' i"
    using id_param_read [OF b] by (simp_all add: map_of_read as_parsed_object del: as_parsed.simps)
  have "wf_state w" using w wf_world_state by (simp add: awaits_def client_working_def node_ok_def)
  then have known: "get_client (cl_id d) w = Some d" using w by (simp add: get_client_iff awaits_def)
  have "\<exists>u. node_step b w (Session_got t (text_of a ?d)) (Running u) \<and> awaits u t d \<and>
    Client_on_send d (text_of b (send_object b (random_uuid b (w_random w)) i (cl_id d) (as_read payload))) \<in> set (w_pending u)"
  proof (rule awaits_hands_over [OF w relays_read [OF b]])
    show "\<not> retracts b (as_read ?d) (cl_id d)" by (simp add: retracts_def map_of_read send_object_def)
    fix v assume v: "st_clients v = st_clients w" "st_id v = st_id w" "client_open v d" "w_random v = w_random w"
    note k = kernel_addressed [OF a, of On_session "ses_id t" v]
    have "get_client (cl_id d) v = Some d" using known v(1) by (simp add: get_client_def)
    with v show "\<exists>r u. kernel b (as_read ?d) On_session (ses_id t) v = (Ok r, u) \<and>
        Client_on_send d (text_of b (send_object b (random_uuid b (w_random w)) i (cl_id d) (as_read payload))) \<in> set (w_pending u)"
      unfolding k(1) dispatch_def using w
      by (simp add: send_on_session_eq [OF _ k(2) q] finish_ended send_object_to_client_eq client_deliveries_def awaits_def)
  qed
  then show ?thesis by blast
qed

section \<open>Across the network\<close>

text \<open>The node that sends works off what is before the text, and the text.\<close>

lemma net_run_sends:
  assumes run: "net_run libs configs peer es N" and node: "net_nodes N j = Some (Running v)" "j \<noteq> k"
    and link: "peer (j, ses_addr s) = Some (k, c)" "\<And>p q r. peer p = Some r \<Longrightarrow> peer q = Some r \<Longrightarrow> p = q"
    and posted: "session_working (ses_addr s) v" "w_pending v = xs @ Session_on_send s m # ys"
  shows "\<exists>fs M. net_run libs configs peer (es @ fs) M \<and> net_nodes M k = net_nodes N k \<and>
    net_wires M (k, c) = (net_wires N (k, c) @ session_queue s v @ ses_box.texts (ses_addr s) xs) @ [m]"
proof -
  from session_delivers [OF posted, of "libs j"] obtain gs u
    where u: "node_run (libs j) v gs u" "\<forall>t m. Session_got t m \<notin> set gs"
      "sent_session (ses_addr s) gs = session_queue s v @ ses_box.texts (ses_addr s) xs @ [m]" by blast
  have "got_at a e = []" if "e \<in> set gs" for a e using u(2) that by (cases e) auto
  then have none: "got_session a gs = []" for a by (simp add: got_session_def)
  have "\<exists>M. net_run libs configs peer (es @ map (Pair j) gs) M \<and> net_nodes M = (net_nodes N)(j \<mapsto> Running u)"
    by (rule net_run_plays [OF u(1) run node(1)]) (rule link(2), assumption+, simp add: none)
  then obtain M where M: "net_run libs configs peer (es @ map (Pair j) gs) M" "net_nodes M = (net_nodes N)(j \<mapsto> Running u)" by blast
  have "net_wires M (k, c) = (net_wires N (k, c) @ session_queue s v @ ses_box.texts (ses_addr s) xs) @ [m]"
    using wires_played [OF run M(1) link(1) link(2) [OF _ link(1)]] node(2) u(3) by simp
  moreover have "net_nodes M k = net_nodes N k" using M(2) node(2) by simp
  ultimately show ?thesis using M(1) by blast
qed

text \<open>The node that receives reads all this and hands the text over.\<close>

lemma net_run_receives:
  assumes run: "net_run libs configs peer es N" and node: "net_nodes N k = Some (Running w)"
    and wires: "\<And>p q r. peer p = Some r \<Longrightarrow> peer q = Some r \<Longrightarrow> p = q" "net_wires N (k, ses_addr t) = ms @ [m]"
    and before: "awaits w t d" "\<And>x. x \<in> set ms \<Longrightarrow> honest_text a J x \<and> harmless (libs k) (cl_id d) x"
    and libs: "understands (libs k) a" "peers_accept (libs k)"
    and hands: "\<And>w. awaits w t d \<Longrightarrow> \<exists>u x. node_step (libs k) w (Session_got t m) (Running u) \<and> awaits u t d \<and>
      P x \<and> Client_on_send d x \<in> set (w_pending u)"
  shows "\<exists>fs M x. net_run libs configs peer (es @ map (Pair k) fs) M \<and> P x \<and> x \<in> set (sent_client (cl_addr d) fs)"
proof -
  from awaits_run [OF before(1) libs(2,1) before(2)] obtain u
    where u: "node_run (libs k) w (map (Session_got t) ms) u" "awaits u t d" by blast
  from hands [OF u(2)] obtain v x where v: "node_step (libs k) u (Session_got t m) (Running v)" "awaits v t d"
    "P x" "Client_on_send d x \<in> set (w_pending v)" by blast
  obtain us vs where "w_pending v = us @ Client_on_send d x # vs" using v(4) by (auto dest: split_list)
  with client_delivers [of d v us x vs "libs k"] v(2) obtain gs z
    where z: "node_run (libs k) v gs z" "list_all unconnected gs" "x \<in> set (sent_client (cl_addr d) gs)"
    by (auto simp: awaits_def)
  let ?fs = "(map (Session_got t) ms @ [Session_got t m]) @ gs"
  have all: "node_run (libs k) w ?fs z" by (rule node_run_append [OF z(1) node_run.step [OF u(1) v(1)]])
  have app: "got_session c (es @ fs) = got_session c es @ got_session c fs" for c es fs by (simp add: got_session_def)
  have many: "got_session c (map (Session_got t) xs) = (if c = ses_addr t then xs else [])" for c xs
    by (induction xs) (simp_all add: got_session_def)
  have one: "got_session c [Session_got t m] = (if c = ses_addr t then [m] else [])" for c by (simp add: got_session_def)
  have "got_session c ?fs = (if c = ses_addr t then ms @ [m] else [])" for c
    unfolding app many one using unconnected_silent [OF z(2), of c] by simp
  then have reads: "prefix (got_session c ?fs) (net_wires N (k, c))" for c by (simp add: wires(2))
  have "\<exists>M. net_run libs configs peer (es @ map (Pair k) ?fs) M \<and> net_nodes M = (net_nodes N)(k \<mapsto> Running z)"
    by (rule net_run_plays [OF all run node]) (rule wires(1), assumption+, rule reads)
  moreover have "x \<in> set (sent_client (cl_addr d) ?fs)" using z(3) by (simp add: sent_client_def)
  ultimately show ?thesis using v(3) by blast
qed

lemma net_run_delivers:
  assumes run: "net_run libs configs peer es N"
    and nodes: "net_nodes N j = Some (Running v)" "net_nodes N k = Some (Running w)" "j \<noteq> k"
    and link: "peer (j, ses_addr s) = Some (k, ses_addr t)" "\<And>p q r. peer p = Some r \<Longrightarrow> peer q = Some r \<Longrightarrow> p = q"
    and posted: "session_working (ses_addr s) v" "w_pending v = xs @ Session_on_send s m # ys"
    and receiver: "awaits w t d"
    and ahead: "\<And>x. x \<in> set (net_wires N (k, ses_addr t) @ session_queue s v @ ses_box.texts (ses_addr s) xs) \<Longrightarrow>
      harmless (libs k) (cl_id d) x"
    and libs: "understands (libs k) (libs j)" "peers_accept (libs k)"
    and hands: "\<And>w. awaits w t d \<Longrightarrow> \<exists>u x. node_step (libs k) w (Session_got t m) (Running u) \<and> awaits u t d \<and>
      P x \<and> Client_on_send d x \<in> set (w_pending u)"
  shows "\<exists>fs M x. net_run libs configs peer (es @ fs) M \<and> P x \<and> x \<in> set (sent_client (cl_addr d) (events_of k fs))"
proof -
  let ?ms = "net_wires N (k, ses_addr t) @ session_queue s v @ ses_box.texts (ses_addr s) xs"
  have "\<exists>fs M. net_run libs configs peer (es @ fs) M \<and> net_nodes M k = net_nodes N k \<and>
      net_wires M (k, ses_addr t) = ?ms @ [m]"
    by (rule net_run_sends [OF run nodes(1,3) link(1) _ posted]) (rule link(2), assumption+)
  then obtain fs M where M: "net_run libs configs peer (es @ fs) M" "net_nodes M k = net_nodes N k"
    "net_wires M (k, ses_addr t) = ?ms @ [m]" by blast
  have node: "net_nodes M k = Some (Running w)" using M(2) nodes(2) by simp
  have "honest_text (libs j) (explains (libs j) (events_of j (es @ fs))) x \<and> harmless (libs k) (cl_id d) x"
    if "x \<in> set ?ms" for x
    using wire_honest [OF M(1) link(1) link(2) [OF _ link(1)], of x] ahead [OF that] that by (simp add: M(3))
  note before = this
  have "\<exists>gs L x. net_run libs configs peer ((es @ fs) @ map (Pair k) gs) L \<and> P x \<and> x \<in> set (sent_client (cl_addr d) gs)"
    by (rule net_run_receives [OF M(1) node _ M(3) receiver before libs])
      ((rule link(2), assumption+) | assumption | (rule hands, assumption))+
  then obtain gs L x
    where L: "net_run libs configs peer ((es @ fs) @ map (Pair k) gs) L" "P x" "x \<in> set (sent_client (cl_addr d) gs)"
    by blast
  have "events_of k (map (Pair k) gs) = gs" by (simp add: events_of_def filter_map comp_def)
  then have "x \<in> set (sent_client (cl_addr d) (events_of k (fs @ map (Pair k) gs)))" using L(3) by (simp add: sent_client_def)
  with L show ?thesis by (metis append_assoc)
qed

section \<open>From client to client\<close>

text \<open>
  \<open>sends_through w c s\<close>: client \<open>c\<close> is being read and session \<open>s\<close> is registered, open and being written.
  \<open>receives_from w t d\<close>: session \<open>t\<close> is being read and \<open>d\<close> is a client of the node itself, open and being
  written.
\<close>

definition sends_through :: "world \<Rightarrow> client \<Rightarrow> session \<Rightarrow> bool" where
  "sends_through w c s \<longleftrightarrow> Client_read c \<in> set (w_pending w) \<and> s \<in> set (get_sessions w) \<and> session_open w s \<and>
     flowing (session_queue s w) (session_writes (ses_addr s) (w_pending w))"

definition receives_from :: "world \<Rightarrow> session \<Rightarrow> client \<Rightarrow> bool" where
  "receives_from w t d \<longleftrightarrow> Session_read t \<in> set (w_pending w) \<and> d \<in> set (get_clients w) \<and> cl_session_id d = st_id w \<and>
     client_open w d \<and> flowing (client_queue d w) (client_writes (cl_addr d) (w_pending w))"

text \<open>What is on its way from \<open>s\<close> to the session at the other end: on the wire, queued and posted.\<close>

definition underway :: "network \<Rightarrow> endpoint \<Rightarrow> world \<Rightarrow> session \<Rightarrow> string list" where
  "underway N q v s = net_wires N q @ session_queue s v @ ses_box.texts (ses_addr s) (w_pending v)"

lemma net_run_node_ok:
  assumes "net_run libs configs peer es N" and "net_nodes N k = Some (Running w)"
  shows "node_ok w"
  using net_run_history [OF assms(1), of k] assms(2) reaches_ok by auto

lemma sends_working: "node_ok w \<Longrightarrow> sends_through w c s \<Longrightarrow> session_working (ses_addr s) w"
  using wf_registered_live by (auto simp: sends_through_def session_working_def session_queue_eq node_ok_def)

lemma receives_awaits: "node_ok w \<Longrightarrow> receives_from w t d \<Longrightarrow> awaits w t d"
  by (auto simp: receives_from_def awaits_def client_working_def client_queue_eq get_clients_def)

lemma net_run_arrives:
  assumes run: "net_run libs configs peer es N"
    and nodes: "net_nodes N j = Some (Running v)" "net_nodes N k = Some (Running w)" "j \<noteq> k"
    and link: "peer (j, ses_addr s) = Some (k, ses_addr t)" "\<And>p q r. peer p = Some r \<Longrightarrow> peer q = Some r \<Longrightarrow> p = q"
    and receiver: "receives_from w t d"
    and ahead: "\<And>x. x \<in> set (underway N (k, ses_addr t) v s) \<Longrightarrow> harmless (libs k) (cl_id d) x"
    and libs: "relays (libs k) (libs j)" "peers_accept (libs k)"
    and step: "node_step (libs j) v (Client_got c text) (Running u)" "session_working (ses_addr s) u"
      "w_pending u = us @ Session_on_send s m # vs" "session_queue s u = session_queue s v"
      "ses_box.texts (ses_addr s) us = ses_box.texts (ses_addr s) (w_pending v)"
    and hands: "\<And>w. awaits w t d \<Longrightarrow> \<exists>u x. node_step (libs k) w (Session_got t m) (Running u) \<and> awaits u t d \<and>
      P x \<and> Client_on_send d x \<in> set (w_pending u)"
  shows "\<exists>fs M x. net_run libs configs peer (es @ (j, Client_got c text) # fs) M \<and> P x \<and>
    x \<in> set (sent_client (cl_addr d) (events_of k fs))"
proof -
  let ?e = "Client_got c text"
  have quiet: "readable peer j ?e (net_wires N)" "carry peer j ?e (net_wires N) = net_wires N"
    by (simp_all add: readable_def carry_def)
  let ?N = "N\<lparr>net_nodes := (net_nodes N)(j \<mapsto> Running u), net_wires := net_wires N\<rparr>"
  have one: "net_run libs configs peer (es @ [(j, ?e)]) ?N"
    using net_run.net_act [OF run nodes(1) step(1) quiet(1)] quiet(2) by simp
  have w: "awaits w t d" by (rule receives_awaits [OF net_run_node_ok [OF run nodes(2)] receiver])
  have und: "understands (libs k) (libs j)" using libs(1) by (simp add: relays_def)
  have "\<exists>fs M x. net_run libs configs peer ((es @ [(j, ?e)]) @ fs) M \<and> P x \<and> x \<in> set (sent_client (cl_addr d) (events_of k fs))"
  proof (rule net_run_delivers [OF one _ _ nodes(3) link _ _ w _ und libs(2) hands])
    show "net_nodes ?N j = Some (Running u)" "net_nodes ?N k = Some (Running w)" using nodes by simp_all
    show "session_working (ses_addr s) u" "w_pending u = us @ Session_on_send s m # vs" by (rule step)+
    show "harmless (libs k) (cl_id d) x"
      if "x \<in> set (net_wires ?N (k, ses_addr t) @ session_queue s u @ ses_box.texts (ses_addr s) us)" for x
      using ahead [of x] that step(4,5) by (simp add: underway_def)
  qed
  then show ?thesis by simp
qed

section \<open>A client that connects\<close>

text \<open>Two steps after the listener took it, a client receives and sends; the sessions are as they were.\<close>

lemma listener_frame:
  "st_sessions (snd (client_listener_on_accept b False w)) = st_sessions w"
  "st_id (snd (client_listener_on_accept b False w)) = st_id w"
  "w_session_objs (snd (client_listener_on_accept b False w)) = w_session_objs w"
  by (simp_all add: client_listener_on_accept_def bind_eff_apply join_to_sessions_eq client_run_def client_listener_do_accept_def
      initiate_def make_client_def new_client_def set_socket_def add_client_def read_clock_def draw_uuid_def update_client_def
      post_def case_prod_beta Let_def split: option.split)

lemma client_listens:
  assumes p: "w_pending w = xs @ Listener_accept_client # ys" and new: "get_client (random_uuid b (w_random w)) w = None"
  shows "\<exists>u. node_step b w (Client_accepted (accepted_client b w)) (Running u) \<and>
    (\<lambda>i. get_client i u) = (\<lambda>i. get_client i w)(cl_id (accepted_client b w) \<mapsto> accepted_client b w) \<and>
    w_pending u = (xs @ ys @ session_deliveries w (get_sessions w)
        (text_of b (join_object b (random_uuid b (Suc (w_random w))) (cl_id (accepted_client b w))))) @
      Client_accept (accepted_client b w) (clock_now b (w_clock w)) # [Listener_accept_client] \<and>
    st_sessions u = st_sessions w \<and> st_id u = st_id w \<and> w_session_objs u = w_session_objs w"
proof -
  let ?c = "accepted_client b w" and ?w = "without xs ys w"
  have "session_open ?w = session_open w" by (simp add: fun_eq_iff session_open_def session_obj_of_def without_def)
  then have same: "accepted_client b ?w = ?c" "get_sessions ?w = get_sessions w" "session_deliveries ?w ss m = session_deliveries w ss m"
    "w_random ?w = w_random w" "get_client i ?w = get_client i w" "w_clock ?w = w_clock w" for ss m i
    by (simp_all add: accepted_client_def get_sessions_def session_deliveries_def get_client_def) (simp_all add: without_def)
  from client_listener_accepts [of b ?w, unfolded same, OF new] obtain u
    where u: "client_listener_on_accept b False ?w = (Ok (), u)"
      "(\<lambda>i. get_client i u) = (\<lambda>i. get_client i w)(cl_id ?c \<mapsto> ?c)"
      "w_pending u = w_pending ?w @ session_deliveries w (get_sessions w)
        (text_of b (join_object b (random_uuid b (Suc (w_random w))) (cl_id ?c))) @
        [Client_accept ?c (clock_now b (w_clock w)), Listener_accept_client]"
    by blast
  have "node_step b w (Client_accepted ?c) (Running u)"
    using node_step.listen_client [OF p, of b False] u(1) by (simp add: settle_def)
  moreover have "st_sessions u = st_sessions w" "st_id u = st_id w" "w_session_objs u = w_session_objs w"
    using listener_frame [of b ?w] u(1) by (simp_all add: without_def)
  ultimately show ?thesis using u(2,3) by auto
qed

lemma client_enters:
  assumes w: "node_ok w" and p: "w_pending w = xs @ Client_accept c t # ys"
  shows "\<exists>u m. node_step b w Internal (Running u) \<and> client_open u c \<and>
    w_pending u = xs @ ys @ [Client_on_send c m, Client_read c] \<and>
    st_clients u = st_clients w \<and> st_sessions u = st_sessions w \<and> st_id u = st_id w \<and> w_session_objs u = w_session_objs w"
proof -
  let ?w = "set_client_open True c (without xs ys w)"
  have "client_live w c" using pending_live [OF w p] by simp
  then have open': "client_open ?w c" and live: "client_live ?w c"
    by (auto simp: client_live_def client_open_def client_obj_of_def set_client_open_def update_client_def has_socket_def without_def)
  let ?m = "text_of b (welcome_object b (random_uuid b (w_random ?w)) (clock_now b (w_clock ?w)) t (cl_id c))"
  let ?u = "post (client_deliveries ?w [c] ?m @ [Client_read c]) (snd (draw_uuid b (snd (read_clock b ?w))))"
  have "node_step b w Internal (Running ?u)"
    using node_step.accept_client [OF p, of b False] client_welcomed [OF live, of b t] by (simp add: settle_def)
  moreover have "client_open ?u c = client_open ?w c"
    by (simp add: client_open_def client_obj_of_def draw_uuid_def read_clock_def post_def)
  moreover have "w_pending ?u = xs @ ys @ client_deliveries ?w [c] ?m @ [Client_read c]"
    "st_clients ?u = st_clients w" "st_sessions ?u = st_sessions w" "st_id ?u = st_id w" "w_session_objs ?u = w_session_objs w"
    by (simp_all add: set_client_open_def update_client_def draw_uuid_def read_clock_def without_def post_def)
  ultimately show ?thesis using open' by (intro exI [of _ ?u] exI [of _ ?m]) (simp add: client_deliveries_def)
qed

lemma idle_client: "node_ok w \<Longrightarrow> client_queue_at a w = [] \<Longrightarrow> client_writes a (w_pending w) = []"
  unfolding node_ok_def cli.orderly_def disciplined_def by metis

lemma client_joins:
  assumes w: "node_ok w" and p: "w_pending w = xs @ Listener_accept_client # ys"
    and new: "get_client (random_uuid b (w_random w)) w = None"
  shows "\<exists>u m. node_run b w [Client_accepted (accepted_client b w), Internal] u \<and> st_id u = st_id w \<and>
    (\<lambda>i. get_client i u) = (\<lambda>i. get_client i w)(cl_id (accepted_client b w) \<mapsto> accepted_client b w) \<and>
    client_open u (accepted_client b w) \<and>
    w_pending u = xs @ ys @ session_deliveries w (get_sessions w)
        (text_of b (join_object b (random_uuid b (Suc (w_random w))) (cl_id (accepted_client b w)))) @
      [Listener_accept_client, Client_on_send (accepted_client b w) m, Client_read (accepted_client b w)] \<and>
    get_sessions u = get_sessions w \<and> w_session_objs u = w_session_objs w \<and> client_queue_at (w_next_addr w) u = []"
proof -
  let ?c = "accepted_client b w"
  obtain v where v: "node_step b w (Client_accepted ?c) (Running v)"
    "(\<lambda>i. get_client i v) = (\<lambda>i. get_client i w)(cl_id ?c \<mapsto> ?c)"
    "w_pending v = (xs @ ys @ session_deliveries w (get_sessions w)
        (text_of b (join_object b (random_uuid b (Suc (w_random w))) (cl_id ?c)))) @
      Client_accept ?c (clock_now b (w_clock w)) # [Listener_accept_client]"
    "st_sessions v = st_sessions w" "st_id v = st_id w" "w_session_objs v = w_session_objs w"
    using client_listens [OF p new] by blast
  have ok: "node_ok v" and m: "moves (Client_accepted ?c) w v" using step_good [OF v(1) w] by (simp_all add: good_step_def)
  obtain u x where u: "node_step b v Internal (Running u)" "client_open u ?c"
    "w_pending u = (xs @ ys @ session_deliveries w (get_sessions w)
        (text_of b (join_object b (random_uuid b (Suc (w_random w))) (cl_id ?c)))) @
      [Listener_accept_client] @ [Client_on_send ?c x, Client_read ?c]"
    "st_clients u = st_clients v" "st_sessions u = st_sessions v" "st_id u = st_id v" "w_session_objs u = w_session_objs v"
    using client_enters [OF ok v(3)] by blast
  have "moves Internal v u" using step_good [OF u(1) ok] by (simp add: good_step_def)
  then have "client_queue_at (w_next_addr w) u = []"
    using w m by (auto simp: moves_def node_ok_def fresh_queues_def)
  moreover have "(\<lambda>i. get_client i u) = (\<lambda>i. get_client i v)" by (simp add: get_client_def u(4))
  ultimately show ?thesis
    using node_run_first [OF node_run_first [OF node_run.stop u(1)] v(1)] u v
    by (intro exI [of _ u] exI [of _ x]) (simp add: get_sessions_def)
qed

end
