(* ===== verification/Threads.thy ===== *)
theory Threads
  imports Arrival
begin

text \<open>
  The io_context of a node may be run by several threads (\<^verbatim>\<open>server.cpp\<close>), and then handlers of different
  connections interleave. Here a handler is a \<open>thread\<close>: the accesses it makes one after the other and the
  locks it takes on the three mutexes of \<^verbatim>\<open>state\<close>. A pool of threads takes steps in any order that the
  \<^verbatim>\<open>std::shared_mutex\<close>es allow. The theory has the general facts: a discipline that gives freedom from data
  races and from deadlocks, and rely-guarantee reasoning. \<open>Concurrency\<close> applies them to the methods of
  \<^verbatim>\<open>state\<close>.
\<close>

section \<open>Threads\<close>

datatype mutex = Sessions_mutex | Clients_mutex | Subscriptions_mutex

datatype hold = Free | Shared | Exclusive

type_synonym holds = "mutex \<Rightarrow> hold"

text \<open>
  \<open>Act f k\<close> changes the world by \<open>f\<close> and goes on as \<open>k\<close> says for the world it found; \<open>Lock m x t\<close> takes a
  mutex, shared or exclusively.
\<close>

datatype thread =
    Done
  | Act "world \<Rightarrow> world" "world \<Rightarrow> thread"
  | Lock mutex hold thread
  | Unlock mutex thread

abbreviation nothing_held :: holds where
  "nothing_held \<equiv> (\<lambda>_. Free)"

text \<open>A thread that nothing interrupts.\<close>

primrec alone :: "thread \<Rightarrow> world \<Rightarrow> world" where
  "alone Done = (\<lambda>w. w)"
| "alone (Act f k) = (\<lambda>w. alone (k w) (f w))"
| "alone (Lock m x t) = alone t"
| "alone (Unlock m t) = alone t"

text \<open>One access, without a lock and under one, and a loop of accesses.\<close>

definition access :: "(world \<Rightarrow> 'a \<times> world) \<Rightarrow> ('a \<Rightarrow> thread) \<Rightarrow> thread" where
  "access f k = Act (snd \<circ> f) (\<lambda>w. k (fst (f w)))"

definition locked :: "mutex \<Rightarrow> hold \<Rightarrow> (world \<Rightarrow> 'a \<times> world) \<Rightarrow> ('a \<Rightarrow> thread) \<Rightarrow> thread" where
  "locked m x f k = Lock m x (access f (\<lambda>a. Unlock m (k a)))"

definition each :: "('a \<Rightarrow> world \<Rightarrow> world) \<Rightarrow> 'a list \<Rightarrow> thread \<Rightarrow> thread" where
  "each f xs k = foldr (\<lambda>x t. Act (f x) (\<lambda>_. t)) xs k"

lemma alone_access [simp]: "alone (access f k) w = alone (k (fst (f w))) (snd (f w))"
  by (simp add: access_def)

lemma alone_locked [simp]: "alone (locked m x f k) w = alone (k (fst (f w))) (snd (f w))"
  by (simp add: locked_def)

lemma each_simps [simp]: "each f [] k = k" "each f (x # xs) k = Act (f x) (\<lambda>_. each f xs k)"
  by (simp_all add: each_def)

lemma alone_each [simp]: "alone (each f xs k) w = alone k (fold f xs w)"
  by (induction xs arbitrary: w) simp_all

section \<open>Pools\<close>

text \<open>The threads of a pool with the locks they hold. A lock is granted when it is compatible with every other.\<close>

type_synonym pool = "world \<times> (holds \<times> thread) list"

fun compatible :: "hold \<Rightarrow> hold \<Rightarrow> bool" where
  "compatible Exclusive Shared = False"
| "compatible Exclusive Exclusive = False"
| "compatible Shared Exclusive = False"
| "compatible _ _ = True"

lemma compatible_simps [simp]:
  "compatible Free x" "compatible x Free" "compatible Exclusive x \<longleftrightarrow> x = Free" "compatible x Exclusive \<longleftrightarrow> x = Free"
  by (cases x; simp)+

lemma compatible_sym: "compatible x y \<longleftrightarrow> compatible y x"
  by (cases x; cases y) simp_all

definition available :: "(holds \<times> thread) list \<Rightarrow> nat \<Rightarrow> mutex \<Rightarrow> hold \<Rightarrow> bool" where
  "available ts i m x \<longleftrightarrow> (\<forall>j<length ts. j \<noteq> i \<longrightarrow> compatible x (fst (ts ! j) m))"

inductive pool_step :: "pool \<Rightarrow> pool \<Rightarrow> bool" where
  pool_act: "i < length ts \<Longrightarrow> ts ! i = (h, Act f k) \<Longrightarrow> pool_step (w, ts) (f w, ts[i := (h, k w)])"
| pool_lock: "i < length ts \<Longrightarrow> ts ! i = (h, Lock m x t) \<Longrightarrow> available ts i m x \<Longrightarrow>
    pool_step (w, ts) (w, ts[i := (h(m := x), t)])"
| pool_unlock: "i < length ts \<Longrightarrow> ts ! i = (h, Unlock m t) \<Longrightarrow> pool_step (w, ts) (w, ts[i := (h(m := Free), t)])"

abbreviation pool_run :: "pool \<Rightarrow> pool \<Rightarrow> bool" where
  "pool_run \<equiv> pool_step\<^sup>*\<^sup>*"

definition pool_of :: "thread list \<Rightarrow> (holds \<times> thread) list" where
  "pool_of ts = map (Pair nothing_held) ts"

definition finished :: "(holds \<times> thread) list \<Rightarrow> bool" where
  "finished ts \<longleftrightarrow> (\<forall>x\<in>set ts. snd x = Done)"

inductive_cases pool_stepE: "pool_step (w, ts) q"

text \<open>No two threads ever hold incompatible locks.\<close>

definition excluding :: "(holds \<times> thread) list \<Rightarrow> bool" where
  "excluding ts \<longleftrightarrow> (\<forall>i<length ts. \<forall>j<length ts. i \<noteq> j \<longrightarrow> (\<forall>m. compatible (fst (ts ! i) m) (fst (ts ! j) m)))"

lemma excludingD:
  "excluding ts \<Longrightarrow> i < length ts \<Longrightarrow> j < length ts \<Longrightarrow> i \<noteq> j \<Longrightarrow> compatible (fst (ts ! i) m) (fst (ts ! j) m)"
  by (simp add: excluding_def)

lemma excluding_pool_of: "excluding (pool_of ts)"
  by (simp add: excluding_def pool_of_def)

lemma excluding_update:
  assumes ts: "excluding ts" and i: "i < length ts"
    and new: "\<And>m j. j < length ts \<Longrightarrow> j \<noteq> i \<Longrightarrow> compatible (h m) (fst (ts ! j) m)"
  shows "excluding (ts[i := (h, t)])"
  using excludingD [OF ts] i new by (auto simp: excluding_def nth_list_update compatible_sym [of _ "h _"])

lemma pool_step_excluding:
  assumes "pool_step (w, ts) (w', ts')" and "excluding ts"
  shows "excluding ts'"
  using assms(1)
proof (rule pool_stepE)
  fix i h f k assume i: "i < length ts" "ts ! i = (h, Act f k)" "(w', ts') = (f w, ts[i := (h, k w)])"
  then show ?thesis using excludingD [OF assms(2), of i] excluding_update [OF assms(2), of i h] by simp
next
  fix i h m x t
  assume i: "i < length ts" "ts ! i = (h, Lock m x t)" "available ts i m x" "(w', ts') = (w, ts[i := (h(m := x), t)])"
  then show ?thesis
    using excludingD [OF assms(2), of i] excluding_update [OF assms(2), of i "h(m := x)"] by (simp add: available_def)
next
  fix i h m t assume i: "i < length ts" "ts ! i = (h, Unlock m t)" "(w', ts') = (w, ts[i := (h(m := Free), t)])"
  then show ?thesis using excludingD [OF assms(2), of i] excluding_update [OF assms(2), of i "h(m := Free)"] by simp
qed

section \<open>The discipline of a thread\<close>

text \<open>
  \<open>avoids m f k\<close>: the access neither reads nor writes the container that \<open>m\<close> protects, whatever another
  thread puts there. \<open>only_reads m f\<close>: it leaves the container as it is.
\<close>

fun graft :: "mutex \<Rightarrow> world \<Rightarrow> world \<Rightarrow> world" where
  "graft Sessions_mutex v w = w\<lparr>st_sessions := st_sessions v\<rparr>"
| "graft Clients_mutex v w = w\<lparr>st_clients := st_clients v\<rparr>"
| "graft Subscriptions_mutex v w = w\<lparr>st_subscriptions := st_subscriptions v\<rparr>"

definition avoids :: "mutex \<Rightarrow> (world \<Rightarrow> world) \<Rightarrow> (world \<Rightarrow> thread) \<Rightarrow> bool" where
  "avoids m f k \<longleftrightarrow> (\<forall>v w. f (graft m v w) = graft m v (f w) \<and> k (graft m v w) = k w)"

definition only_reads :: "mutex \<Rightarrow> (world \<Rightarrow> world) \<Rightarrow> bool" where
  "only_reads m f \<longleftrightarrow> (\<forall>w. graft m w (f w) = f w)"

text \<open>
  A disciplined thread accesses a container only while it holds its mutex, writes it only while it holds the
  mutex exclusively, takes one mutex at a time and gives back what it takes.
\<close>

primrec guarded :: "thread \<Rightarrow> holds \<Rightarrow> bool" where
  "guarded Done = (\<lambda>h. h = nothing_held)"
| "guarded (Act f k) = (\<lambda>h. (\<forall>m. (h m = Free \<longrightarrow> avoids m f k) \<and> (h m = Shared \<longrightarrow> only_reads m f)) \<and>
     (\<forall>w. guarded (k w) h))"
| "guarded (Lock m x t) = (\<lambda>h. h = nothing_held \<and> x \<noteq> Free \<and> guarded t (h(m := x)))"
| "guarded (Unlock m t) = (\<lambda>h. h m \<noteq> Free \<and> guarded t (h(m := Free)))"

definition disciplined_pool :: "(holds \<times> thread) list \<Rightarrow> bool" where
  "disciplined_pool ts \<longleftrightarrow> excluding ts \<and> (\<forall>x\<in>set ts. guarded (snd x) (fst x))"

lemma disciplined_pool_of: "(\<And>t. t \<in> set ts \<Longrightarrow> guarded t nothing_held) \<Longrightarrow> disciplined_pool (pool_of ts)"
  using excluding_pool_of by (auto simp: disciplined_pool_def pool_of_def)

lemma pool_step_disciplined:
  assumes step: "pool_step (w, ts) (w', ts')" and ts: "disciplined_pool ts"
  shows "disciplined_pool ts'"
proof -
  have g: "guarded (snd (ts ! i)) (fst (ts ! i))" if "i < length ts" for i using ts that by (simp add: disciplined_pool_def)
  from step have "\<exists>i<length ts. \<exists>h t. ts' = ts[i := (h, t)] \<and> guarded t h"
    by (rule pool_stepE) (use g in force)+
  then obtain i h t where "ts' = ts[i := (h, t)]" "guarded t h" by blast
  then have "guarded (snd x) (fst x)" if "x \<in> set ts'" for x
    using ts that set_update_subset_insert [of ts i "(h, t)"] by (auto simp: disciplined_pool_def)
  with pool_step_excluding [OF step] ts show ?thesis by (auto simp: disciplined_pool_def)
qed

lemma pool_run_disciplined:
  assumes "pool_run (w, ts) (w', ts')" and "disciplined_pool ts"
  shows "disciplined_pool ts'"
  using assms by (induction rule: rtranclp_induct2) (auto dest: pool_step_disciplined)

text \<open>Two threads that are about to access the same container both only read it.\<close>

lemma race_free:
  assumes ts: "disciplined_pool ts" and ij: "i < length ts" "j < length ts" "i \<noteq> j"
    and acts: "ts ! i = (h, Act f k)" "ts ! j = (h', Act g l)"
  shows "avoids m f k \<or> avoids m g l \<or> (only_reads m f \<and> only_reads m g)"
proof -
  have i: "guarded (Act f k) h" and j: "guarded (Act g l) h'"
    using ts ij acts nth_mem [of i ts] nth_mem [of j ts] by (force simp: disciplined_pool_def)+
  have "compatible (h m) (h' m)" using ts ij acts excludingD [of ts i j] by (simp add: disciplined_pool_def)
  then show ?thesis using i j by (cases "h m"; cases "h' m") auto
qed

section \<open>Every schedule ends\<close>

text \<open>While a thread is not done, some thread can go on; and a thread has no infinite run.\<close>

lemma pool_progress:
  assumes ts: "disciplined_pool ts" and unfinished: "\<not> finished ts"
  shows "\<exists>q. pool_step (w, ts) q"
proof (cases "\<exists>i<length ts. \<exists>f k m t. snd (ts ! i) = Act f k \<or> snd (ts ! i) = Unlock m t")
  case True
  then show ?thesis by (metis pool_act pool_unlock prod.collapse)
next
  case False
  have still: "fst (ts ! i) = nothing_held" if "i < length ts" for i
  proof -
    have "guarded (snd (ts ! i)) (fst (ts ! i))" using ts that by (simp add: disciplined_pool_def)
    with False that show ?thesis by (cases "snd (ts ! i)") auto
  qed
  obtain i where i: "i < length ts" "snd (ts ! i) \<noteq> Done" using unfinished by (auto simp: finished_def in_set_conv_nth)
  with False obtain m x t where "snd (ts ! i) = Lock m x t" by (cases "snd (ts ! i)") auto
  then have "ts ! i = (fst (ts ! i), Lock m x t)" by (metis prod.collapse)
  moreover have "available ts i m x" using still by (simp add: available_def)
  ultimately show ?thesis using pool_lock i(1) by blast
qed

inductive follows :: "thread \<Rightarrow> thread \<Rightarrow> bool" where
  "follows (k w) (Act f k)"
| "follows t (Lock m x t)"
| "follows t (Unlock m t)"

inductive_simps follows_iffs: "follows s Done" "follows s (Act f k)" "follows s (Lock m x t)" "follows s (Unlock m t)"

lemma wf_follows: "wf {(s, t). follows s t}"
proof (rule wfUNIVI)
  fix P :: "thread \<Rightarrow> bool" and t
  assume "\<forall>t. (\<forall>s. (s, t) \<in> {(s, t). follows s t} \<longrightarrow> P s) \<longrightarrow> P t"
  then have step: "(\<And>s. follows s t \<Longrightarrow> P s) \<Longrightarrow> P t" for t by simp
  show "P t" by (induction t) (rule step, force simp: follows_iffs)+
qed

lemma pool_step_follows:
  assumes "pool_step (w, ts) (w', ts')"
  shows "(map snd ts', map snd ts) \<in> listrel1 {(s, t). follows s t}"
proof -
  from assms have "\<exists>i t. i < length ts \<and> map snd ts' = (map snd ts)[i := t] \<and> follows t (map snd ts ! i)"
    by (rule pool_stepE) (force simp: map_update intro: follows.intros)+
  then obtain i t where t: "i < length ts" "map snd ts' = (map snd ts)[i := t]" "follows t (map snd ts ! i)" by blast
  then have "map snd ts = take i (map snd ts) @ (map snd ts ! i) # drop (Suc i) (map snd ts)"
    by (intro id_take_nth_drop) simp
  with t show ?thesis by (auto simp: listrel1_def upd_conv_take_nth_drop)
qed

lemma pool_ends: "wf {(q, p). pool_step p q}"
proof (rule wf_subset [OF wf_inv_image [OF iffD2 [OF wf_listrel1_iff wf_follows], of "\<lambda>p. map snd (snd p)"]])
  show "{(q, p). pool_step p q} \<subseteq> inv_image (listrel1 {(s, t). follows s t}) (\<lambda>p. map snd (snd p))"
    using pool_step_follows by (auto simp: inv_image_def)
qed

lemma pool_finishes: "disciplined_pool ts \<Longrightarrow> \<exists>w' ts'. pool_run (w, ts) (w', ts') \<and> finished ts'"
proof (induction "(w, ts)" arbitrary: w ts rule: wf_induct_rule [OF pool_ends])
  case (1 w ts)
  show ?case
  proof (cases "finished ts")
    case False
    with pool_progress [OF 1(2)] obtain w' ts' where step: "pool_step (w, ts) (w', ts')" by fastforce
    with 1(1) [of w' ts'] pool_step_disciplined [OF step 1(2)] show ?thesis
      by (metis (mono_tags, lifting) case_prodI converse_rtranclp_into_rtranclp mem_Collect_eq)
  qed blast
qed

section \<open>Rely and guarantee\<close>

text \<open>
  \<open>G i h w w'\<close>: the changes thread \<open>i\<close> may make while it holds \<open>h\<close>. An assertion is stable for a thread when
  no change of another thread, made under locks compatible with its own, falsifies it.
\<close>

type_synonym guarantee = "nat \<Rightarrow> holds \<Rightarrow> world \<Rightarrow> world \<Rightarrow> bool"

definition stable :: "guarantee \<Rightarrow> nat \<Rightarrow> holds \<Rightarrow> (world \<Rightarrow> bool) \<Rightarrow> bool" where
  "stable G i h P \<longleftrightarrow> (\<forall>j h' w w'. j \<noteq> i \<longrightarrow> (\<forall>m. compatible (h m) (h' m)) \<longrightarrow> P w \<longrightarrow> G j h' w w' \<longrightarrow> P w')"

inductive meets :: "guarantee \<Rightarrow> nat \<Rightarrow> (world \<Rightarrow> bool) \<Rightarrow> holds \<Rightarrow> (world \<Rightarrow> bool) \<Rightarrow> thread \<Rightarrow> bool"
  for G i Q where
  meets_done: "stable G i h P \<Longrightarrow> (\<And>w. P w \<Longrightarrow> Q w) \<Longrightarrow> meets G i Q h P Done"
| meets_act: "stable G i h P \<Longrightarrow>
    (\<And>w. P w \<Longrightarrow> G i h w (f w) \<and> (\<exists>P'. P' (f w) \<and> meets G i Q h P' (k w))) \<Longrightarrow> meets G i Q h P (Act f k)"
| meets_lock: "stable G i h P \<Longrightarrow> meets G i Q (h(m := x)) P t \<Longrightarrow> meets G i Q h P (Lock m x t)"
| meets_unlock: "stable G i h P \<Longrightarrow> meets G i Q (h(m := Free)) P t \<Longrightarrow> meets G i Q h P (Unlock m t)"

inductive_simps meets_iffs:
  "meets G i Q h P Done" "meets G i Q h P (Act f k)" "meets G i Q h P (Lock m x t)" "meets G i Q h P (Unlock m t)"

lemma meets_stable: "meets G i Q h P t \<Longrightarrow> stable G i h P"
  by (cases rule: meets.cases)

lemma meets_stronger:
  "meets G i Q h P t \<Longrightarrow> (\<And>h. stable G i h P') \<Longrightarrow> (\<And>w. P' w \<Longrightarrow> P w) \<Longrightarrow> meets G i Q h P' t"
proof (induction h P t rule: meets.induct)
  case (meets_act h P f k)
  then have "G i h w (f w) \<and> (\<exists>P'. P' (f w) \<and> meets G i Q h P' (k w))" if "P' w" for w using that by blast
  with meets_act.prems(1) show ?case by (rule meets.meets_act)
qed (auto intro: meets.intros)

definition pool_meets :: "guarantee \<Rightarrow> (nat \<Rightarrow> world \<Rightarrow> bool) \<Rightarrow> pool \<Rightarrow> bool" where
  "pool_meets G Q p \<longleftrightarrow> excluding (snd p) \<and>
     (\<forall>i<length (snd p). \<exists>P. P (fst p) \<and> meets G i (Q i) (fst (snd p ! i)) P (snd (snd p ! i)))"

text \<open>A step of one thread, allowed by its guarantee, keeps what the others rely on.\<close>

lemma pool_meets_update:
  assumes p: "pool_meets G Q (w, ts)" and i: "i < length ts" "fst (ts ! i) = h"
    and ex: "excluding (ts[i := (h', t)])" and change: "w' = w \<or> G i h w w'"
    and new: "P w'" "meets G i (Q i) h' P t"
  shows "pool_meets G Q (w', ts[i := (h', t)])"
proof -
  have "\<exists>P. P w' \<and> meets G j (Q j) (fst (ts ! j)) P (snd (ts ! j))" if j: "j < length ts" "j \<noteq> i" for j
  proof -
    obtain P where P: "P w" "meets G j (Q j) (fst (ts ! j)) P (snd (ts ! j))" using p j(1) by (auto simp: pool_meets_def)
    have "\<forall>m. compatible (fst (ts ! j) m) (h m)" using p i j excludingD [of ts j i] by (simp add: pool_meets_def)
    then have "P w'" using change P(1) meets_stable [OF P(2)] j(2) unfolding stable_def by metis
    with P(2) show ?thesis by blast
  qed
  with ex new i(1) show ?thesis by (auto simp: pool_meets_def nth_list_update)
qed

lemma pool_step_meets:
  assumes step: "pool_step (w, ts) (w', ts')" and p: "pool_meets G Q (w, ts)"
  shows "pool_meets G Q (w', ts')"
proof -
  have ex: "excluding ts'" using pool_step_excluding [OF step] p by (simp add: pool_meets_def)
  have "\<exists>P. P w \<and> meets G i (Q i) (fst (ts ! i)) P (snd (ts ! i))" if "i < length ts" for i
    using p that by (simp add: pool_meets_def)
  note old = this
  from step show ?thesis
  proof (rule pool_stepE)
    fix i h f k assume i: "i < length ts" "ts ! i = (h, Act f k)" "(w', ts') = (f w, ts[i := (h, k w)])"
    from old [OF i(1)] i(2) obtain P where "P w" "meets G i (Q i) h P (Act f k)" by auto
    then obtain P' where "G i h w (f w)" "P' (f w)" "meets G i (Q i) h P' (k w)" unfolding meets_iffs by blast
    with pool_meets_update [OF p i(1), of h h "k w" "f w" P'] i ex show ?thesis by simp
  next
    fix i h m x t
    assume i: "i < length ts" "ts ! i = (h, Lock m x t)" "(w', ts') = (w, ts[i := (h(m := x), t)])"
    from old [OF i(1)] i(2) obtain P where "P w" "meets G i (Q i) (h(m := x)) P t" by (auto simp: meets_iffs)
    with pool_meets_update [OF p i(1), of h "h(m := x)" t w P] i ex show ?thesis by simp
  next
    fix i h m t assume i: "i < length ts" "ts ! i = (h, Unlock m t)" "(w', ts') = (w, ts[i := (h(m := Free), t)])"
    from old [OF i(1)] i(2) obtain P where "P w" "meets G i (Q i) (h(m := Free)) P t" by (auto simp: meets_iffs)
    with pool_meets_update [OF p i(1), of h "h(m := Free)" t w P] i ex show ?thesis by simp
  qed
qed

text \<open>When all threads of a pool are done, each has established its postcondition.\<close>

lemma rely_guarantee:
  assumes run: "pool_run (w, pool_of ts) (w', ts')" and ends: "finished ts'"
    and all: "\<And>i. i < length ts \<Longrightarrow> \<exists>P. P w \<and> meets G i (Q i) nothing_held P (ts ! i)"
    and i: "i < length ts"
  shows "Q i w'"
proof -
  have start: "pool_meets G Q (w, pool_of ts)"
    using all excluding_pool_of by (simp add: pool_meets_def pool_of_def)
  have "pool_meets G Q (w', ts') \<and> length ts' = length ts" using run
  proof (induction rule: rtranclp_induct2)
    case refl
    then show ?case using start by (simp add: pool_of_def)
  next
    case (step w1 ts1 w2 ts2)
    have "length ts2 = length ts1" using step(2) by (rule pool_stepE) simp_all
    with step pool_step_meets [OF step(2)] show ?case by simp
  qed
  then obtain P where "P w'" "meets G i (Q i) (fst (ts' ! i)) P (snd (ts' ! i))" using i by (auto simp: pool_meets_def)
  moreover have "snd (ts' ! i) = Done" using ends i \<open>_ \<and> _\<close> by (simp add: finished_def)
  ultimately show ?thesis by (simp add: meets_iffs)
qed

text \<open>What every guarantee keeps holds throughout.\<close>

lemma pool_kept:
  assumes run: "pool_run (w, pool_of ts) (w', ts')" and start: "I w"
    and all: "\<And>i. i < length ts \<Longrightarrow> \<exists>P. P w \<and> meets G i (Q i) nothing_held P (ts ! i)"
    and keeps: "\<And>i h v v'. G i h v v' \<Longrightarrow> I v \<Longrightarrow> I v'"
  shows "I w'"
proof -
  have "pool_meets G Q (w, pool_of ts)" using all excluding_pool_of by (simp add: pool_meets_def pool_of_def)
  with run start have "pool_meets G Q (w', ts') \<and> I w'"
  proof (induction rule: rtranclp_induct2)
    case (step w1 ts1 w2 ts2)
    then have p: "pool_meets G Q (w1, ts1)" and "I w1" by simp_all
    from step(2) have "w2 = w1 \<or> (\<exists>i h. G i h w1 w2)"
    proof (rule pool_stepE)
      fix i h f k assume i: "i < length ts1" "ts1 ! i = (h, Act f k)" "(w2, ts2) = (f w1, ts1[i := (h, k w1)])"
      from p i(1) obtain P where "P w1" "meets G i (Q i) (fst (ts1 ! i)) P (snd (ts1 ! i))" unfolding pool_meets_def by auto
      then have "P w1" "meets G i (Q i) h P (Act f k)" using i(2) by simp_all
      with i(3) show ?thesis unfolding meets_iffs by blast
    qed simp_all
    then have "I w2" using \<open>I w1\<close> by (elim disjE exE) (simp, rule keeps)
    with pool_step_meets [OF step(2) p] show ?case ..
  qed simp
  then show ?thesis ..
qed

text \<open>The rules for an access, for an access under a lock and for a loop.\<close>

lemma meets_access:
  assumes "stable G i h P" and "\<And>w. P w \<Longrightarrow> G i h w (snd (f w)) \<and> (\<exists>P'. P' (snd (f w)) \<and> meets G i Q h P' (k (fst (f w))))"
  shows "meets G i Q h P (access f k)"
  unfolding access_def using assms by (intro meets_act) simp_all

lemma meets_locked:
  assumes P: "h m = Free" "stable G i h P" "stable G i (h(m := x)) P"
    and f: "\<And>w. P w \<Longrightarrow> G i (h(m := x)) w (snd (f w)) \<and>
      (\<exists>P'. P' (snd (f w)) \<and> stable G i (h(m := x)) P' \<and> meets G i Q h P' (k (fst (f w))))"
  shows "meets G i Q h P (locked m x f k)"
proof -
  have h: "h(m := x, m := Free) = h" using P(1) by auto
  show ?thesis
    unfolding locked_def
  proof (rule meets_lock [OF P(2)], rule meets_access [OF P(3)])
    fix w assume "P w"
    with f obtain P' where "G i (h(m := x)) w (snd (f w))" "P' (snd (f w))" "stable G i (h(m := x)) P'"
      "meets G i Q h P' (k (fst (f w)))" by blast
    then show "G i (h(m := x)) w (snd (f w)) \<and>
        (\<exists>P'. P' (snd (f w)) \<and> meets G i Q (h(m := x)) P' (Unlock m (k (fst (f w)))))"
      unfolding meets_iffs h by blast
  qed
qed

lemma meets_each:
  assumes "\<And>ys. stable G i h (P ys)" and "\<And>y ys w. P (y # ys) w \<Longrightarrow> G i h w (f y w) \<and> P ys (f y w)"
    and "meets G i Q h (P []) k"
  shows "meets G i Q h (P xs) (each f xs k)"
  using assms(2,3) by (induction xs) (auto intro!: meets_act assms(1))

end
