(* ===== verification/Concurrency.thy ===== *)
theory Concurrency
  imports Threads
begin

text \<open>
  The methods of \<^verbatim>\<open>state\<close> and the handlers that register, announce and synchronise, as threads with the
  locks of \<^verbatim>\<open>state.cpp\<close>. Each takes what follows it as its last argument. A generator of identifiers is an
  object of its own at each use and posting a task is atomic, so that the body of a send loop is one access.
\<close>

section \<open>The methods of the registry\<close>

definition get_sessions_thread :: "(session list \<Rightarrow> thread) \<Rightarrow> thread" where
  "get_sessions_thread = locked Sessions_mutex Shared (\<lambda>w. (get_sessions w, w))"

definition get_clients_thread :: "(client list \<Rightarrow> thread) \<Rightarrow> thread" where
  "get_clients_thread = locked Clients_mutex Shared (\<lambda>w. (get_clients w, w))"

definition get_subscriptions_thread :: "(subscription list \<Rightarrow> thread) \<Rightarrow> thread" where
  "get_subscriptions_thread = locked Subscriptions_mutex Shared (\<lambda>w. (get_subscriptions w, w))"

definition get_session_thread :: "uuid \<Rightarrow> (session option \<Rightarrow> thread) \<Rightarrow> thread" where
  "get_session_thread i = locked Sessions_mutex Shared (\<lambda>w. (get_session i w, w))"

definition get_client_thread :: "uuid \<Rightarrow> (client option \<Rightarrow> thread) \<Rightarrow> thread" where
  "get_client_thread i = locked Clients_mutex Shared (\<lambda>w. (get_client i w, w))"

definition add_session_thread :: "session \<Rightarrow> (bool \<Rightarrow> thread) \<Rightarrow> thread" where
  "add_session_thread s = locked Sessions_mutex Exclusive (add_session s)"

definition remove_session_thread :: "uuid \<Rightarrow> (bool \<Rightarrow> thread) \<Rightarrow> thread" where
  "remove_session_thread i = locked Sessions_mutex Exclusive (remove_session i)"

definition add_client_thread :: "client \<Rightarrow> (bool \<Rightarrow> thread) \<Rightarrow> thread" where
  "add_client_thread c = locked Clients_mutex Exclusive (add_client c)"

definition push_client_thread :: "client \<Rightarrow> (bool \<Rightarrow> thread) \<Rightarrow> thread" where
  "push_client_thread c = locked Clients_mutex Exclusive (push_client c)"

definition remove_client_thread :: "uuid \<Rightarrow> (bool \<Rightarrow> thread) \<Rightarrow> thread" where
  "remove_client_thread i = locked Clients_mutex Exclusive (remove_client i)"

definition subscribe_thread :: "uuid \<Rightarrow> uuid \<Rightarrow> string \<Rightarrow> (bool \<Rightarrow> thread) \<Rightarrow> thread" where
  "subscribe_thread sid i channel = locked Subscriptions_mutex Exclusive (subscribe sid i channel)"

definition unsubscribe_thread :: "uuid \<Rightarrow> uuid \<Rightarrow> string \<Rightarrow> (bool \<Rightarrow> thread) \<Rightarrow> thread" where
  "unsubscribe_thread sid i channel = locked Subscriptions_mutex Exclusive (unsubscribe sid i channel)"

definition is_subscribed_thread :: "uuid \<Rightarrow> string \<Rightarrow> (bool \<Rightarrow> thread) \<Rightarrow> thread" where
  "is_subscribed_thread i channel = locked Subscriptions_mutex Shared (\<lambda>w. (is_subscribed i channel w, w))"

definition remove_state_of_session_thread :: "uuid \<Rightarrow> thread \<Rightarrow> thread" where
  "remove_state_of_session_thread i k =
     locked Clients_mutex Exclusive (\<lambda>w. ((), w\<lparr>st_clients := mi_erase_range cl_session_id i (st_clients w)\<rparr>)) (\<lambda>_.
     locked Subscriptions_mutex Exclusive
       (\<lambda>w. ((), w\<lparr>st_subscriptions := mi_erase_range sub_session_id i (st_subscriptions w)\<rparr>)) (\<lambda>_. k))"

section \<open>The methods that send\<close>

definition send_to_sessions_thread :: "boost \<Rightarrow> json_object \<Rightarrow> (size_t \<Rightarrow> thread) \<Rightarrow> thread" where
  "send_to_sessions_thread b data k =
     get_sessions_thread (\<lambda>sessions.
     each (\<lambda>s. session_send s (serialize b (JObject data))) sessions (k (of_nat (length sessions))))"

definition send_to_others_clients_thread ::
    "boost \<Rightarrow> json_object \<Rightarrow> uuid \<Rightarrow> uuid \<Rightarrow> (size_t \<Rightarrow> thread) \<Rightarrow> thread" where
  "send_to_others_clients_thread b data session_id client_id k =
     get_clients_thread (\<lambda>clients.
     each (\<lambda>c w. if cl_id c = client_id \<or> cl_session_id c \<noteq> session_id then w
                 else client_send c (serialize b (JObject data)) w) clients (k (of_nat (length clients) - 1)))"

definition send_to_subscribed_sessions_thread ::
    "boost \<Rightarrow> json_object \<Rightarrow> string \<Rightarrow> (size_t \<Rightarrow> thread) \<Rightarrow> thread" where
  "send_to_subscribed_sessions_thread b data channel k =
     locked Subscriptions_mutex Shared
       (\<lambda>w. (fold (\<lambda>x r. if sub_session_id x \<in> set r then r else sub_session_id x # r)
               (mi_equal_range sub_channel channel (st_subscriptions w)) [], w)) (\<lambda>receivers.
     if receivers = [] then k 0
     else
       get_sessions_thread (\<lambda>sessions.
       each (\<lambda>s w. if ses_id s \<in> set receivers then session_send s (serialize b (JObject data)) w else w)
         sessions (k (of_nat (length receivers)))))"

definition join_to_sessions_thread :: "boost \<Rightarrow> uuid \<Rightarrow> (size_t \<Rightarrow> thread) \<Rightarrow> thread" where
  "join_to_sessions_thread b i k =
     access (make_join_request_object b i) (\<lambda>data. send_to_sessions_thread b data k)"

definition leave_to_sessions_thread :: "boost \<Rightarrow> uuid \<Rightarrow> (size_t \<Rightarrow> thread) \<Rightarrow> thread" where
  "leave_to_sessions_thread b i k =
     access (make_leave_request_object b i) (\<lambda>data. send_to_sessions_thread b data k)"

text \<open>
  A synchronisation holds the mutex of the clients while it sends what it finds there, then that of the
  subscriptions.
\<close>

definition sync_thread :: "boost \<Rightarrow> session \<Rightarrow> bool \<Rightarrow> thread \<Rightarrow> thread" where
  "sync_thread b session registered k =
     (let subscriptions =
            Lock Subscriptions_mutex Shared (access (\<lambda>w. (mi_equal_range sub_session_id (get_id w) (st_subscriptions w), w)) (\<lambda>xs.
            each (sync_subscription b session) xs (Unlock Subscriptions_mutex k)));
          clients =
            Lock Clients_mutex Shared (access (\<lambda>w. (mi_equal_range cl_session_id (get_id w) (st_clients w), w)) (\<lambda>cs.
            each (sync_client b session) cs (Unlock Clients_mutex subscriptions)))
      in if \<not> registered then get_sessions_thread (\<lambda>sessions. each (sync_sessions b session) sessions clients)
         else clients)"

section \<open>Handlers\<close>

text \<open>
  A client from \<^verbatim>\<open>add_client\<close> in \<^verbatim>\<open>client_listener::on_accept\<close> on, and what its own strand does when its
  connection ends.
\<close>

definition client_accepted_thread :: "boost \<Rightarrow> client \<Rightarrow> thread \<Rightarrow> thread" where
  "client_accepted_thread b c k =
     add_client_thread c (\<lambda>_. join_to_sessions_thread b (cl_id c) (\<lambda>_. access (\<lambda>w. ((), client_run b c w)) (\<lambda>_. k)))"

definition client_disconnected_thread :: "boost \<Rightarrow> client \<Rightarrow> thread \<Rightarrow> thread" where
  "client_disconnected_thread b c k =
     remove_client_thread (cl_id c) (\<lambda>_. leave_to_sessions_thread b (cl_id c) (\<lambda>_. k))"

lemmas thread_defs = get_sessions_thread_def get_clients_thread_def get_subscriptions_thread_def get_session_thread_def
  get_client_thread_def add_session_thread_def remove_session_thread_def add_client_thread_def push_client_thread_def
  remove_client_thread_def subscribe_thread_def unsubscribe_thread_def is_subscribed_thread_def
  remove_state_of_session_thread_def send_to_sessions_thread_def send_to_others_clients_thread_def
  send_to_subscribed_sessions_thread_def join_to_sessions_thread_def leave_to_sessions_thread_def sync_thread_def
  client_accepted_thread_def client_disconnected_thread_def

section \<open>Uninterrupted, the threads are the methods\<close>

lemma alone_registry:
  "alone (get_sessions_thread ks) w = alone (ks (get_sessions w)) w"
  "alone (get_clients_thread kc) w = alone (kc (get_clients w)) w"
  "alone (get_subscriptions_thread kx) w = alone (kx (get_subscriptions w)) w"
  "alone (get_session_thread i kso) w = alone (kso (get_session i w)) w"
  "alone (get_client_thread i kco) w = alone (kco (get_client i w)) w"
  "alone (add_session_thread s k) w = alone (k (fst (add_session s w))) (snd (add_session s w))"
  "alone (remove_session_thread i k) w = alone (k (fst (remove_session i w))) (snd (remove_session i w))"
  "alone (add_client_thread c k) w = alone (k (fst (add_client c w))) (snd (add_client c w))"
  "alone (push_client_thread c k) w = alone (k (fst (push_client c w))) (snd (push_client c w))"
  "alone (remove_client_thread i k) w = alone (k (fst (remove_client i w))) (snd (remove_client i w))"
  "alone (subscribe_thread sid i ch k) w = alone (k (fst (subscribe sid i ch w))) (snd (subscribe sid i ch w))"
  "alone (unsubscribe_thread sid i ch k) w = alone (k (fst (unsubscribe sid i ch w))) (snd (unsubscribe sid i ch w))"
  "alone (is_subscribed_thread i ch k) w = alone (k (is_subscribed i ch w)) w"
  "alone (remove_state_of_session_thread i t) w = alone t (remove_state_of_session i w)"
  by (simp_all add: thread_defs remove_state_of_session_def Let_def)

lemma alone_sending:
  "alone (send_to_sessions_thread b d k) w = alone (k (fst (send_to_sessions b d w))) (snd (send_to_sessions b d w))"
  "alone (send_to_others_clients_thread b d sid i k) w =
     alone (k (fst (send_to_others_clients b d sid i w))) (snd (send_to_others_clients b d sid i w))"
  "alone (send_to_subscribed_sessions_thread b d ch k) w =
     alone (k (fst (send_to_subscribed_sessions b d ch w))) (snd (send_to_subscribed_sessions b d ch w))"
  "alone (sync_thread b s r t) w = alone t (sync b s r w)"
  by (simp_all add: thread_defs send_to_sessions_def send_to_others_clients_def send_to_subscribed_sessions_def sync_def Let_def)

lemma alone_announcing:
  "alone (join_to_sessions_thread b i k) w = alone (k (fst (join_to_sessions b i w))) (snd (join_to_sessions b i w))"
  "alone (leave_to_sessions_thread b i k) w = alone (k (fst (leave_to_sessions b i w))) (snd (leave_to_sessions b i w))"
  by (simp_all add: join_to_sessions_thread_def leave_to_sessions_thread_def alone_sending join_to_sessions_def
      leave_to_sessions_def case_prod_beta)

section \<open>The threads are disciplined\<close>

definition elsewhere :: "mutex \<Rightarrow> (world \<Rightarrow> 'a \<times> world) \<Rightarrow> bool" where
  "elsewhere m f \<longleftrightarrow> (\<forall>v w. f (graft m v w) = (fst (f w), graft m v (snd (f w))))"

lemma guarded_access:
  assumes "\<And>m. h m = Free \<Longrightarrow> elsewhere m f" and "\<And>m. h m = Shared \<Longrightarrow> only_reads m (snd \<circ> f)"
    and "\<And>a. guarded (k a) h"
  shows "guarded (access f k) h"
  using assms by (simp add: access_def avoids_def elsewhere_def)

lemma guarded_locked:
  assumes "x \<noteq> Free" and "\<And>n. n \<noteq> m \<Longrightarrow> elsewhere n f" and "x = Shared \<Longrightarrow> only_reads m (snd \<circ> f)"
    and "\<And>a. guarded (k a) nothing_held"
  shows "guarded (locked m x f k) nothing_held"
proof -
  have "nothing_held(m := x, m := Free) = nothing_held" by auto
  moreover have "guarded (access f (\<lambda>a. Unlock m (k a))) (nothing_held(m := x))"
    using assms calculation by (intro guarded_access) (auto split: if_splits)
  ultimately show ?thesis using assms(1) by (simp add: locked_def)
qed

lemma guarded_each:
  assumes "\<And>m y v w. h m = Free \<Longrightarrow> f y (graft m v w) = graft m v (f y w)" and "\<And>m y. h m = Shared \<Longrightarrow> only_reads m (f y)"
    and "guarded k h"
  shows "guarded (each f xs k) h"
  using assms(3) by (induction xs) (auto simp: assms(1,2) avoids_def)

lemma only_reads_truncate: "(\<And>w. state.truncate (f w) = state.truncate w) \<Longrightarrow> only_reads m f"
proof -
  assume "\<And>w. state.truncate (f w) = state.truncate w"
  note same = state_fields_of_truncate [OF this]
  have "graft m w (f w) = f w" for w
    by (cases m) (simp_all add: same(4) [of w, symmetric] same(5) [of w, symmetric] same(6) [of w, symmetric])
  then show ?thesis by (simp add: only_reads_def)
qed

lemma graft_basic [simp]:
  "post xs (graft m v w) = graft m v (post xs w)"
  "session_open (graft m v w) = session_open w"
  "client_open (graft m v w) = client_open w"
  "session_obj_of (graft m v w) = session_obj_of w"
  "client_obj_of (graft m v w) = client_obj_of w"
  "st_id (graft m v w) = st_id w"
  "draw_uuid b (graft m v w) = (fst (draw_uuid b w), graft m v (snd (draw_uuid b w)))"
  "read_clock b (graft m v w) = (fst (read_clock b w), graft m v (snd (read_clock b w)))"
  by (cases m; simp add: post_def fun_eq_iff session_open_def client_open_def session_obj_of_def client_obj_of_def
      draw_uuid_def read_clock_def)+

lemma graft_sending [simp]:
  "session_send s d (graft m v w) = graft m v (session_send s d w)"
  "client_send c d (graft m v w) = graft m v (client_send c d w)"
  "sync_sessions b s x (graft m v w) = graft m v (sync_sessions b s x w)"
  "sync_client b s c (graft m v w) = graft m v (sync_client b s c w)"
  "sync_subscription b s y (graft m v w) = graft m v (sync_subscription b s y w)"
  "client_run b c (graft m v w) = graft m v (client_run b c w)"
  by (simp_all add: session_send_post client_send_post session_deliveries_def client_deliveries_def sync_sessions_def
      sync_client_def sync_subscription_def get_id_def get_registered_def get_host_def get_sessions_port_def
      get_clients_port_def client_run_def initiate_post Let_def case_prod_beta split: option.splits)

lemma elsewhere_announcing:
  "elsewhere m (make_join_request_object b i)" "elsewhere m (make_leave_request_object b i)"
  by (cases m; simp add: elsewhere_def make_join_request_object_def make_leave_request_object_def draw_uuid_def)+

lemma elsewhere_sessions:
  "n \<noteq> Sessions_mutex \<Longrightarrow> elsewhere n (\<lambda>w. (get_sessions w, w))"
  "n \<noteq> Sessions_mutex \<Longrightarrow> elsewhere n (\<lambda>w. (get_session i w, w))"
  "n \<noteq> Sessions_mutex \<Longrightarrow> elsewhere n (add_session s)"
  "n \<noteq> Sessions_mutex \<Longrightarrow> elsewhere n (remove_session i)"
  by (cases n; simp add: elsewhere_def access_defs registration_defs case_prod_beta)+

lemma elsewhere_clients:
  "n \<noteq> Clients_mutex \<Longrightarrow> elsewhere n (\<lambda>w. (get_clients w, w))"
  "n \<noteq> Clients_mutex \<Longrightarrow> elsewhere n (\<lambda>w. (get_client i w, w))"
  "n \<noteq> Clients_mutex \<Longrightarrow> elsewhere n (\<lambda>w. (mi_equal_range cl_session_id (get_id w) (st_clients w), w))"
  "n \<noteq> Clients_mutex \<Longrightarrow> elsewhere n (add_client c)"
  "n \<noteq> Clients_mutex \<Longrightarrow> elsewhere n (push_client c)"
  "n \<noteq> Clients_mutex \<Longrightarrow> elsewhere n (remove_client i)"
  "n \<noteq> Clients_mutex \<Longrightarrow> elsewhere n (\<lambda>w. ((), w\<lparr>st_clients := mi_erase_range cl_session_id i (st_clients w)\<rparr>))"
  by (cases n; simp add: elsewhere_def access_defs registration_defs case_prod_beta Let_def)+

lemma graft_subscriptions: "n \<noteq> Subscriptions_mutex \<Longrightarrow> st_subscriptions (graft n v w) = st_subscriptions w"
  by (cases n) simp_all

lemma elsewhere_reads: "(\<And>v w. g (graft n v w) = g w) \<Longrightarrow> elsewhere n (\<lambda>w. (g w, w))"
  by (simp add: elsewhere_def)

lemma elsewhere_subscriptions:
  assumes n: "n \<noteq> Subscriptions_mutex"
  shows "elsewhere n (\<lambda>w. (get_subscriptions w, w))" "elsewhere n (\<lambda>w. (is_subscribed i ch w, w))"
    "elsewhere n (\<lambda>w. (mi_equal_range sub_session_id (get_id w) (st_subscriptions w), w))"
    "elsewhere n (\<lambda>w. (fold (\<lambda>x r. if sub_session_id x \<in> set r then r else sub_session_id x # r)
       (mi_equal_range sub_channel ch (st_subscriptions w)) [], w))"
    "elsewhere n (subscribe sid i ch)" "elsewhere n (unsubscribe sid i ch)"
    "elsewhere n (\<lambda>w. ((), w\<lparr>st_subscriptions := mi_erase_range sub_session_id i (st_subscriptions w)\<rparr>))"
proof -
  show "elsewhere n (subscribe sid i ch)" "elsewhere n (unsubscribe sid i ch)"
    "elsewhere n (\<lambda>w. ((), w\<lparr>st_subscriptions := mi_erase_range sub_session_id i (st_subscriptions w)\<rparr>))"
    using n by (cases n; auto simp: elsewhere_def subscribe_def unsubscribe_eq case_prod_beta Let_def)+
qed (rule elsewhere_reads, simp add: graft_subscriptions [OF n] get_subscriptions_def is_subscribed_def get_id_def)+

lemmas elsewhere_rules = elsewhere_announcing elsewhere_sessions elsewhere_clients elsewhere_subscriptions

lemma only_reads_snd: "only_reads m (snd \<circ> (\<lambda>w. (g w, w)))"
  by (cases m) (simp_all add: only_reads_def)

lemma guarded_registry:
  "(\<And>a. guarded (ks a) nothing_held) \<Longrightarrow> guarded (get_sessions_thread ks) nothing_held"
  "(\<And>a. guarded (kc a) nothing_held) \<Longrightarrow> guarded (get_clients_thread kc) nothing_held"
  "(\<And>a. guarded (kx a) nothing_held) \<Longrightarrow> guarded (get_subscriptions_thread kx) nothing_held"
  "(\<And>a. guarded (kso a) nothing_held) \<Longrightarrow> guarded (get_session_thread i kso) nothing_held"
  "(\<And>a. guarded (kco a) nothing_held) \<Longrightarrow> guarded (get_client_thread i kco) nothing_held"
  "(\<And>a. guarded (k a) nothing_held) \<Longrightarrow> guarded (add_session_thread s k) nothing_held"
  "(\<And>a. guarded (k a) nothing_held) \<Longrightarrow> guarded (remove_session_thread i k) nothing_held"
  "(\<And>a. guarded (k a) nothing_held) \<Longrightarrow> guarded (add_client_thread c k) nothing_held"
  "(\<And>a. guarded (k a) nothing_held) \<Longrightarrow> guarded (push_client_thread c k) nothing_held"
  "(\<And>a. guarded (k a) nothing_held) \<Longrightarrow> guarded (remove_client_thread i k) nothing_held"
  "(\<And>a. guarded (k a) nothing_held) \<Longrightarrow> guarded (subscribe_thread sid i ch k) nothing_held"
  "(\<And>a. guarded (k a) nothing_held) \<Longrightarrow> guarded (unsubscribe_thread sid i ch k) nothing_held"
  "(\<And>a. guarded (k a) nothing_held) \<Longrightarrow> guarded (is_subscribed_thread i ch k) nothing_held"
  "guarded t nothing_held \<Longrightarrow> guarded (remove_state_of_session_thread i t) nothing_held"
  unfolding get_sessions_thread_def get_clients_thread_def get_subscriptions_thread_def get_session_thread_def
    get_client_thread_def add_session_thread_def remove_session_thread_def add_client_thread_def push_client_thread_def
    remove_client_thread_def subscribe_thread_def unsubscribe_thread_def is_subscribed_thread_def
    remove_state_of_session_thread_def
  by (intro guarded_locked only_reads_snd; simp add: elsewhere_rules)+

lemma guarded_sending:
  "(\<And>n. guarded (k n) nothing_held) \<Longrightarrow> guarded (send_to_sessions_thread b d k) nothing_held"
  "(\<And>n. guarded (k n) nothing_held) \<Longrightarrow> guarded (send_to_others_clients_thread b d sid i k) nothing_held"
  unfolding send_to_sessions_thread_def send_to_others_clients_thread_def
  by (intro guarded_registry guarded_each; simp)+

lemma guarded_publishing:
  "(\<And>n. guarded (k n) nothing_held) \<Longrightarrow> guarded (send_to_subscribed_sessions_thread b d ch k) nothing_held"
  unfolding send_to_subscribed_sessions_thread_def
proof (rule guarded_locked)
  show "guarded (if r = [] then k 0 else get_sessions_thread (\<lambda>sessions.
      each (\<lambda>s w. if ses_id s \<in> set r then session_send s (serialize b (JObject d)) w else w)
        sessions (k (of_nat (length r))))) nothing_held"
    if "\<And>n. guarded (k n) nothing_held" for r
    using that by (auto intro!: guarded_registry(1) guarded_each)
qed (simp_all add: elsewhere_rules only_reads_snd)

lemma guarded_sync:
  assumes "guarded k nothing_held"
  shows "guarded (sync_thread b s r k) nothing_held"
proof -
  have reads: "only_reads m (sync_client b s c)" "only_reads m (sync_subscription b s x)" for m c x
    by (rule only_reads_truncate, simp)+
  have free: "nothing_held(m := Shared, m := Free) = nothing_held" for m by auto
  let ?subs = "Lock Subscriptions_mutex Shared (access (\<lambda>w. (mi_equal_range sub_session_id (get_id w) (st_subscriptions w), w)) (\<lambda>xs.
            each (sync_subscription b s) xs (Unlock Subscriptions_mutex k)))"
  have subs: "guarded ?subs nothing_held"
    using assms reads free by (auto intro!: guarded_access guarded_each elsewhere_rules only_reads_snd split: if_splits)
  have "guarded (Lock Clients_mutex Shared (access (\<lambda>w. (mi_equal_range cl_session_id (get_id w) (st_clients w), w)) (\<lambda>cs.
            each (sync_client b s) cs (Unlock Clients_mutex ?subs)))) nothing_held"
    using subs reads free
    by (auto intro!: guarded_access guarded_each elsewhere_rules only_reads_snd split: if_splits simp del: guarded.simps(3))
      (auto intro!: guarded_access guarded_each elsewhere_rules only_reads_snd split: if_splits)
  then show ?thesis unfolding sync_thread_def Let_def by (auto intro!: guarded_registry(1) guarded_each)
qed

lemma guarded_handlers:
  assumes "guarded k nothing_held"
  shows "guarded (client_accepted_thread b c k) nothing_held" "guarded (client_disconnected_thread b c k) nothing_held"
  unfolding client_accepted_thread_def client_disconnected_thread_def join_to_sessions_thread_def leave_to_sessions_thread_def
  by (intro guarded_registry guarded_access guarded_sending elsewhere_announcing assms; simp add: elsewhere_def)+

section \<open>What the threads of a node do\<close>

text \<open>
  The accesses of a handler to \<^verbatim>\<open>state\<close>, in the order of the code; what a handler does to its own request
  and response concerns no other thread. A thread of the io_context runs one handler after the other.
\<close>

datatype handler =
    Accepts client
  | Disconnects client
  | Connects session
  | Drops uuid
  | Releases uuid
  | Syncs session bool
  | Joins client
  | Leaves uuid
  | Subscribes uuid uuid string
  | Unsubscribes uuid uuid string
  | Announces_subscription request uuid string
  | Announces_unsubscription request uuid string
  | Broadcasts request uuid uuid json_object
  | Publishes request uuid uuid string json_object

fun handler_thread :: "boost \<Rightarrow> handler \<Rightarrow> thread \<Rightarrow> thread" where
  "handler_thread b (Accepts c) k = client_accepted_thread b c k"
| "handler_thread b (Disconnects c) k = client_disconnected_thread b c k"
| "handler_thread b (Connects s) k =
     add_session_thread s (\<lambda>_. access (\<lambda>w. ((), session_run s Local w)) (\<lambda>_. k))"
| "handler_thread b (Drops i) k = remove_session_thread i (\<lambda>_. k)"
| "handler_thread b (Releases i) k = remove_state_of_session_thread i k"
| "handler_thread b (Syncs s registered) k = sync_thread b s registered k"
| "handler_thread b (Joins c) k = add_client_thread c (\<lambda>_. k)"
| "handler_thread b (Leaves i) k = remove_client_thread i (\<lambda>_. k)"
| "handler_thread b (Subscribes sid i ch) k = subscribe_thread sid i ch (\<lambda>_. k)"
| "handler_thread b (Unsubscribes sid i ch) k = unsubscribe_thread sid i ch (\<lambda>_. k)"
| "handler_thread b (Announces_subscription rq i ch) k =
     send_to_sessions_thread b (make_subscribe_request_object b rq i ch) (\<lambda>_. k)"
| "handler_thread b (Announces_unsubscription rq i ch) k =
     send_to_sessions_thread b (make_unsubscribe_request_object b rq i ch) (\<lambda>_. k)"
| "handler_thread b (Broadcasts rq sid i payload) k =
     send_to_others_clients_thread b (make_broadcast_request_object b rq i payload) sid i (\<lambda>_.
     send_to_sessions_thread b (make_broadcast_request_object b rq i payload) (\<lambda>_. k))"
| "handler_thread b (Publishes rq sid i ch payload) k =
     send_to_others_clients_thread b (make_publish_request_object b rq i ch payload) sid i (\<lambda>_.
     send_to_subscribed_sessions_thread b (make_publish_request_object b rq i ch payload) ch (\<lambda>_. k))"

definition worker :: "boost \<Rightarrow> handler list \<Rightarrow> thread" where
  "worker b hs = foldr (handler_thread b) hs Done"

lemma worker_simps [simp]: "worker b [] = Done" "worker b (x # hs) = handler_thread b x (worker b hs)"
  by (simp_all add: worker_def)

text \<open>What a handler does when nothing interrupts it, by the methods of the sequential model.\<close>

fun handler_effect :: "boost \<Rightarrow> handler \<Rightarrow> world \<Rightarrow> world" where
  "handler_effect b (Accepts c) w = client_run b c (snd (join_to_sessions b (cl_id c) (snd (add_client c w))))"
| "handler_effect b (Disconnects c) w = snd (leave_to_sessions b (cl_id c) (snd (remove_client (cl_id c) w)))"
| "handler_effect b (Connects s) w = session_run s Local (snd (add_session s w))"
| "handler_effect b (Drops i) w = snd (remove_session i w)"
| "handler_effect b (Releases i) w = remove_state_of_session i w"
| "handler_effect b (Syncs s registered) w = sync b s registered w"
| "handler_effect b (Joins c) w = snd (add_client c w)"
| "handler_effect b (Leaves i) w = snd (remove_client i w)"
| "handler_effect b (Subscribes sid i ch) w = snd (subscribe sid i ch w)"
| "handler_effect b (Unsubscribes sid i ch) w = snd (unsubscribe sid i ch w)"
| "handler_effect b (Announces_subscription rq i ch) w = snd (subscribe_to_sessions b rq i ch w)"
| "handler_effect b (Announces_unsubscription rq i ch) w = snd (unsubscribe_to_sessions b rq i ch w)"
| "handler_effect b (Broadcasts rq sid i payload) w =
     snd (broadcast_to_sessions b rq i payload (snd (broadcast_to_clients b rq sid i payload w)))"
| "handler_effect b (Publishes rq sid i ch payload) w =
     snd (publish_to_sessions b rq i ch payload (snd (publish_to_clients b rq sid i ch payload w)))"

lemma alone_handler: "alone (handler_thread b x k) w = alone k (handler_effect b x w)"
  by (cases x) (simp_all add: client_accepted_thread_def client_disconnected_thread_def alone_registry alone_sending
      alone_announcing forward_defs)

lemma alone_worker: "alone (worker b hs) w = fold (handler_effect b) hs w"
  by (induction hs arbitrary: w) (simp_all add: alone_handler)

lemma graft_session_run [simp]: "session_run s ctx (graft m v w) = graft m v (session_run s ctx w)"
  by (cases m) (simp_all add: session_run_def initiate_def)

lemma guarded_handler: "guarded k nothing_held \<Longrightarrow> guarded (handler_thread b x k) nothing_held"
  by (cases x) (auto intro!: guarded_handlers guarded_registry guarded_sync guarded_sending guarded_publishing guarded_access
      simp: elsewhere_def)

lemma guarded_worker: "guarded (worker b hs) nothing_held"
  by (induction hs) (simp_all add: guarded_handler)

abbreviation workers :: "boost \<Rightarrow> handler list list \<Rightarrow> (holds \<times> thread) list" where
  "workers b hss \<equiv> pool_of (map (worker b) hss)"

lemma workers_disciplined: "disciplined_pool (workers b hss)"
  by (rule disciplined_pool_of) (auto simp: guarded_worker)

text \<open>The documents a handler composes for the sessions, but for those of a synchronisation.\<close>

fun utters :: "boost \<Rightarrow> handler \<Rightarrow> json_object \<Rightarrow> bool" where
  "utters b (Accepts c) d = (\<exists>w. d = fst (make_join_request_object b (cl_id c) w))"
| "utters b (Disconnects c) d = (\<exists>w. d = fst (make_leave_request_object b (cl_id c) w))"
| "utters b (Announces_subscription rq i ch) d = (d = make_subscribe_request_object b rq i ch)"
| "utters b (Announces_unsubscription rq i ch) d = (d = make_unsubscribe_request_object b rq i ch)"
| "utters b (Broadcasts rq sid i payload) d = (d = make_broadcast_request_object b rq i payload)"
| "utters b (Publishes rq sid i ch payload) d = (d = make_publish_request_object b rq i ch payload)"
| "utters b _ d = False"

section \<open>Threads that leave an assertion alone\<close>

text \<open>
  An assertion no thread disturbs, and the changes \<open>ok\<close> that keep it and that a thread is entitled to: a
  method all of whose accesses are such changes carries the assertion from its start to what follows.
\<close>

locale undisturbed =
  fixes G :: guarantee and j :: nat and P :: "world \<Rightarrow> bool" and ok :: "world \<Rightarrow> world \<Rightarrow> bool"
  assumes undisturbed: "stable G j h P"
    and entitled: "ok w w' \<Longrightarrow> G j h w w'"
    and kept: "ok w w' \<Longrightarrow> P w \<Longrightarrow> P w'"
    and idle: "ok w w"
begin

lemma through_access:
  assumes "\<And>w. ok w (snd (f w))" and "\<And>w. meets G j Q h P (k (fst (f w)))"
  shows "meets G j Q h P (access f k)"
proof (rule meets_access [OF undisturbed])
  fix w assume "P w"
  from kept [OF assms(1) this] entitled [OF assms(1)] assms(2)
  show "G j h w (snd (f w)) \<and> (\<exists>P'. P' (snd (f w)) \<and> meets G j Q h P' (k (fst (f w))))" by blast
qed

lemma through_locked:
  assumes "h m = Free" and f: "\<And>w. ok w (snd (f w))" and k: "\<And>a. meets G j Q h P (k a)"
  shows "meets G j Q h P (locked m x f k)"
proof (rule meets_locked [where P = P])
  fix w assume "P w"
  from kept [OF f this] entitled [OF f] undisturbed k
  show "G j (h(m := x)) w (snd (f w)) \<and>
      (\<exists>P'. P' (snd (f w)) \<and> stable G j (h(m := x)) P' \<and> meets G j Q h P' (k (fst (f w))))" by blast
qed (simp_all add: undisturbed assms(1))

lemma through_each:
  assumes "\<And>x w. ok w (f x w)" and "meets G j Q h P k"
  shows "meets G j Q h P (each f xs k)"
proof (rule meets_each [where P = "\<lambda>_. P"])
  fix y w assume "P w"
  then show "G j h w (f y w) \<and> P (f y w)" using entitled kept assms(1) by blast
qed (use assms(2) undisturbed in simp_all)

lemma through_look:
  "(\<And>a. meets G j Q h P (k a)) \<Longrightarrow> meets G j Q h P (access (\<lambda>w. (g w, w)) k)"
  by (rule through_access) (simp_all add: idle)

lemma through_get_sessions:
  "(\<And>a. meets G j Q nothing_held P (k a)) \<Longrightarrow> meets G j Q nothing_held P (get_sessions_thread k)"
  unfolding get_sessions_thread_def by (rule through_locked) (simp_all add: idle)

lemma through_get_clients:
  "(\<And>a. meets G j Q nothing_held P (k a)) \<Longrightarrow> meets G j Q nothing_held P (get_clients_thread k)"
  unfolding get_clients_thread_def by (rule through_locked) (simp_all add: idle)

lemma through_send_to_sessions:
  assumes "\<And>t w. ok w (session_send t (text_of b d) w)" and "\<And>n. meets G j Q nothing_held P (k n)"
  shows "meets G j Q nothing_held P (send_to_sessions_thread b d k)"
  unfolding send_to_sessions_thread_def using assms by (intro through_get_sessions through_each)

lemma through_send_to_others:
  assumes "\<And>c w. ok w (client_send c (text_of b d) w)" and "\<And>n. meets G j Q nothing_held P (k n)"
  shows "meets G j Q nothing_held P (send_to_others_clients_thread b d sid i k)"
  unfolding send_to_others_clients_thread_def using assms idle by (intro through_get_clients through_each) auto

lemma through_send_to_subscribed:
  assumes "\<And>t w. ok w (session_send t (text_of b d) w)" and "\<And>n. meets G j Q nothing_held P (k n)"
  shows "meets G j Q nothing_held P (send_to_subscribed_sessions_thread b d ch k)"
  unfolding send_to_subscribed_sessions_thread_def
proof (rule through_locked)
  fix a :: "uuid list"
  have "meets G j Q nothing_held P (get_sessions_thread (\<lambda>sessions.
      each (\<lambda>s w. if ses_id s \<in> set a then session_send s (text_of b d) w else w) sessions (k (of_nat (length a)))))"
    using assms idle by (intro through_get_sessions through_each) auto
  with assms(2) show "meets G j Q nothing_held P (if a = [] then k 0 else get_sessions_thread (\<lambda>sessions.
      each (\<lambda>s w. if ses_id s \<in> set a then session_send s (text_of b d) w else w) sessions (k (of_nat (length a)))))" by simp
qed (simp_all add: idle)

text \<open>A synchronisation, given what it does under each of its two locks.\<close>

lemma through_sync:
  assumes ok: "\<And>x w. ok w (sync_sessions b t x w)" and k: "meets G j Q nothing_held P k"
    and clients: "\<And>k'. meets G j Q (nothing_held(Clients_mutex := Shared)) P k' \<Longrightarrow>
      meets G j Q (nothing_held(Clients_mutex := Shared)) P
        (access (\<lambda>w. (mi_equal_range cl_session_id (get_id w) (st_clients w), w)) (\<lambda>cs. each (sync_client b t) cs k'))"
    and subs: "\<And>k'. meets G j Q (nothing_held(Subscriptions_mutex := Shared)) P k' \<Longrightarrow>
      meets G j Q (nothing_held(Subscriptions_mutex := Shared)) P
        (access (\<lambda>w. (mi_equal_range sub_session_id (get_id w) (st_subscriptions w), w)) (\<lambda>xs. each (sync_subscription b t) xs k'))"
  shows "meets G j Q nothing_held P (sync_thread b t registered k)"
proof -
  have free: "(nothing_held(m := Shared))(m := Free) = nothing_held" for m by auto
  have unlock: "meets G j Q (nothing_held(m := Shared)) P (Unlock m k')" if "meets G j Q nothing_held P k'" for m k'
    using that unfolding meets_iffs(4) free by (simp add: undisturbed)
  have "meets G j Q nothing_held P (Lock Clients_mutex Shared (access
      (\<lambda>w. (mi_equal_range cl_session_id (get_id w) (st_clients w), w))
      (\<lambda>cs. each (sync_client b t) cs (Unlock Clients_mutex (Lock Subscriptions_mutex Shared (access
        (\<lambda>w. (mi_equal_range sub_session_id (get_id w) (st_subscriptions w), w))
        (\<lambda>xs. each (sync_subscription b t) xs (Unlock Subscriptions_mutex k))))))))"
    by (intro meets_lock undisturbed clients unlock subs k)
  then show ?thesis
    unfolding sync_thread_def Let_def by (cases registered) (simp_all add: through_get_sessions through_each ok)
qed

text \<open>A handler, given what its accesses and the texts it composes do.\<close>

lemma through_handler:
  assumes k: "meets G j Q nothing_held P k"
    and clients: "\<And>c w. x = Accepts c \<or> x = Joins c \<Longrightarrow> ok w (snd (add_client c w))"
      "\<And>c w. x = Disconnects c \<Longrightarrow> ok w (snd (remove_client (cl_id c) w))"
      "\<And>i w. x = Leaves i \<Longrightarrow> ok w (snd (remove_client i w))"
    and sessions: "\<And>t w. ok w (snd (add_session t w))" "\<And>i w. x = Drops i \<Longrightarrow> ok w (snd (remove_session i w))"
    and subscriptions: "\<And>sid i ch w. x = Subscribes sid i ch \<Longrightarrow> ok w (snd (subscribe sid i ch w))"
      "\<And>sid i ch w. x = Unsubscribes sid i ch \<Longrightarrow> ok w (snd (unsubscribe sid i ch w))"
    and release: "\<And>i w. x = Releases i \<Longrightarrow> ok w (w\<lparr>st_clients := mi_erase_range cl_session_id i (st_clients w)\<rparr>)"
      "\<And>i w. x = Releases i \<Longrightarrow> ok w (w\<lparr>st_subscriptions := mi_erase_range sub_session_id i (st_subscriptions w)\<rparr>)"
    and objects: "\<And>c w. ok w (client_run b c w)" "\<And>t w. ok w (session_run t Local w)" "\<And>w. ok w (snd (draw_uuid b w))"
      "\<And>c m w. ok w (client_send c m w)"
    and texts: "\<And>d t w. utters b x d \<Longrightarrow> ok w (session_send t (text_of b d) w)"
    and sync: "\<And>t r. x = Syncs t r \<Longrightarrow> meets G j Q nothing_held P (sync_thread b t r k)"
  shows "meets G j Q nothing_held P (handler_thread b x k)"
proof -
  have run: "meets G j Q nothing_held P (access (\<lambda>w. ((), client_run b c w)) (\<lambda>_. k))"
    "meets G j Q nothing_held P (access (\<lambda>w. ((), session_run t Local w)) (\<lambda>_. k))" for c t
    by (rule through_access; simp add: objects k)+
  have draws: "ok w (snd (make_join_request_object b i w))" "ok w (snd (make_leave_request_object b i w))" for i w
    using objects(3) by (simp_all add: make_join_request_object_def make_leave_request_object_def case_prod_beta)
  note defs = client_accepted_thread_def client_disconnected_thread_def add_client_thread_def remove_client_thread_def
    add_session_thread_def remove_session_thread_def subscribe_thread_def unsubscribe_thread_def
    remove_state_of_session_thread_def
  note rules = through_locked through_send_to_sessions through_send_to_others through_send_to_subscribed
  show ?thesis
  proof (cases x)
    case (Accepts c)
    then have "meets G j Q nothing_held P (join_to_sessions_thread b (cl_id c) (\<lambda>_. access (\<lambda>w. ((), client_run b c w)) (\<lambda>_. k)))"
      unfolding join_to_sessions_thread_def
      by (intro through_access through_send_to_sessions draws run texts) auto
    with Accepts clients(1) show ?thesis by (simp add: defs through_locked)
  next
    case (Disconnects c)
    then have "meets G j Q nothing_held P (leave_to_sessions_thread b (cl_id c) (\<lambda>_. k))"
      unfolding leave_to_sessions_thread_def
      by (intro through_access through_send_to_sessions draws k texts) auto
    with Disconnects clients(2) show ?thesis by (simp add: defs through_locked)
  next
    case (Broadcasts rq sid i payload)
    then show ?thesis using texts objects(4) k by (simp add: rules)
  next
    case (Publishes rq sid i ch payload)
    then show ?thesis using texts objects(4) k by (simp add: rules)
  qed (use clients sessions subscriptions release run k sync texts in \<open>simp_all add: defs rules\<close>)
qed

end

section \<open>The registry under every schedule\<close>

definition consistent :: "uuid \<Rightarrow> world \<Rightarrow> bool" where
  "consistent n w \<longleftrightarrow> wf_state w \<and> st_id w = n"

definition keeps_consistent :: "uuid \<Rightarrow> world \<Rightarrow> world \<Rightarrow> bool" where
  "keeps_consistent n w w' \<longleftrightarrow> (consistent n w \<longrightarrow> consistent n w')"

interpretation keep: undisturbed "\<lambda>_ _. keeps_consistent n" j "consistent n" "keeps_consistent n" for n j
  by unfold_locales (auto simp: stable_def keeps_consistent_def)

lemma consistent_same: "state.truncate w' = state.truncate w \<Longrightarrow> keeps_consistent n w w'"
  using wf_state_cong [of w' w] state_fields_of_truncate(1) [of w' w] by (simp add: keeps_consistent_def consistent_def)

lemma consistent_registration:
  "cl_is_local c = (cl_session_id c = n) \<Longrightarrow> keeps_consistent n w (snd (add_client c w))"
  "keeps_consistent n w (snd (remove_client i w))" "keeps_consistent n w (snd (add_session s w))"
  "keeps_consistent n w (snd (remove_session i w))" "keeps_consistent n w (snd (subscribe sid j ch w))"
  "keeps_consistent n w (snd (unsubscribe sid j ch w))"
  "keeps_consistent n w (w\<lparr>st_clients := mi_erase_range cl_session_id i (st_clients w)\<rparr>)"
  "keeps_consistent n w (w\<lparr>st_subscriptions := mi_erase_range sub_session_id i (st_subscriptions w)\<rparr>)"
proof -
  have id: "st_id (snd (add_client c w)) = st_id w" "st_id (snd (remove_client i w)) = st_id w"
    "st_id (snd (add_session s w)) = st_id w" "st_id (snd (remove_session i w)) = st_id w"
    "st_id (snd (subscribe sid j ch w)) = st_id w" "st_id (snd (unsubscribe sid j ch w)) = st_id w"
    by (simp_all add: add_client_def remove_client_def remove_session_def subscribe_def unsubscribe_eq Let_def case_prod_beta)
  show "keeps_consistent n w (snd (remove_client i w))" "keeps_consistent n w (snd (add_session s w))"
    "keeps_consistent n w (snd (remove_session i w))" "keeps_consistent n w (snd (subscribe sid j ch w))"
    "keeps_consistent n w (snd (unsubscribe sid j ch w))"
    by (simp_all add: keeps_consistent_def consistent_def id wf_registration)
  show "cl_is_local c = (cl_session_id c = n) \<Longrightarrow> keeps_consistent n w (snd (add_client c w))"
    by (simp add: keeps_consistent_def consistent_def id wf_add_client)
  show "keeps_consistent n w (w\<lparr>st_clients := mi_erase_range cl_session_id i (st_clients w)\<rparr>)"
    by (auto simp: keeps_consistent_def consistent_def wf_state_def mi_erase_range_def intro: cls.filter_conflict_free)
  show "keeps_consistent n w (w\<lparr>st_subscriptions := mi_erase_range sub_session_id i (st_subscriptions w)\<rparr>)"
    by (auto simp: keeps_consistent_def consistent_def wf_state_def mi_erase_range_def intro: subs.filter_conflict_free)
qed

text \<open>A client is entered as local exactly when it belongs to the node.\<close>

fun fitting :: "uuid \<Rightarrow> handler \<Rightarrow> bool" where
  "fitting n (Accepts c) = (cl_is_local c = (cl_session_id c = n))"
| "fitting n (Joins c) = (cl_is_local c = (cl_session_id c = n))"
| "fitting n _ = True"

lemma keep_handler:
  assumes k: "meets (\<lambda>_ _. keeps_consistent n) j Q nothing_held (consistent n) k" and x: "fitting n x"
  shows "meets (\<lambda>_ _. keeps_consistent n) j Q nothing_held (consistent n) (handler_thread b x k)"
proof -
  have sends: "keeps_consistent n w (session_send t m w)" "keeps_consistent n w (client_send d m w)"
    "keeps_consistent n w (sync_sessions b t s w)" "keeps_consistent n w (sync_client b t d w)"
    "keeps_consistent n w (sync_subscription b t y w)" "keeps_consistent n w (client_run b d w)"
    "keeps_consistent n w (session_run t ctx w)" "keeps_consistent n w (snd (draw_uuid b w))" for t m w d s y ctx
    by (rule consistent_same, simp)+
  have "meets (\<lambda>_ _. keeps_consistent n) j Q nothing_held (consistent n) (sync_thread b t r k)" for t r
    by (intro keep.through_sync sends k keep.through_look keep.through_each)
  then show ?thesis
    using x by (intro keep.through_handler k consistent_registration sends) auto
qed

lemma keep_worker:
  assumes "\<And>x. x \<in> set hs \<Longrightarrow> fitting n x"
  shows "meets (\<lambda>_ _. keeps_consistent n) j (\<lambda>_. True) nothing_held (consistent n) (worker b hs)"
  using assms by (induction hs) (simp_all add: meets_iffs keep.undisturbed keep_handler)

lemma workers_consistent:
  assumes "pool_run (w, workers b hss) (w', ts)" and w: "wf_state w"
    and hss: "\<And>hs x. hs \<in> set hss \<Longrightarrow> x \<in> set hs \<Longrightarrow> fitting (st_id w) x"
  shows "wf_state w' \<and> st_id w' = st_id w"
proof -
  have "consistent (st_id w) w'"
  proof (rule pool_kept [OF assms(1)])
    show "consistent (st_id w) w" using w by (simp add: consistent_def)
    show "\<exists>P. P w \<and> meets (\<lambda>_ _. keeps_consistent (st_id w)) i (\<lambda>_. True) nothing_held P (map (worker b) hss ! i)"
      if i: "i < length (map (worker b) hss)" for i
    proof -
      have "hss ! i \<in> set hss" using i by simp
      then have "meets (\<lambda>_ _. keeps_consistent (st_id w)) i (\<lambda>_. True) nothing_held (consistent (st_id w)) (worker b (hss ! i))"
        using hss by (intro keep_worker) blast
      with w i show ?thesis by (intro exI [of _ "consistent (st_id w)"]) (simp add: consistent_def)
    qed
  qed (simp add: keeps_consistent_def)
  then show ?thesis by (simp add: consistent_def)
qed

end
