(* ===== verification/Heralds.thy ===== *)
theory Heralds
  imports Concurrency
begin

text \<open>
  What a peer hears of a thing while threads interleave. One thread registers and unregisters the thing, under
  the mutex of its container, and tells the sessions afterwards; synchronisations tell them of what they find
  under the same mutex. Whatever the schedule, the last word on a session is the truth. The contract of such a
  thing is the locale \<open>herald\<close>; \<open>Announcements\<close> interprets it for clients and subscriptions.
\<close>

text \<open>
  \<open>says m\<close>: what the peer reads in the text \<open>m\<close> about the thing: that it is there, that it is gone, or
  nothing. \<open>heard w\<close>: what was said on session \<open>s\<close> so far. \<open>linked w\<close>: the session is registered and open.
\<close>

locale herald =
  fixes linked present :: "world \<Rightarrow> bool" and heard :: "world \<Rightarrow> bool list" and says :: "string \<Rightarrow> bool option"
    and M :: mutex and s :: session
  assumes linked_session: "linked w \<Longrightarrow> s \<in> set (get_sessions w) \<and> session_open w s"
    and framed: "linked w \<Longrightarrow> linked (session_send t m w) \<and> present (session_send t m w) = present w"
    and said: "heard (session_send t m w) = heard w @
      (if session_open w t \<and> ses_addr t = ses_addr s then case says m of Some v \<Rightarrow> [v] | None \<Rightarrow> [] else [])"
begin

section \<open>What the threads promise each other\<close>

text \<open>
  Thread 0 carries the thing: only it registers or unregisters it, with the mutex held exclusively. The others
  say of it at most that it is there, and that only while it is and while they hold the mutex.
\<close>

definition promise :: guarantee where
  "promise j h w w' \<longleftrightarrow> (linked w \<longrightarrow> linked w' \<and>
     (if j = 0 then present w' = present w \<or> h M = Exclusive
      else present w' = present w \<and>
        (heard w' = heard w \<or> heard w' = heard w @ [True] \<and> h M = Shared \<and> present w)))"

definition hushed :: "world \<Rightarrow> world \<Rightarrow> bool" where
  "hushed w w' \<longleftrightarrow> (linked w \<longrightarrow> linked w' \<and> present w' = present w \<and> heard w' = heard w)"

lemma hushed_promise: "hushed w w' \<Longrightarrow> promise j h w w'"
  by (simp add: hushed_def promise_def)

lemma hushed_same: "hushed w w"
  by (simp add: hushed_def)

lemma hushed_trans: "hushed u v \<Longrightarrow> hushed v w \<Longrightarrow> hushed u w"
  by (simp add: hushed_def)

lemma hushed_send: "says m = None \<Longrightarrow> hushed w (session_send t m w)"
  using framed by (simp add: hushed_def said)

lemma stable_linked: "stable promise j h linked"
  by (simp add: stable_def promise_def)

lemma stable_present:
  assumes "h M = Shared"
  shows "stable promise j h (\<lambda>w. linked w \<and> (B \<longrightarrow> present w))"
  unfolding stable_def
proof (intro allI impI)
  fix j' h' w w'
  assume "\<forall>m. compatible (h m) (h' m)" "linked w \<and> (B \<longrightarrow> present w)" "promise j' h' w w'"
  moreover from this(1) have "h' M \<noteq> Exclusive" using assms by (metis compatible.simps(3))
  ultimately show "linked w' \<and> (B \<longrightarrow> present w')" by (auto simp: promise_def split: if_splits)
qed

section \<open>A synchronisation\<close>

text \<open>
  Under the mutex, shared, a thread looks for things in the container and announces what it finds, \<open>f x\<close> at
  most saying of the thing that it is there, when \<open>x\<close> is the thing.
\<close>

lemma herald_announces:
  assumes j: "j \<noteq> 0" and h: "h M = Shared" and k: "meets promise j Q h linked k"
    and found: "\<And>w x. linked w \<Longrightarrow> x \<in> set (g w) \<Longrightarrow> it x \<Longrightarrow> present w"
    and f: "\<And>x w. linked w \<Longrightarrow> linked (f x w) \<and> present (f x w) = present w \<and>
      (heard (f x w) = heard w \<or> heard (f x w) = heard w @ [True] \<and> it x)"
  shows "meets promise j Q h linked (access (\<lambda>w. (g w, w)) (\<lambda>xs. each f xs k))"
proof -
  let ?P = "\<lambda>xs w. linked w \<and> (list_ex it xs \<longrightarrow> present w)"
  have each: "meets promise j Q h (?P xs) (each f xs k)" for xs
  proof (rule meets_each [where P = ?P])
    show "stable promise j h (?P ys)" for ys by (rule stable_present [of h, OF h])
    show "promise j h w (f y w) \<and> ?P ys (f y w)" if "?P (y # ys) w" for y ys w
      using that f [of w y] j h by (auto simp: promise_def)
  qed (use k in simp)
  show ?thesis
  proof (rule meets_access [OF stable_linked])
    fix w assume "linked w"
    then have "?P (g w) w" using found by (auto simp: list_ex_iff)
    with each [of "g w"] show "promise j h w (snd (g w, w)) \<and>
        (\<exists>P'. P' (snd (g w, w)) \<and> meets promise j Q h P' (each f (fst (g w, w)) k))"
      by (intro conjI exI [of _ "?P (g w)"]) (simp_all add: hushed_promise hushed_same)
  qed
qed

section \<open>The thread that carries the thing\<close>

text \<open>Whether the thing is registered, and what may have been said of it so far.\<close>

definition life :: "bool \<Rightarrow> (bool list \<Rightarrow> bool) \<Rightarrow> world \<Rightarrow> bool" where
  "life there R w \<longleftrightarrow> linked w \<and> present w = there \<and> R (heard w)"

lemma life_weaken: "life there R w \<Longrightarrow> (\<And>xs. R xs \<Longrightarrow> R' xs) \<Longrightarrow> life there R' w"
  by (simp add: life_def)

lemma life_hushed: "hushed w w' \<Longrightarrow> life there R w \<Longrightarrow> life there R w'"
  by (simp add: hushed_def life_def)

text \<open>Others add to it at most that the thing is there, and only while it is.\<close>

lemma life_stable:
  assumes "\<And>xs. there \<Longrightarrow> R xs \<Longrightarrow> R (xs @ [True])"
  shows "stable promise 0 h (life there R)"
  using assms by (auto simp: stable_def promise_def life_def)

text \<open>What was last heard.\<close>

abbreviation last_word :: "bool \<Rightarrow> bool list \<Rightarrow> bool" where
  "last_word word xs \<equiv> xs \<noteq> [] \<and> last xs = word"

abbreviation truth :: "bool \<Rightarrow> world \<Rightarrow> bool" where
  "truth there \<equiv> life there (last_word there)"

lemma truth_stable: "stable promise 0 h (truth there)"
  by (rule life_stable) simp

lemma life_any_stable: "stable promise 0 h (life there (\<lambda>_. True))"
  by (rule life_stable) simp

lemma life_access:
  assumes "\<And>w. hushed w (snd (f w))" and R: "\<And>xs. there \<Longrightarrow> R xs \<Longrightarrow> R (xs @ [True])"
    and "\<And>w. meets promise 0 Q h (life there R) (k (fst (f w)))"
  shows "meets promise 0 Q h (life there R) (access f k)"
proof (rule meets_access [OF life_stable])
  fix w assume "life there R w"
  from life_hushed [OF assms(1) this] hushed_promise [OF assms(1)] assms(3)
  show "promise 0 h w (snd (f w)) \<and> (\<exists>P'. P' (snd (f w)) \<and> meets promise 0 Q h P' (k (fst (f w))))" by blast
qed (rule R)

lemma life_locked:
  assumes f: "\<And>w. life there (\<lambda>_. True) w \<Longrightarrow> life there' (\<lambda>_. True) (snd (f w))"
    and k: "\<And>a. meets promise 0 Q nothing_held (life there' (\<lambda>_. True)) (k a)"
  shows "meets promise 0 Q nothing_held (life there (\<lambda>_. True)) (locked M Exclusive f k)"
proof (rule meets_locked)
  fix w assume w: "life there (\<lambda>_. True) w"
  have "promise 0 (nothing_held(M := Exclusive)) w (snd (f w))"
    using f [OF w] by (simp add: promise_def life_def)
  with f [OF w] show "promise 0 (nothing_held(M := Exclusive)) w (snd (f w)) \<and>
      (\<exists>P'. P' (snd (f w)) \<and> stable promise 0 (nothing_held(M := Exclusive)) P' \<and>
        meets promise 0 Q nothing_held P' (k (fst (f w))))"
    by (intro conjI exI [of _ "life there' (\<lambda>_. True)"] life_any_stable k)
qed (simp_all add: life_any_stable)

text \<open>An announcement of the truth reaches the session: afterwards the truth was heard last.\<close>

lemma life_announces:
  assumes word: "says (text_of b d) = Some there" and k: "\<And>n. meets promise 0 Q nothing_held (truth there) (k n)"
  shows "meets promise 0 Q nothing_held (life there (\<lambda>_. True)) (send_to_sessions_thread b d k)"
proof -
  let ?P = "\<lambda>ss. life there (\<lambda>xs. s \<notin> set ss \<longrightarrow> last_word there xs)"
  have stable: "stable promise 0 h (?P ss)" for h ss by (rule life_stable) auto
  have posts: "meets promise 0 Q nothing_held (?P ss) (each (\<lambda>t. session_send t (text_of b d)) ss (k n))" for ss n
  proof (rule meets_each [OF stable])
    fix t ts v assume v: "?P (t # ts) v"
    then have "linked v" by (simp add: life_def)
    from framed [OF this, of t "text_of b d"] linked_session [OF this] v
    show "promise 0 nothing_held v (session_send t (text_of b d) v) \<and> ?P ts (session_send t (text_of b d) v)"
      by (auto simp: promise_def life_def said word)
  qed (use k in simp)
  show ?thesis
    unfolding send_to_sessions_thread_def get_sessions_thread_def
  proof (rule meets_locked)
    fix v assume v: "life there (\<lambda>_. True) v"
    then have "s \<in> set (get_sessions v)" using linked_session by (simp add: life_def)
    with v have "?P (get_sessions v) v" by (simp add: life_def)
    with posts stable
    show "promise 0 (nothing_held(Sessions_mutex := Shared)) v (snd (get_sessions v, v)) \<and>
        (\<exists>P'. P' (snd (get_sessions v, v)) \<and> stable promise 0 (nothing_held(Sessions_mutex := Shared)) P' \<and>
          meets promise 0 Q nothing_held P' (each (\<lambda>t. session_send t (text_of b d)) (fst (get_sessions v, v))
            (k (of_nat (length (fst (get_sessions v, v)))))))"
      by (intro conjI exI [of _ "?P (get_sessions v)"]) (simp_all add: hushed_promise hushed_same)
  qed (simp_all add: life_any_stable)
qed

text \<open>A pool whose first thread establishes \<open>Q\<close> and whose others keep their promise ends with \<open>Q\<close>.\<close>

lemma herald_pool:
  assumes run: "pool_run (w, pool_of (t # ts)) (w', ts')" and ends: "finished ts'" and w: "linked w"
    and first: "meets promise 0 Q nothing_held (life (present w) (\<lambda>_. True)) t"
    and others: "\<And>j u. j \<noteq> 0 \<Longrightarrow> u \<in> set ts \<Longrightarrow> meets promise j (\<lambda>_. True) nothing_held linked u"
  shows "Q w'"
proof -
  have "\<exists>P. P w \<and> meets promise i (if i = 0 then Q else (\<lambda>_. True)) nothing_held P ((t # ts) ! i)"
    if i: "i < length (t # ts)" for i
  proof (cases i)
    case 0
    have "life (present w) (\<lambda>_. True) w" using w by (simp add: life_def)
    with first 0 show ?thesis by auto
  next
    case (Suc k)
    then have "ts ! k \<in> set ts" using i by simp
    with others [of i "ts ! k"] Suc w show ?thesis by auto
  qed
  from rely_guarantee [OF run ends this, of 0] show ?thesis by simp
qed

end

text \<open>What hushed accesses leave alone is what the other threads carry along.\<close>

sublocale herald < hush: undisturbed promise j linked hushed for j
  by unfold_locales (simp_all add: stable_linked hushed_promise hushed_same, simp add: hushed_def)

end
