(* ===== verification/Announcements.thy ===== *)
theory Announcements
  imports Heralds
begin

text \<open>
  What a peer hears of a client, and of a subscription, while threads interleave: the two instances of
  \<open>herald\<close>. A client is announced when it connects and taken back when its connection ends; a subscription when
  its client asks for it and when it gives it up; both by the synchronisations of the peer.
\<close>

section \<open>What is said on a session\<close>

text \<open>
  \<open>client_news r i m\<close>: what a node with libraries \<open>r\<close> reads in a text about client \<open>i\<close>; \<open>topic_news r i ch m\<close>:
  what it reads about the client's subscription to \<open>ch\<close>.
\<close>

definition client_news :: "boost \<Rightarrow> uuid \<Rightarrow> string \<Rightarrow> bool option" where
  "client_news r i m =
     (case json_parse r m of
        Some (JObject d) \<Rightarrow> if announces r d i None then Some True else if retracts r d i then Some False else None
      | _ \<Rightarrow> None)"

definition cancels :: "boost \<Rightarrow> json_object \<Rightarrow> uuid \<Rightarrow> string \<Rightarrow> bool" where
  "cancels r d i ch \<longleftrightarrow> map_of d ''action'' = Some (JString ''unsubscribe'') \<and>
     (\<exists>p. map_of d ''params'' = Some (JObject p) \<and> get_param_as_id r p ''client_id'' = Ok i \<and>
        map_of p ''channel'' = Some (JString ch))"

definition topic_news :: "boost \<Rightarrow> uuid \<Rightarrow> string \<Rightarrow> string \<Rightarrow> bool option" where
  "topic_news r i ch m =
     (case json_parse r m of
        Some (JObject d) \<Rightarrow> if announces r d i (Some ch) then Some True else if cancels r d i ch then Some False else None
      | _ \<Rightarrow> None)"

text \<open>What was said in the texts posted on a session, in their order.\<close>

definition heard :: "(string \<Rightarrow> bool option) \<Rightarrow> session \<Rightarrow> world \<Rightarrow> bool list" where
  "heard says s w = List.map_filter says (ses_box.texts (ses_addr s) (w_pending w))"

lemma heard_post [simp]:
  "heard says s (post xs w) = heard says s w @ List.map_filter says (ses_box.texts (ses_addr s) xs)"
  by (simp add: heard_def List.map_filter_def)

lemma heard_session_send:
  "heard says s (session_send t m w) = heard says s w @
     (if session_open w t \<and> ses_addr t = ses_addr s then case says m of Some v \<Rightarrow> [v] | None \<Rightarrow> [] else [])"
  by (simp add: session_send_post session_deliveries_def ses_box.texts_def List.map_filter_def split: option.split)

lemma news_read:
  assumes "relays r b"
  shows "client_news r i (text_of b d) = (if announces r (as_read d) i None then Some True
      else if retracts r (as_read d) i then Some False else None)"
    "topic_news r i ch (text_of b d) = (if announces r (as_read d) i (Some ch) then Some True
      else if cancels r (as_read d) i ch then Some False else None)"
  using relays_read [OF assms] by (simp_all add: client_news_def topic_news_def)

lemma client_param_read:
  assumes r: "relays r b" and p: "map_of d ''params'' = Some (JObject p)"
    and i: "map_of p ''client_id'' = Some (JString (uuid_to_string b j))"
  shows "map_of (as_read d) ''params'' = Some (JObject (as_read p))"
    "get_param_as_id r (as_read p) ''client_id'' = Ok i \<longleftrightarrow> j = i"
proof -
  show "map_of (as_read d) ''params'' = Some (JObject (as_read p))" using p by (simp only: map_of_read option.map as_parsed_object)
  have "map_of (as_read p) ''client_id'' = Some (JString (uuid_to_string b j))" using i by (simp add: map_of_read)
  moreover have "lexical_cast_uuid r (uuid_to_string b j) = Some j" using r by (simp add: relays_def understands_def reads_ids_def)
  ultimately show "get_param_as_id r (as_read p) ''client_id'' = Ok i \<longleftrightarrow> j = i" by auto
qed

lemma client_news_of:
  assumes r: "relays r b" and p: "map_of d ''params'' = Some (JObject p)"
    and i: "map_of p ''client_id'' = Some (JString (uuid_to_string b j))"
  shows "map_of d ''action'' = Some (JString ''join'') \<Longrightarrow> client_news r i (text_of b d) = (if j = i then Some True else None)"
    "map_of d ''action'' = Some (JString ''leave'') \<Longrightarrow> client_news r i (text_of b d) = (if j = i then Some False else None)"
  unfolding news_read [OF r] announces_def retracts_def client_param_read(1) [OF assms]
  using client_param_read(2) [OF assms] by (simp_all add: map_of_read [of d] del: get_param_as_id_Ok)

lemma topic_news_of:
  assumes r: "relays r b" and p: "map_of d ''params'' = Some (JObject p)"
    and i: "map_of p ''client_id'' = Some (JString (uuid_to_string b j))" and ch: "map_of p ''channel'' = Some (JString topic)"
  shows "map_of d ''action'' = Some (JString ''subscribe'') \<Longrightarrow>
      topic_news r i ch (text_of b d) = (if j = i \<and> topic = ch then Some True else None)"
    "map_of d ''action'' = Some (JString ''unsubscribe'') \<Longrightarrow>
      topic_news r i ch (text_of b d) = (if j = i \<and> topic = ch then Some False else None)"
  unfolding news_read [OF r] announces_def cancels_def client_param_read(1) [OF r p i]
  using client_param_read(2) [OF r p i] ch by (simp_all add: map_of_read del: get_param_as_id_Ok)

lemma no_news:
  assumes "relays r b"
  shows "map_of d ''action'' \<noteq> Some (JString ''join'') \<Longrightarrow> map_of d ''action'' \<noteq> Some (JString ''leave'') \<Longrightarrow>
      client_news r i (text_of b d) = None"
    "map_of d ''action'' \<noteq> Some (JString ''subscribe'') \<Longrightarrow> map_of d ''action'' \<noteq> Some (JString ''unsubscribe'') \<Longrightarrow>
      topic_news r i ch (text_of b d) = None"
  by (auto simp: news_read [OF assms] announces_def retracts_def cancels_def map_of_read as_parsed_String)

section \<open>Clients\<close>

text \<open>
  The session is registered and open, and nothing but the client itself is registered under its identifier.
\<close>

definition session_linked :: "session \<Rightarrow> world \<Rightarrow> bool" where
  "session_linked s w \<longleftrightarrow> (ses_id s, s) \<in> set (st_sessions w) \<and> session_open w s"

definition client_linked :: "session \<Rightarrow> client \<Rightarrow> world \<Rightarrow> bool" where
  "client_linked s c w \<longleftrightarrow> session_linked s w \<and> (\<forall>d. get_client (cl_id c) w = Some d \<longrightarrow> d = c)"

definition known :: "client \<Rightarrow> world \<Rightarrow> bool" where
  "known c w \<longleftrightarrow> get_client (cl_id c) w \<noteq> None"

abbreviation client_heard :: "boost \<Rightarrow> client \<Rightarrow> session \<Rightarrow> world \<Rightarrow> bool list" where
  "client_heard r c s \<equiv> heard (client_news r (cl_id c)) s"

lemma session_linked_send: "session_linked s (session_send t m w) = session_linked s w"
  by (simp add: session_linked_def session_send_post)

lemma session_linked_registered: "session_linked s w \<Longrightarrow> s \<in> set (get_sessions w) \<and> session_open w s"
  by (force simp: session_linked_def get_sessions_def)

interpretation cw: herald "client_linked s c" "known c" "client_heard r c s" "client_news r (cl_id c)" Clients_mutex s for r c s
  by unfold_locales
    (simp_all add: client_linked_def session_linked_registered session_linked_send heard_session_send,
      simp add: known_def get_client_def session_send_post)

abbreviation client_promise :: "boost \<Rightarrow> client \<Rightarrow> session \<Rightarrow> guarantee" where
  "client_promise r c s \<equiv> herald.promise (client_linked s c) (known c) (client_heard r c s) Clients_mutex"

abbreviation client_hushed :: "boost \<Rightarrow> client \<Rightarrow> session \<Rightarrow> world \<Rightarrow> world \<Rightarrow> bool" where
  "client_hushed r c s \<equiv> herald.hushed (client_linked s c) (known c) (client_heard r c s)"

subsection \<open>The other threads\<close>

lemma open_registry [simp]:
  "session_open (w\<lparr>st_clients := xs\<rparr>) = session_open w" "session_open (w\<lparr>st_subscriptions := ys\<rparr>) = session_open w"
  "session_open (w\<lparr>st_sessions := zs\<rparr>) = session_open w"
  by (simp_all add: fun_eq_iff session_open_def session_obj_of_def)

lemma runs_frame [simp]:
  "session_open (client_run b d w) = session_open w" "session_open (session_run t ctx w) = session_open w"
  "heard says s (client_run b d w) = heard says s w" "heard says s (session_run t ctx w) = heard says s w"
  "heard says s (client_send d m w) = heard says s w" "heard says s (snd (draw_uuid b w)) = heard says s w"
  by (simp_all add: client_run_def session_run_def read_clock_def initiate_post session_open_def session_obj_of_def post_def
      fun_eq_iff heard_def client_send_post split: option.split)

lemma client_hushed_frame:
  assumes "st_sessions w' = st_sessions w" "session_open w' = session_open w" "st_clients w' = st_clients w"
    "client_heard r c s w' = client_heard r c s w"
  shows "client_hushed r c s w w'"
  using assms by (simp add: cw.hushed_def client_linked_def session_linked_def known_def get_client_def)

lemma client_hushed_truncate:
  assumes "state.truncate w' = state.truncate w" "session_open w' = session_open w"
    "client_heard r c s w' = client_heard r c s w"
  shows "client_hushed r c s w w'"
  using assms(2,3) state_fields_of_truncate [OF assms(1)] by (intro client_hushed_frame)

lemma client_hushed_objects:
  "client_hushed r c s w (client_run b d w)" "client_hushed r c s w (session_run t ctx w)"
  "client_hushed r c s w (client_send d m w)" "client_hushed r c s w (snd (draw_uuid b w))"
  by (rule client_hushed_truncate; simp add: client_send_post)+

lemma get_client_insert:
  "get_client i (w\<lparr>st_clients := st_clients w @ [d]\<rparr>) =
     (case get_client i w of Some e \<Rightarrow> Some e | None \<Rightarrow> if cl_id d = i then Some d else None)"
  by (simp add: get_client_def mi_find_append)

lemma client_hushed_same_client:
  assumes "st_sessions w' = st_sessions w" "session_open w' = session_open w" "w_pending w' = w_pending w"
    "client_linked s c w \<Longrightarrow> get_client (cl_id c) w' = get_client (cl_id c) w"
  shows "client_hushed r c s w w'"
  using assms by (auto simp: cw.hushed_def client_linked_def session_linked_def known_def heard_def)

lemma mi_find_erase_other:
  assumes "\<And>x. x \<in> set xs \<Longrightarrow> key x = k \<Longrightarrow> key' x \<noteq> k'"
  shows "mi_find key k (mi_erase_range key' k' xs) = mi_find key k xs"
  using assms by (induction xs) (auto simp: mi_erase_range_def mi_find_def mi_equal_range_def)

lemma client_hushed_registration:
  "cl_id d \<noteq> cl_id c \<Longrightarrow> client_hushed r c s w (snd (add_client d w))"
  "i \<noteq> cl_id c \<Longrightarrow> client_hushed r c s w (snd (remove_client i w))"
  "client_hushed r c s w (snd (subscribe sid j ch w))"
  "client_hushed r c s w (snd (unsubscribe sid j ch w))"
  "client_hushed r c s w (w\<lparr>st_subscriptions := ys\<rparr>)"
proof -
  assume "i \<noteq> cl_id c"
  then show "client_hushed r c s w (snd (remove_client i w))"
    by (intro client_hushed_same_client) (simp_all add: remove_client_def Let_def get_client_def mi_find_erase_other)
next
  assume "cl_id d \<noteq> cl_id c"
  then show "client_hushed r c s w (snd (add_client d w))"
    by (intro client_hushed_same_client)
      (simp_all add: add_client_def case_prod_beta clients_insert_eq get_client_insert split: option.split)
qed (rule client_hushed_frame; simp add: subscribe_def unsubscribe_eq case_prod_beta Let_def heard_def)+

lemma session_linked_registration:
  "session_linked s w \<Longrightarrow> session_linked s (snd (add_session t w))"
  "session_linked s w \<Longrightarrow> i \<noteq> ses_id s \<Longrightarrow> session_linked s (snd (remove_session i w))"
  by (simp_all add: session_linked_def add_session_def remove_session_def map_emplace_def map_erase_def set_insort_key
      split: option.split)

lemma client_hushed_sessions:
  "client_hushed r c s w (snd (add_session t w))"
  "i \<noteq> ses_id s \<Longrightarrow> client_hushed r c s w (snd (remove_session i w))"
  by (simp_all add: cw.hushed_def client_linked_def session_linked_registration)
    (simp_all add: add_session_def remove_session_def case_prod_beta known_def get_client_def heard_def)

lemma client_hushed_release:
  assumes "i \<noteq> cl_session_id c"
  shows "client_hushed r c s w (w\<lparr>st_clients := mi_erase_range cl_session_id i (st_clients w)\<rparr>)"
proof (rule client_hushed_same_client)
  have find: "mi_find cl_id k (mi_erase_range cl_session_id i xs) = mi_find cl_id k xs"
    if "\<And>d. mi_find cl_id k xs = Some d \<Longrightarrow> cl_session_id d \<noteq> i" for k xs
    using that by (induction xs) (auto simp: mi_erase_range_def mi_find_def mi_equal_range_def split: if_splits)
  assume "client_linked s c w"
  with assms show "get_client (cl_id c) (w\<lparr>st_clients := mi_erase_range cl_session_id i (st_clients w)\<rparr>) = get_client (cl_id c) w"
    by (auto simp: client_linked_def get_client_def intro!: find)
qed simp_all

lemma client_hushed_text: "client_news r (cl_id c) m = None \<Longrightarrow> client_hushed r c s w (session_send t m w)"
  by (rule cw.hushed_send)

lemma client_hushed_sync:
  assumes "relays r b"
  shows "client_hushed r c s w (sync_sessions b t x w)" "client_hushed r c s w (sync_subscription b t y w)"
  using cw.hushed_trans [OF client_hushed_objects(4) client_hushed_text] no_news(1) [OF assms] cw.hushed_same
  by (simp_all add: sync_subscription_def sync_sessions_def Let_def case_prod_beta)

lemma sync_client_says:
  assumes "relays r b"
  shows "client_linked s c w \<Longrightarrow> client_linked s c (sync_client b t d w) \<and> known c (sync_client b t d w) = known c w \<and>
    (client_heard r c s (sync_client b t d w) = client_heard r c s w \<or>
     client_heard r c s (sync_client b t d w) = client_heard r c s w @ [True] \<and> cl_id d = cl_id c)"
proof -
  define m where "m = [(''action'', JString ''join''), (''transaction_id'', JString (uuid_to_string b (fst (draw_uuid b w)))),
    (''params'', JObject [(''client_id'', JString (uuid_to_string b (cl_id d)))])]"
  have e: "sync_client b t d w = session_send t (text_of b m) (snd (draw_uuid b w))"
    by (simp add: sync_client_def m_def Let_def case_prod_beta)
  have says: "client_news r (cl_id c) (text_of b m) = (if cl_id d = cl_id c then Some True else None)"
    by (rule client_news_of(1) [OF assms, where p = "[(''client_id'', JString (uuid_to_string b (cl_id d)))]"])
      (simp_all add: m_def)
  assume "client_linked s c w"
  then have "client_linked s c (snd (draw_uuid b w)) \<and> known c (snd (draw_uuid b w)) = known c w"
    using client_hushed_objects(4) [where r = r and c = c and s = s and w = w and b = b] by (simp add: cw.hushed_def)
  with cw.framed [where s = s and c = c and t = t and m = "text_of b m" and w = "snd (draw_uuid b w)"] show ?thesis
    by (simp add: e heard_session_send says)
qed

fun unrelated :: "session \<Rightarrow> client \<Rightarrow> handler \<Rightarrow> bool" where
  "unrelated s c (Accepts d) = (cl_id d \<noteq> cl_id c)"
| "unrelated s c (Disconnects d) = (cl_id d \<noteq> cl_id c)"
| "unrelated s c (Joins d) = (cl_id d \<noteq> cl_id c)"
| "unrelated s c (Leaves i) = (i \<noteq> cl_id c)"
| "unrelated s c (Drops i) = (i \<noteq> ses_id s)"
| "unrelated s c (Releases i) = (i \<noteq> cl_session_id c)"
| "unrelated s c _ = True"

lemma uttered_actions:
  "map_of (fst (make_join_request_object b i w)) ''action'' = Some (JString ''join'')"
  "map_of (fst (make_leave_request_object b i w)) ''action'' = Some (JString ''leave'')"
  "map_of (make_broadcast_request_object b rq i p) ''action'' = Some (JString ''broadcast'')"
  "map_of (make_publish_request_object b rq i topic p) ''action'' = Some (JString ''publish'')"
  "map_of (make_subscribe_request_object b rq i topic) ''action'' = Some (JString ''subscribe'')"
  "map_of (make_unsubscribe_request_object b rq i topic) ''action'' = Some (JString ''unsubscribe'')"
  by (simp_all add: request_object_defs make_join_request_object_def make_leave_request_object_def case_prod_beta)

lemma client_uttered:
  assumes "relays r b" and "unrelated s c x" and "utters b x d"
  shows "client_news r (cl_id c) (text_of b d) = None"
proof (cases "(\<exists>c. x = Accepts c) \<or> (\<exists>c. x = Disconnects c)")
  case True
  with assms(2,3) show ?thesis
    by (auto simp: make_join_request_object_def make_leave_request_object_def case_prod_beta client_news_of [OF assms(1)])
next
  case False
  then have "\<exists>v \<in> {''broadcast'', ''publish'', ''subscribe'', ''unsubscribe''}. map_of d ''action'' = Some (JString v)"
    using assms(3) by (cases x) (auto simp: uttered_actions)
  then have "map_of d ''action'' \<noteq> Some (JString ''join'')" "map_of d ''action'' \<noteq> Some (JString ''leave'')" by auto
  then show ?thesis by (rule no_news(1) [OF assms(1)])
qed

lemma client_other_handler:
  assumes r: "relays r b" and j: "j \<noteq> 0" and x: "unrelated s c x"
    and k: "meets (client_promise r c s) j Q nothing_held (client_linked s c) k"
  shows "meets (client_promise r c s) j Q nothing_held (client_linked s c) (handler_thread b x k)"
proof (rule cw.hush.through_handler [OF k])
  show "client_hushed r c s w (session_send t (text_of b d) w)" if "utters b x d" for d t w
    using client_uttered [OF r x that] by (rule client_hushed_text)
  show "meets (client_promise r c s) j Q nothing_held (client_linked s c) (sync_thread b t registered k)" for t registered
  proof (rule cw.hush.through_sync [OF client_hushed_sync(1) [OF r] k])
    fix k' assume k': "meets (client_promise r c s) j Q (nothing_held(Clients_mutex := Shared)) (client_linked s c) k'"
    show "meets (client_promise r c s) j Q (nothing_held(Clients_mutex := Shared)) (client_linked s c)
        (access (\<lambda>w. (mi_equal_range cl_session_id (get_id w) (st_clients w), w)) (\<lambda>cs. each (sync_client b t) cs k'))"
    proof (rule cw.herald_announces [where it = "\<lambda>d. cl_id d = cl_id c", OF j _ k'])
      show "known c w" if "d \<in> set (mi_equal_range cl_session_id (get_id w) (st_clients w))" "cl_id d = cl_id c" for d w
        using that by (auto simp: known_def get_client_def mi_find_None mi_equal_range_def intro!: image_eqI [where x = d])
    qed (use sync_client_says [OF r] in simp_all)
  qed (intro cw.hush.through_look cw.hush.through_each client_hushed_sync(2) [OF r])
qed (use x in \<open>auto intro: client_hushed_registration client_hushed_sessions client_hushed_release client_hushed_objects\<close>)

lemma client_other_worker:
  assumes "relays r b" and "j \<noteq> 0" and "\<And>x. x \<in> set hs \<Longrightarrow> unrelated s c x"
  shows "meets (client_promise r c s) j (\<lambda>_. True) nothing_held (client_linked s c) (worker b hs)"
  using assms(3) by (induction hs) (simp_all add: meets_iffs cw.stable_linked client_other_handler [OF assms(1,2)])

subsection \<open>The thread of the client\<close>

definition life_handlers :: "client \<Rightarrow> bool \<Rightarrow> handler list" where
  "life_handlers c gone = Accepts c # (if gone then [Disconnects c] else [])"

abbreviation client_life :: "boost \<Rightarrow> client \<Rightarrow> session \<Rightarrow> bool \<Rightarrow> (bool list \<Rightarrow> bool) \<Rightarrow> world \<Rightarrow> bool" where
  "client_life r c s \<equiv> herald.life (client_linked s c) (known c) (client_heard r c s)"

lemma client_entered: "client_life r c s there (\<lambda>_. True) w \<Longrightarrow> client_life r c s True (\<lambda>_. True) (snd (add_client c w))"
  by (auto simp: cw.life_def client_linked_def session_linked_def known_def add_client_def case_prod_beta clients_insert_eq
      get_client_insert get_client_def mi_find_None mi_find_append split: option.splits if_splits)

lemma client_removed:
  "client_life r c s there (\<lambda>_. True) w \<Longrightarrow> client_life r c s False (\<lambda>_. True) (snd (remove_client (cl_id c) w))"
  by (simp add: cw.life_def client_linked_def session_linked_def known_def remove_client_def Let_def get_client_def
      mi_find_erase_range)

lemma client_accepted_life:
  assumes r: "relays r b"
    and k: "meets (client_promise r c s) 0 Q nothing_held (client_life r c s True (\<lambda>xs. xs \<noteq> [] \<and> last xs)) k"
  shows "meets (client_promise r c s) 0 Q nothing_held (client_life r c s there (\<lambda>_. True)) (client_accepted_thread b c k)"
proof -
  have run: "meets (client_promise r c s) 0 Q nothing_held (client_life r c s True (\<lambda>xs. xs \<noteq> [] \<and> last xs = True))
      (access (\<lambda>w. ((), client_run b c w)) (\<lambda>_. k))"
    using k by (intro cw.life_access) (simp_all add: client_hushed_objects)
  have announced: "meets (client_promise r c s) 0 Q nothing_held (client_life r c s True (\<lambda>_. True))
      (join_to_sessions_thread b (cl_id c) (\<lambda>_. access (\<lambda>w. ((), client_run b c w)) (\<lambda>_. k)))"
    unfolding join_to_sessions_thread_def
    by (intro cw.life_access cw.life_announces run)
      (simp_all add: make_join_request_object_def case_prod_beta client_news_of [OF r] client_hushed_objects)
  show ?thesis
    unfolding client_accepted_thread_def add_client_thread_def by (rule cw.life_locked [OF client_entered announced])
qed

lemma client_disconnected_life:
  assumes r: "relays r b"
    and k: "meets (client_promise r c s) 0 Q nothing_held (client_life r c s False (\<lambda>xs. xs \<noteq> [] \<and> \<not> last xs)) k"
  shows "meets (client_promise r c s) 0 Q nothing_held (client_life r c s there (\<lambda>_. True)) (client_disconnected_thread b c k)"
proof -
  have announced: "meets (client_promise r c s) 0 Q nothing_held (client_life r c s False (\<lambda>_. True))
      (leave_to_sessions_thread b (cl_id c) (\<lambda>_. k))"
    unfolding leave_to_sessions_thread_def using k
    by (intro cw.life_access cw.life_announces)
      (simp_all add: make_leave_request_object_def case_prod_beta client_news_of [OF r] client_hushed_objects)
  show ?thesis
    unfolding client_disconnected_thread_def remove_client_thread_def by (rule cw.life_locked [OF client_removed announced])
qed

lemma life_worker:
  assumes "relays r b"
  shows "meets (client_promise r c s) 0 (\<lambda>w. known c w = (\<not> gone) \<and> client_heard r c s w \<noteq> [] \<and>
      last (client_heard r c s w) = (\<not> gone)) nothing_held
    (client_life r c s there (\<lambda>_. True)) (worker b (life_handlers c gone))"
proof -
  let ?Q = "\<lambda>w. known c w = (\<not> gone) \<and> client_heard r c s w \<noteq> [] \<and> last (client_heard r c s w) = (\<not> gone)"
  have fin: "meets (client_promise r c s) 0 ?Q nothing_held (client_life r c s (\<not> gone) (\<lambda>xs. xs \<noteq> [] \<and> last xs = (\<not> gone))) Done"
    by (rule meets_done) (auto simp: cw.life_stable cw.life_def)
  have "meets (client_promise r c s) 0 ?Q nothing_held (client_life r c s True (\<lambda>xs. xs \<noteq> [] \<and> last xs))
      (worker b (if gone then [Disconnects c] else []))"
  proof (cases gone)
    case True
    then have "meets (client_promise r c s) 0 ?Q nothing_held (client_life r c s True (\<lambda>_. True)) (client_disconnected_thread b c Done)"
      using fin by (intro client_disconnected_life [OF assms]) simp
    then have "meets (client_promise r c s) 0 ?Q nothing_held (client_life r c s True (\<lambda>xs. xs \<noteq> [] \<and> last xs))
        (client_disconnected_thread b c Done)"
      by (rule meets_stronger) (simp_all add: cw.life_stable cw.life_def)
    with True show ?thesis by simp
  qed (use fin in simp)
  then show ?thesis by (simp add: life_handlers_def client_accepted_life [OF assms])
qed

lemma truth_told:
  assumes r: "relays r b" and start: "client_linked s c w"
    and others: "\<And>hs x. hs \<in> set hss \<Longrightarrow> x \<in> set hs \<Longrightarrow> unrelated s c x"
    and run: "pool_run (w, workers b (life_handlers c gone # hss)) (w', ts)" and ends: "finished ts"
  shows "known c w' = (\<not> gone) \<and> client_heard r c s w' \<noteq> [] \<and> last (client_heard r c s w') = (\<not> gone)"
  by (rule cw.herald_pool [OF run [unfolded list.map] ends start life_worker [OF r]])
    (use others in \<open>auto intro: client_other_worker [OF r]\<close>)

section \<open>Subscriptions\<close>

text \<open>The session is registered and open at node \<open>n\<close>, which lists no subscription twice.\<close>

definition topic_linked :: "session \<Rightarrow> uuid \<Rightarrow> world \<Rightarrow> bool" where
  "topic_linked s n w \<longleftrightarrow> session_linked s w \<and> get_id w = n \<and> distinct (st_subscriptions w)"

definition subscribed :: "uuid \<Rightarrow> uuid \<Rightarrow> string \<Rightarrow> world \<Rightarrow> bool" where
  "subscribed n i ch w \<longleftrightarrow> \<lparr>sub_session_id = n, sub_client_id = i, sub_channel = ch\<rparr> \<in> set (st_subscriptions w)"

abbreviation topic_heard :: "boost \<Rightarrow> uuid \<Rightarrow> string \<Rightarrow> session \<Rightarrow> world \<Rightarrow> bool list" where
  "topic_heard r i ch s \<equiv> heard (topic_news r i ch) s"

interpretation sw: herald "topic_linked s n" "subscribed n i ch" "topic_heard r i ch s" "topic_news r i ch"
    Subscriptions_mutex s for r n i ch s
  by unfold_locales
    (simp_all add: topic_linked_def session_linked_registered session_linked_send heard_session_send,
      simp_all add: subscribed_def session_send_post get_id_def)

abbreviation topic_promise :: "boost \<Rightarrow> uuid \<Rightarrow> uuid \<Rightarrow> string \<Rightarrow> session \<Rightarrow> guarantee" where
  "topic_promise r n i ch s \<equiv> herald.promise (topic_linked s n) (subscribed n i ch) (topic_heard r i ch s) Subscriptions_mutex"

abbreviation topic_hushed :: "boost \<Rightarrow> uuid \<Rightarrow> uuid \<Rightarrow> string \<Rightarrow> session \<Rightarrow> world \<Rightarrow> world \<Rightarrow> bool" where
  "topic_hushed r n i ch s \<equiv> herald.hushed (topic_linked s n) (subscribed n i ch) (topic_heard r i ch s)"

subsection \<open>The other threads\<close>

lemma topic_hushed_frame:
  assumes "st_id w' = st_id w" "st_sessions w' = st_sessions w" "session_open w' = session_open w"
    "st_subscriptions w' = st_subscriptions w" "topic_heard r i ch s w' = topic_heard r i ch s w"
  shows "topic_hushed r n i ch s w w'"
  using assms by (simp add: sw.hushed_def topic_linked_def session_linked_def subscribed_def get_id_def)

lemma topic_hushed_truncate:
  assumes "state.truncate w' = state.truncate w" "session_open w' = session_open w"
    "topic_heard r i ch s w' = topic_heard r i ch s w"
  shows "topic_hushed r n i ch s w w'"
  using assms(2,3) state_fields_of_truncate [OF assms(1)] by (intro topic_hushed_frame)

lemma topic_hushed_objects:
  "topic_hushed r n i ch s w (client_run b d w)" "topic_hushed r n i ch s w (session_run t ctx w)"
  "topic_hushed r n i ch s w (client_send d m w)" "topic_hushed r n i ch s w (snd (draw_uuid b w))"
  by (rule topic_hushed_truncate; simp add: client_send_post)+

lemma topic_hushed_clients:
  "topic_hushed r n i ch s w (snd (add_client d w))" "topic_hushed r n i ch s w (snd (remove_client k w))"
  "topic_hushed r n i ch s w (w\<lparr>st_clients := cs\<rparr>)"
  by (rule topic_hushed_frame; simp add: add_client_def remove_client_def case_prod_beta Let_def heard_def)+

lemma topic_hushed_sessions:
  "topic_hushed r n i ch s w (snd (add_session t w))"
  "k \<noteq> ses_id s \<Longrightarrow> topic_hushed r n i ch s w (snd (remove_session k w))"
  by (simp_all add: sw.hushed_def topic_linked_def session_linked_registration)
    (simp_all add: add_session_def remove_session_def case_prod_beta subscribed_def get_id_def heard_def)

lemma topic_hushed_subscriptions:
  "(sid, j, topic) \<noteq> (n, i, ch) \<Longrightarrow> topic_hushed r n i ch s w (snd (subscribe sid j topic w))"
  "(sid, j, topic) \<noteq> (n, i, ch) \<Longrightarrow> topic_hushed r n i ch s w (snd (unsubscribe sid j topic w))"
  "k \<noteq> n \<Longrightarrow> topic_hushed r n i ch s w (w\<lparr>st_subscriptions := mi_erase_range sub_session_id k (st_subscriptions w)\<rparr>)"
  by (auto simp: sw.hushed_def topic_linked_def session_linked_def subscribed_def get_id_def heard_def subscribe_def
      unsubscribe_eq case_prod_beta subscriptions_insert_eq mi_erase_range_def Let_def)

lemma topic_hushed_sync:
  assumes "relays r b"
  shows "topic_hushed r n i ch s w (sync_sessions b t x w)" "topic_hushed r n i ch s w (sync_client b t d w)"
  using sw.hushed_trans [OF topic_hushed_objects(4) sw.hushed_send] no_news(2) [OF assms] sw.hushed_same
  by (simp_all add: sync_client_def sync_sessions_def Let_def case_prod_beta)

lemma sync_subscription_says:
  assumes "relays r b"
  shows "topic_linked s n w \<Longrightarrow> topic_linked s n (sync_subscription b t x w) \<and>
    subscribed n i ch (sync_subscription b t x w) = subscribed n i ch w \<and>
    (topic_heard r i ch s (sync_subscription b t x w) = topic_heard r i ch s w \<or>
     topic_heard r i ch s (sync_subscription b t x w) = topic_heard r i ch s w @ [True] \<and>
     sub_client_id x = i \<and> sub_channel x = ch)"
proof -
  define m where "m = [(''action'', JString ''subscribe''), (''transaction_id'', JString (uuid_to_string b (fst (draw_uuid b w)))),
    (''params'', JObject [(''client_id'', JString (uuid_to_string b (sub_client_id x))), (''channel'', JString (sub_channel x))])]"
  have e: "sync_subscription b t x w = session_send t (text_of b m) (snd (draw_uuid b w))"
    by (simp add: sync_subscription_def m_def Let_def case_prod_beta)
  have says: "topic_news r i ch (text_of b m) = (if sub_client_id x = i \<and> sub_channel x = ch then Some True else None)"
    by (rule topic_news_of(1) [OF assms, where p = "[(''client_id'', JString (uuid_to_string b (sub_client_id x))),
        (''channel'', JString (sub_channel x))]"]) (simp_all add: m_def)
  assume "topic_linked s n w"
  then have "topic_linked s n (snd (draw_uuid b w)) \<and> subscribed n i ch (snd (draw_uuid b w)) = subscribed n i ch w"
    using topic_hushed_objects(4) [where r = r and n = n and i = i and ch = ch and s = s and w = w and b = b]
    by (simp add: sw.hushed_def)
  with sw.framed [where s = s and n = n and i = i and ch = ch and t = t and m = "text_of b m" and w = "snd (draw_uuid b w)"]
  show ?thesis by (auto simp: e heard_session_send says)
qed

text \<open>Handlers that neither make nor cancel the subscription, nor close the session.\<close>

fun off_topic :: "session \<Rightarrow> uuid \<Rightarrow> uuid \<Rightarrow> string \<Rightarrow> handler \<Rightarrow> bool" where
  "off_topic s n i ch (Subscribes sid j topic) = ((sid, j, topic) \<noteq> (n, i, ch))"
| "off_topic s n i ch (Unsubscribes sid j topic) = ((sid, j, topic) \<noteq> (n, i, ch))"
| "off_topic s n i ch (Announces_subscription rq j topic) = ((j, topic) \<noteq> (i, ch))"
| "off_topic s n i ch (Announces_unsubscription rq j topic) = ((j, topic) \<noteq> (i, ch))"
| "off_topic s n i ch (Drops k) = (k \<noteq> ses_id s)"
| "off_topic s n i ch (Releases k) = (k \<noteq> n)"
| "off_topic s n i ch _ = True"

lemma topic_request_news:
  assumes "relays r b"
  shows "topic_news r i ch (text_of b (make_subscribe_request_object b rq j topic)) =
      (if j = i \<and> topic = ch then Some True else None)"
    "topic_news r i ch (text_of b (make_unsubscribe_request_object b rq j topic)) =
      (if j = i \<and> topic = ch then Some False else None)"
  by (rule topic_news_of [OF assms, where p = "[(''client_id'', JString (uuid_to_string b j)), (''channel'', JString topic)]"];
      simp add: request_object_defs)+

lemma topic_uttered:
  assumes "relays r b" and "off_topic s n i ch x" and "utters b x d"
  shows "topic_news r i ch (text_of b d) = None"
proof (cases "(\<exists>rq j topic. x = Announces_subscription rq j topic) \<or> (\<exists>rq j topic. x = Announces_unsubscription rq j topic)")
  case True
  with assms(2,3) show ?thesis by (auto simp: topic_request_news [OF assms(1)])
next
  case False
  then have "\<exists>v \<in> {''join'', ''leave'', ''broadcast'', ''publish''}. map_of d ''action'' = Some (JString v)"
    using assms(3) by (cases x) (auto simp: uttered_actions)
  then have "map_of d ''action'' \<noteq> Some (JString ''subscribe'')" "map_of d ''action'' \<noteq> Some (JString ''unsubscribe'')" by auto
  then show ?thesis by (rule no_news(2) [OF assms(1)])
qed

lemma topic_other_handler:
  assumes r: "relays r b" and j: "j \<noteq> 0" and x: "off_topic s n i ch x"
    and k: "meets (topic_promise r n i ch s) j Q nothing_held (topic_linked s n) k"
  shows "meets (topic_promise r n i ch s) j Q nothing_held (topic_linked s n) (handler_thread b x k)"
proof (rule sw.hush.through_handler [OF k])
  show "topic_hushed r n i ch s w (session_send t (text_of b d) w)" if "utters b x d" for d t w
    using topic_uttered [OF r x that] by (rule sw.hushed_send)
  show "meets (topic_promise r n i ch s) j Q nothing_held (topic_linked s n) (sync_thread b t registered k)" for t registered
  proof (rule sw.hush.through_sync [OF topic_hushed_sync(1) [OF r] k])
    fix k' assume k': "meets (topic_promise r n i ch s) j Q (nothing_held(Subscriptions_mutex := Shared)) (topic_linked s n) k'"
    show "meets (topic_promise r n i ch s) j Q (nothing_held(Subscriptions_mutex := Shared)) (topic_linked s n)
        (access (\<lambda>w. (mi_equal_range sub_session_id (get_id w) (st_subscriptions w), w)) (\<lambda>xs. each (sync_subscription b t) xs k'))"
    proof (rule sw.herald_announces [where it = "\<lambda>x. sub_client_id x = i \<and> sub_channel x = ch", OF j _ k'])
      show "subscribed n i ch w" if "topic_linked s n w" "y \<in> set (mi_equal_range sub_session_id (get_id w) (st_subscriptions w))"
          "sub_client_id y = i \<and> sub_channel y = ch" for y w
      proof -
        have "y = \<lparr>sub_session_id = n, sub_client_id = i, sub_channel = ch\<rparr>"
          using that by (cases y) (simp add: topic_linked_def mi_equal_range_def)
        with that(2) show ?thesis by (auto simp: subscribed_def mi_equal_range_def)
      qed
    qed (use sync_subscription_says [OF r] in simp_all)
  qed (intro sw.hush.through_look sw.hush.through_each topic_hushed_sync(2) [OF r])
qed (use x in \<open>auto intro: topic_hushed_clients topic_hushed_sessions topic_hushed_subscriptions topic_hushed_objects\<close>)

lemma topic_other_worker:
  assumes "relays r b" and "j \<noteq> 0" and "\<And>x. x \<in> set hs \<Longrightarrow> off_topic s n i ch x"
  shows "meets (topic_promise r n i ch s) j (\<lambda>_. True) nothing_held (topic_linked s n) (worker b hs)"
  using assms(3) by (induction hs) (simp_all add: meets_iffs sw.stable_linked topic_other_handler [OF assms(1,2)])

subsection \<open>The thread of the subscriber\<close>

text \<open>
  What the client asks for, one request after the other: its subscription is made or given up, and that is
  announced, whether or not it changed anything.
\<close>

fun topic_handlers :: "uuid \<Rightarrow> uuid \<Rightarrow> string \<Rightarrow> request \<times> bool \<Rightarrow> handler list" where
  "topic_handlers n i ch (rq, True) = [Subscribes n i ch, Announces_subscription rq i ch]"
| "topic_handlers n i ch (rq, False) = [Unsubscribes n i ch, Announces_unsubscription rq i ch]"

definition topic_life_handlers :: "uuid \<Rightarrow> uuid \<Rightarrow> string \<Rightarrow> (request \<times> bool) list \<Rightarrow> handler list" where
  "topic_life_handlers n i ch acts = concat (map (topic_handlers n i ch) acts)"

abbreviation topic_life ::
  "boost \<Rightarrow> uuid \<Rightarrow> uuid \<Rightarrow> string \<Rightarrow> session \<Rightarrow> bool \<Rightarrow> (bool list \<Rightarrow> bool) \<Rightarrow> world \<Rightarrow> bool" where
  "topic_life r n i ch s \<equiv> herald.life (topic_linked s n) (subscribed n i ch) (topic_heard r i ch s)"

lemma topic_entered:
  "topic_life r n i ch s there (\<lambda>_. True) w \<Longrightarrow> topic_life r n i ch s True (\<lambda>_. True) (snd (subscribe n i ch w))"
  by (auto simp: sw.life_def topic_linked_def session_linked_def subscribed_def get_id_def subscribe_def case_prod_beta
      subscriptions_insert_eq)

lemma topic_removed:
  "topic_life r n i ch s there (\<lambda>_. True) w \<Longrightarrow> topic_life r n i ch s False (\<lambda>_. True) (snd (unsubscribe n i ch w))"
  by (auto simp: sw.life_def topic_linked_def session_linked_def subscribed_def get_id_def unsubscribe_eq Let_def)

lemma topic_request_life:
  assumes r: "relays r b"
    and k: "meets (topic_promise r n i ch s) 0 Q nothing_held (topic_life r n i ch s v (\<lambda>xs. xs \<noteq> [] \<and> last xs = v)) k"
  shows "meets (topic_promise r n i ch s) 0 Q nothing_held (topic_life r n i ch s there (\<lambda>_. True))
    (foldr (handler_thread b) (topic_handlers n i ch (rq, v)) k)"
proof (cases v)
  case True
  have announced: "meets (topic_promise r n i ch s) 0 Q nothing_held (topic_life r n i ch s True (\<lambda>_. True))
      (send_to_sessions_thread b (make_subscribe_request_object b rq i ch) (\<lambda>_. k))"
    using k True by (intro sw.life_announces) (simp_all add: topic_request_news [OF r])
  from True show ?thesis
    by (simp add: subscribe_thread_def) (rule sw.life_locked [OF topic_entered announced])
next
  case False
  have announced: "meets (topic_promise r n i ch s) 0 Q nothing_held (topic_life r n i ch s False (\<lambda>_. True))
      (send_to_sessions_thread b (make_unsubscribe_request_object b rq i ch) (\<lambda>_. k))"
    using k False by (intro sw.life_announces) (simp_all add: topic_request_news [OF r])
  from False show ?thesis
    by (simp add: unsubscribe_thread_def) (rule sw.life_locked [OF topic_removed announced])
qed

lemma topic_life_worker:
  assumes "relays r b"
  shows "acts \<noteq> [] \<Longrightarrow> meets (topic_promise r n i ch s) 0 (\<lambda>w. subscribed n i ch w = snd (last acts) \<and>
      topic_heard r i ch s w \<noteq> [] \<and> last (topic_heard r i ch s w) = snd (last acts)) nothing_held
    (topic_life r n i ch s there (\<lambda>_. True)) (worker b (topic_life_handlers n i ch acts))"
proof (induction acts arbitrary: there)
  case (Cons a acts)
  let ?G = "topic_promise r n i ch s" and ?life = "topic_life r n i ch s" and ?v = "snd (last (a # acts))"
  let ?Q = "\<lambda>w. subscribed n i ch w = ?v \<and> topic_heard r i ch s w \<noteq> [] \<and> last (topic_heard r i ch s w) = ?v"
  have "meets ?G 0 ?Q nothing_held (?life (snd a) (\<lambda>xs. xs \<noteq> [] \<and> last xs = snd a)) (worker b (topic_life_handlers n i ch acts))"
  proof (cases "acts = []")
    case True
    then show ?thesis by (auto simp: topic_life_handlers_def sw.life_stable sw.life_def intro!: meets_done)
  next
    case False
    with Cons.IH [of "snd a"] have "meets ?G 0 ?Q nothing_held (?life (snd a) (\<lambda>_. True)) (worker b (topic_life_handlers n i ch acts))"
      by simp
    then show ?thesis by (rule meets_stronger) (simp_all add: sw.life_stable sw.life_def)
  qed
  from topic_request_life [OF assms this, of there "fst a"]
  show ?case by (simp add: topic_life_handlers_def worker_def)
qed simp

lemma topic_truth_told:
  assumes r: "relays r b" and start: "topic_linked s n w" and acts: "acts \<noteq> []"
    and others: "\<And>hs x. hs \<in> set hss \<Longrightarrow> x \<in> set hs \<Longrightarrow> off_topic s n i ch x"
    and run: "pool_run (w, workers b (topic_life_handlers n i ch acts # hss)) (w', ts)" and ends: "finished ts"
  shows "subscribed n i ch w' = snd (last acts) \<and> topic_heard r i ch s w' \<noteq> [] \<and>
    last (topic_heard r i ch s w') = snd (last acts)"
  by (rule sw.herald_pool [OF run [unfolded list.map] ends start topic_life_worker [OF r acts]])
    (use others in \<open>auto intro: topic_other_worker [OF r]\<close>)

end
