(* ===== verification/Sample.thy ===== *)
theory Sample
  imports Provenance
begin

text \<open>
  Concrete instances for the witnesses: libraries that write identifiers in decimal, a clock and a
  generator that count, a network that accepts the third attempt, a node with two open local
  clients, one remote client and one open session, and a client's \<^verbatim>\<open>broadcast\<close> message.
\<close>

definition is_digit :: "char \<Rightarrow> bool" where
  "is_digit c \<longleftrightarrow> c \<in> set ''0123456789''"

definition read_decimal :: "string \<Rightarrow> uuid option" where
  "read_decimal s = (if s \<noteq> [] \<and> list_all is_digit s then Some (of_nat (decimal_value s)) else None)"

definition sample_parse :: "string \<Rightarrow> json option" where
  "sample_parse s =
     (if s = ''ping'' then Some (JObject [(''action'', JString ''ping''), (''transaction_id'', JString ''7'')])
      else if s = ''broken'' then
        Some (JObject [(''action'', JString ''broadcast''), (''transaction_id'', JString ''7'')])
      else None)"

definition sample_boost :: boost where
  "sample_boost =
     \<lparr>uuid_to_string = (\<lambda>u. decimal (unat u)),
      string_generator = read_decimal,
      lexical_cast_uuid = read_decimal,
      serialize = (\<lambda>v. case v of JObject ((key, JString s) # _) \<Rightarrow> s | _ \<Rightarrow> ''{}''),
      json_parse = sample_parse,
      random_uuid = (\<lambda>n. of_nat (100 + n)),
      clock_now = of_nat,
      resolve = (\<lambda>host service. host \<noteq> ''''),
      connects = (\<lambda>host service n. 2 \<le> n),
      make_address = (\<lambda>s. s \<noteq> ''''),
      acceptor = (\<lambda>address port. \<lparr>as_opens = True, as_reuses = True, as_binds = True, as_listens = True,
        as_port = port\<rparr>)\<rparr>"

definition sample_session :: session where
  "sample_session = \<lparr>ses_addr = 0, ses_id = 20\<rparr>"

definition sample_client :: "nat \<Rightarrow> uuid \<Rightarrow> uuid \<Rightarrow> client" where
  "sample_client a i sid = \<lparr>cl_addr = a, cl_id = i, cl_session_id = sid, cl_is_local = (sid = 1)\<rparr>"

definition sample_world :: world where
  "sample_world =
     \<lparr>st_id = 1, st_created_at = 0, st_config = default_config,
      st_sessions = [(20, sample_session)],
      st_clients = [sample_client 1 10 1, sample_client 2 11 1, sample_client 3 30 20],
      st_subscriptions = [\<lparr>sub_session_id = 20, sub_client_id = 30, sub_channel = ''news''\<rparr>],
      w_session_objs = (\<lambda>a. \<lparr>so_sessions_port = 0, so_clients_port = 0, so_host = '''',
        so_registered = False, so_open = (a = 0), so_queue = []\<rparr>),
      w_client_objs = (\<lambda>a. \<lparr>co_socket = (if a = 1 \<or> a = 2 then Some True else None), co_queue = []\<rparr>),
      w_next_addr = 4, w_live_sessions = [sample_session], w_response = new_response,
      w_random = 0, w_clock = 0, w_attempts = 0, w_pending = [], w_input = '''', w_output = []\<rparr>"

definition sample_params :: json_object where
  "sample_params =
     [(''client_id'', JString ''30''), (''from_client_id'', JString ''30''), (''to_client_id'', JString ''10''),
      (''channel'', JString ''news''), (''payload'', JObject []), (''registered'', JBool True),
      (''host'', JString ''peer''), (''sessions_port'', JInt64 65537), (''clients_port'', JInt64 12)]"

definition sample_message :: "string \<Rightarrow> json_object" where
  "sample_message action =
     [(''action'', JString action), (''transaction_id'', JString ''7''), (''params'', JObject sample_params)]"

definition sample_request :: "kernel_context \<Rightarrow> uuid \<Rightarrow> string \<Rightarrow> request" where
  "sample_request ctx i action =
     \<lparr>rq_transaction_id = 7, rq_entity_id = i, rq_context = ctx, rq_data = sample_message action,
      rq_timestamp = 0, rq_is_local = False\<rparr>"

lemmas sample_defs = sample_boost_def sample_session_def sample_client_def sample_world_def
  sample_params_def sample_message_def sample_request_def

lemma digit_chars: "list_all (\<lambda>d. is_digit (digit_char d)) [0..<10]"
  by code_simp

lemma digit_char_digit: "d < 10 \<Longrightarrow> is_digit (digit_char d)"
  using digit_chars by (simp add: list_all_iff)

lemma decimal_digits: "decimal n \<noteq> [] \<and> list_all is_digit (decimal n)"
proof (induction n rule: decimal.induct)
  case (1 n)
  then show ?case by (simp add: decimal.simps [of n] digit_char_digit)
qed

lemma read_decimal_decimal [simp]: "read_decimal (decimal (unat u)) = Some u"
  by (simp add: read_decimal_def decimal_digits)

lemma digits_not_NUL: "list_all is_digit s \<Longrightarrow> CHR 0x00 \<notin> set s"
  by (induction s) (auto simp: is_digit_def)

lemma sample_text_ok: "uuid_text_ok sample_boost"
  by (simp add: uuid_text_ok_def sample_boost_def decimal_digits digits_not_NUL)

lemma sample_wf: "wf_world sample_world"
  by (auto simp: wf_world_def wf_state_def sample_world_def sample_client_def sample_session_def
      conflict_free_def client_conflict_def ascending_def)

lemma sample_node_ok: "node_ok sample_world"
  using sample_wf
  by (simp add: node_ok_def fresh_queues_def ses.orderly_def cli.orderly_def)
    (simp add: sample_world_def session_queue_at_def client_queue_at_def has_socket_def disciplined_def)

lemma sample_read [simp]:
  "read_decimal ''7'' = Some 7" "read_decimal ''10'' = Some 10" "read_decimal ''30'' = Some 30"
  by (simp_all add: read_decimal_def is_digit_def decimal_value_def digit_value_def)

lemma sample_ids [simp]:
  "id_param sample_boost sample_params ''client_id'' 30"
  "id_param sample_boost sample_params ''from_client_id'' 30"
  "id_param sample_boost sample_params ''to_client_id'' 10"
  "id_param sample_boost (sample_message action) ''transaction_id'' 7"
  by (simp_all add: id_param_def sample_params_def sample_message_def sample_boost_def is_uuid_def c_str_def)

lemma sample_fields [simp]:
  "map_of sample_params ''channel'' = Some (JString ''news'')"
  "map_of sample_params ''payload'' = Some (JObject [])"
  "map_of sample_params ''registered'' = Some (JBool True)"
  "map_of sample_params ''host'' = Some (JString ''peer'')"
  "map_of sample_params ''sessions_port'' = Some (JInt64 65537)"
  "map_of sample_params ''clients_port'' = Some (JInt64 12)"
  "map_of (sample_message action) ''action'' = Some (JString action)"
  "has_params (sample_request ctx i action) sample_params"
  "rq_context (sample_request ctx i action) = ctx"
  by (simp_all add: sample_params_def sample_message_def sample_request_def has_params_def)

lemma sample_reads:
  "map_of (sample_message action) ''transaction_id'' = Some (JString ''7'')"
  "map_of (sample_message action) ''params'' = Some (JObject sample_params)"
  "is_uuid sample_boost (c_str ''7'')" "lexical_cast_uuid sample_boost ''7'' = Some 7"
  by (simp_all add: sample_message_def sample_boost_def is_uuid_def c_str_def)

section \<open>A run\<close>

text \<open>
  A node starts, a client connects, its handshake completes, the welcome message is queued and
  written; a peer connects as well.
\<close>

definition run0 :: world where
  "run0 = snd (server_start sample_boost (boot sample_boost default_config))"

definition run1 :: world where
  "run1 = snd (client_listener_on_accept sample_boost False
     (without [Listener_accept_session] [Repl_read] run0))"

definition run_client :: client where
  "run_client = \<lparr>cl_addr = 0, cl_id = 101, cl_session_id = 100, cl_is_local = True\<rparr>"

definition run2 :: world where
  "run2 = snd (client_on_accept sample_boost run_client 1 False
     (set_client_open True run_client (without [Listener_accept_session, Repl_read] [Listener_accept_client] run1)))"

definition run3 :: world where
  "run3 = client_on_send run_client ''103''
     (without [Listener_accept_session, Repl_read, Listener_accept_client] [Client_read run_client] run2)"

definition run4 :: world where
  "run4 = snd (client_on_write run_client False
     (without [Listener_accept_session, Repl_read, Listener_accept_client, Client_read run_client] [] run3))"

lemma run_pending:
  "w_pending run0 = [Listener_accept_session, Listener_accept_client, Repl_read]"
  "w_pending run1 = [Listener_accept_session, Repl_read, Client_accept run_client 1, Listener_accept_client]"
  "w_pending run2 = [Listener_accept_session, Repl_read, Listener_accept_client,
     Client_on_send run_client ''103'', Client_read run_client]"
  "w_pending run3 = [Listener_accept_session, Repl_read, Listener_accept_client, Client_read run_client,
     Client_write run_client ''103'']"
  "w_pending run4 = [Listener_accept_session, Repl_read, Listener_accept_client, Client_read run_client]"
  by code_simp+

lemma run_accepts: "accepted_client sample_boost run0 = run_client"
  by code_simp

lemma run_input: "w_input run4 = []"
  by code_simp

lemma run_returns:
  "fst (server_start sample_boost (boot sample_boost default_config)) = Ok 1"
  "fst (client_listener_on_accept sample_boost False
     (without [Listener_accept_session] [Repl_read] run0)) = Ok ()"
  "fst (client_on_accept sample_boost run_client 1 False
     (set_client_open True run_client (without [Listener_accept_session, Repl_read] [Listener_accept_client] run1))) = Ok ()"
  "fst (client_on_write run_client False
     (without [Listener_accept_session, Repl_read, Listener_accept_client, Client_read run_client] [] run3)) = Ok ()"
  by code_simp+

lemma settle_Ok: "fst r = Ok a \<Longrightarrow> settle r = Running (snd r)"
  by (cases r) (simp add: settle_def)

definition run_events :: "event list" where
  "run_events = [Client_accepted run_client, Internal, Client_queued run_client ''103'', Client_sent run_client ''103'']"

lemma run_steps:
  "node_step sample_boost run0 (Client_accepted run_client) (Running run1)"
  "node_step sample_boost run1 Internal (Running run2)"
  "node_step sample_boost run2 (Client_queued run_client ''103'') (Running run3)"
  "node_step sample_boost run3 (Client_sent run_client ''103'') (Running run4)"
proof -
  show "node_step sample_boost run0 (Client_accepted run_client) (Running run1)"
    using node_step.listen_client [of run0 "[Listener_accept_session]" "[Repl_read]" sample_boost False]
    by (simp add: run_pending settle_Ok [OF run_returns(2)] run1_def run_accepts)
  show "node_step sample_boost run1 Internal (Running run2)"
    using node_step.accept_client [of run1 "[Listener_accept_session, Repl_read]" run_client 1
        "[Listener_accept_client]" sample_boost False]
    by (simp add: run_pending settle_Ok [OF run_returns(3)] run2_def)
  show "node_step sample_boost run2 (Client_queued run_client ''103'') (Running run3)"
    using node_step.send_client [of run2 "[Listener_accept_session, Repl_read, Listener_accept_client]"
        run_client "''103''" "[Client_read run_client]" sample_boost]
    by (simp add: run_pending run3_def)
  show "node_step sample_boost run3 (Client_sent run_client ''103'') (Running run4)"
    using node_step.write_client [of run3 "[Listener_accept_session, Repl_read, Listener_accept_client,
        Client_read run_client]" run_client "''103''" "[]" sample_boost False]
    by (simp add: run_pending settle_Ok [OF run_returns(4)] run4_def)
qed

lemma run_reaches:
  "reaches sample_boost default_config run_events run4"
  "reaches sample_boost default_config [Client_accepted run_client, Internal, Client_queued run_client ''103''] run3"
proof -
  have start: "server_start sample_boost (boot sample_boost default_config) = (Ok 1, run0)"
    using run_returns(1) by (simp add: run0_def prod_eq_iff)
  have three: "node_run sample_boost run0 ((([] @ [Client_accepted run_client]) @ [Internal]) @ [Client_queued run_client ''103'']) run3"
    by (rule node_run.step [OF node_run.step [OF node_run.step [OF node_run.stop]]]) (rule run_steps)+
  from node_run.step [OF this run_steps(4)] start
  show "reaches sample_boost default_config run_events run4"
    unfolding reaches_def run_events_def by auto
  from three start
  show "reaches sample_boost default_config [Client_accepted run_client, Internal, Client_queued run_client ''103''] run3"
    unfolding reaches_def by auto
qed

end
