(* ===== verification/Codec.thy ===== *)
theory Codec
  imports Sample
begin

text \<open>
  A concrete text format for documents: a tag, then the content; numbers and the lengths of strings in
  decimal, lists closed by a bracket. The reader is given the length of the text as fuel, which is
  enough since every call consumes a character. Reading back what was written gives the document.
\<close>

fun encode :: "json \<Rightarrow> string" where
  "encode JNull = ''n''"
| "encode (JBool x) = (if x then ''t'' else ''f'')"
| "encode (JInt64 n) = ''i'' @ decimal (unat n) @ '';''"
| "encode (JUint64 n) = ''u'' @ decimal (unat n) @ '';''"
| "encode (JDouble n) = ''d'' @ decimal (unat n) @ '';''"
| "encode (JString s) = ''s'' @ decimal (length s) @ '';'' @ s"
| "encode (JArray vs) = ''a'' @ concat (map encode vs) @ '']''"
| "encode (JObject ms) =
     ''o'' @ concat (map (\<lambda>(k, v). ''k'' @ decimal (length k) @ '';'' @ k @ encode v) ms) @ ''}''"

definition read_number :: "string \<Rightarrow> nat \<times> string" where
  "read_number s = (decimal_value (takeWhile is_digit s), drop 1 (dropWhile is_digit s))"

definition read_string :: "string \<Rightarrow> string \<times> string" where
  "read_string s = (let (n, r) = read_number s in (take n r, drop n r))"

fun decode :: "nat \<Rightarrow> string \<Rightarrow> (json \<times> string) option"
  and decode_items :: "nat \<Rightarrow> string \<Rightarrow> (json list \<times> string) option"
  and decode_members :: "nat \<Rightarrow> string \<Rightarrow> (json_object \<times> string) option" where
  "decode (Suc n) (c # s) =
     (if c = CHR ''n'' then Some (JNull, s)
      else if c = CHR ''t'' then Some (JBool True, s)
      else if c = CHR ''f'' then Some (JBool False, s)
      else if c = CHR ''i'' then (case read_number s of (k, r) \<Rightarrow> Some (JInt64 (of_nat k), r))
      else if c = CHR ''u'' then (case read_number s of (k, r) \<Rightarrow> Some (JUint64 (of_nat k), r))
      else if c = CHR ''d'' then (case read_number s of (k, r) \<Rightarrow> Some (JDouble (of_nat k), r))
      else if c = CHR ''s'' then (case read_string s of (t, r) \<Rightarrow> Some (JString t, r))
      else if c = CHR ''a'' then map_option (\<lambda>(vs, r). (JArray vs, r)) (decode_items n s)
      else if c = CHR ''o'' then map_option (\<lambda>(ms, r). (JObject ms, r)) (decode_members n s)
      else None)"
| "decode _ _ = None"
| "decode_items (Suc n) (c # s) =
     (if c = CHR '']'' then Some ([], s)
      else case decode n (c # s) of
        None \<Rightarrow> None
      | Some (v, r) \<Rightarrow> map_option (\<lambda>(vs, r'). (v # vs, r')) (decode_items n r))"
| "decode_items _ _ = None"
| "decode_members (Suc n) (c # s) =
     (if c = CHR ''}'' then Some ([], s)
      else case read_string s of (k, r) \<Rightarrow>
        (case decode n r of
           None \<Rightarrow> None
         | Some (v, r') \<Rightarrow> map_option (\<lambda>(ms, r''). ((k, v) # ms, r'')) (decode_members n r')))"
| "decode_members _ _ = None"

definition decode_text :: "string \<Rightarrow> json option" where
  "decode_text s = (case decode (length s) s of Some (v, []) \<Rightarrow> Some v | _ \<Rightarrow> None)"

lemma read_number_decimal: "read_number (decimal n @ CHR '';'' # r) = (n, r)"
proof -
  have d: "\<And>c. c \<in> set (decimal n) \<Longrightarrow> is_digit c" using decimal_digits by (simp add: list_all_iff)
  have "\<not> is_digit CHR '';''" by (simp add: is_digit_def)
  with d show ?thesis by (simp add: read_number_def takeWhile_append2 dropWhile_append2)
qed

lemma read_string_text: "read_string (decimal (length t) @ CHR '';'' # t @ r) = (t, r)"
  by (simp add: read_string_def read_number_decimal)

lemma encode_tag: "\<exists>c s. encode v = c # s \<and> c \<noteq> CHR '']''"
  by (cases v) auto

lemma enough_fuel: "length (encode v) \<le> n \<Longrightarrow> \<exists>m. n = Suc m"
  using encode_tag [of v] by (cases n) auto

lemma decode_encode: "length (encode v) \<le> n \<Longrightarrow> decode n (encode v @ r) = Some (v, r)"
proof (induction v arbitrary: n r)
  case (JArray vs)
  have items: "length (concat (map encode us)) < k \<Longrightarrow>
      decode_items k (concat (map encode us) @ CHR '']'' # r) = Some (us, r)" if "set us \<subseteq> set vs" for us k
    using that
  proof (induction us arbitrary: k)
    case Nil
    then show ?case by (cases k) auto
  next
    case (Cons u us)
    obtain j where k: "k = Suc j" using Cons.prems by (cases k) auto
    obtain c s where c: "encode u = c # s" "c \<noteq> CHR '']''" using encode_tag by blast
    have "decode j (encode u @ concat (map encode us) @ CHR '']'' # r) = Some (u, concat (map encode us) @ CHR '']'' # r)"
      using Cons.prems k JArray.IH by simp
    moreover have "length (concat (map encode us)) < j" using Cons.prems k c by simp
    ultimately show ?case using Cons k c by simp
  qed
  obtain m where "n = Suc m" using enough_fuel [OF JArray.prems] ..
  with items [of vs m] JArray.prems show ?case by simp
next
  case (JObject ms)
  let ?e = "\<lambda>(k, v). ''k'' @ decimal (length k) @ '';'' @ k @ encode v"
  have members: "length (concat (map ?e us)) < k \<Longrightarrow>
      decode_members k (concat (map ?e us) @ CHR ''}'' # r) = Some (us, r)" if "set us \<subseteq> set ms" for us k
    using that
  proof (induction us arbitrary: k)
    case Nil
    then show ?case by (cases k) auto
  next
    case (Cons u us)
    obtain f v where u: "u = (f, v)" by (cases u)
    obtain j where k: "k = Suc j" using Cons.prems by (cases k) auto
    have "decode j (encode v @ concat (map ?e us) @ CHR ''}'' # r) = Some (v, concat (map ?e us) @ CHR ''}'' # r)"
      using Cons.prems k u JObject.IH [of u v] by (auto simp: snds.simps)
    moreover have "length (concat (map ?e us)) < j" using Cons.prems k u by simp
    ultimately show ?case using Cons k u read_string_text by simp
  qed
  obtain m where "n = Suc m" using enough_fuel [OF JObject.prems] ..
  with members [of ms m] JObject.prems show ?case by simp
qed (drule enough_fuel, erule exE, simp add: read_number_decimal read_string_text)+

lemma decode_text_encode: "decode_text (encode v) = Some v"
  using decode_encode [of v "length (encode v)" "[]"] by (simp add: decode_text_def)

section \<open>Libraries with this format\<close>

definition wire_boost :: boost where
  "wire_boost = sample_boost
     \<lparr>serialize := encode, json_parse := (\<lambda>s. map_option as_parsed (decode_text s)),
      random_uuid := (\<lambda>n. of_nat (100 + min n 1000))\<rparr>"

lemma wire_fresh: "fresh_id wire_boost"
proof -
  have "unat (of_nat (100 + min n 1000) :: uuid) = 100 + min n 1000" for n
    by (rule of_nat_inverse [OF refl]) (simp add: min_def)
  then have "unat (random_uuid wire_boost n) = 100 + min n 1000" for n by (simp add: wire_boost_def)
  then have "random_uuid wire_boost n \<noteq> random_uuid wire_boost 0" if "0 < n" for n
    using that by (metis add_left_cancel min.absorb1 min_0L min_def neq0_conv not_less_zero zero_neq_numeral le0)
  then show ?thesis by (simp add: fresh_id_def)
qed

lemma wire_text_ok: "uuid_text_ok wire_boost"
  using sample_text_ok by (simp add: uuid_text_ok_def wire_boost_def)

lemma wire_understands: "understands wire_boost wire_boost"
proof -
  have "json_parse wire_boost (serialize wire_boost (JObject d)) = Some v \<Longrightarrow> v = as_parsed (JObject d)" for d v
    by (simp add: wire_boost_def sample_boost_def decode_text_encode del: encode.simps as_parsed.simps)
  then show ?thesis using wire_text_ok by (simp add: understands_def reads_own_ids del: as_parsed.simps)
qed

end
