(* ===== verification/Sample_Network.thy ===== *)
theory Sample_Network
  imports Sample
begin

text \<open>
  A concrete network for the witnesses: node 0 is configured to connect to node 1; it registers, the
  message travels over the connection and node 1 reads it.
\<close>

definition link_configs :: "nat \<Rightarrow> config" where
  "link_configs k = (if k = 0 then default_config\<lparr>cfg_is_node := True, cfg_remote_sessions_port := 5\<rparr> else default_config)"

definition link_peer :: "endpoint \<Rightarrow> endpoint option" where
  "link_peer p = (if p = (0, 0) then Some (1, 0) else if p = (1, 0) then Some (0, 0) else None)"

definition link_session :: session where
  "link_session = \<lparr>ses_addr = 0, ses_id = 101\<rparr>"

abbreviation link_text :: string where
  "link_text \<equiv> ''102''"

definition caller0 :: world where
  "caller0 = snd (server_start sample_boost (boot sample_boost (link_configs 0)))"

definition caller1 :: world where
  "caller1 = session_on_run link_session Remote
     (without [] [Listener_accept_session, Listener_accept_client, Repl_read] caller0)"

definition caller2 :: world where
  "caller2 = snd (session_on_accept sample_boost link_session Remote False (Some ''peer'')
     (set_session_open True link_session
       (without [Listener_accept_session, Listener_accept_client, Repl_read] [] caller1)))"

definition caller3 :: world where
  "caller3 = session_on_send link_session link_text
     (without [Listener_accept_session, Listener_accept_client, Repl_read] [Session_read link_session] caller2)"

definition caller4 :: world where
  "caller4 = snd (session_on_write link_session False
     (without [Listener_accept_session, Listener_accept_client, Repl_read, Session_read link_session] [] caller3))"

definition callee0 :: world where
  "callee0 = snd (server_start sample_boost (boot sample_boost (link_configs 1)))"

definition callee1 :: world where
  "callee1 = snd (session_listener_on_accept sample_boost False
     (without [] [Listener_accept_client, Repl_read] callee0))"

definition callee2 :: world where
  "callee2 = session_on_run link_session Local
     (without [Listener_accept_client, Repl_read] [Listener_accept_session] callee1)"

definition callee3 :: world where
  "callee3 = snd (session_on_accept sample_boost link_session Local False (Some ''peer'')
     (set_session_open True link_session
       (without [Listener_accept_client, Repl_read, Listener_accept_session] [] callee2)))"

definition callee4 :: world where
  "callee4 = snd (session_on_read sample_boost link_session (Read_text link_text)
     (without [Listener_accept_client, Repl_read, Listener_accept_session] [] callee3))"

lemma link_starts:
  "fst (server_start sample_boost (boot sample_boost (link_configs 0))) = Ok 1"
  "fst (server_start sample_boost (boot sample_boost (link_configs 1))) = Ok 1"
  by code_simp+

lemma caller_pending:
  "w_pending caller0 = [Session_on_run link_session Remote, Listener_accept_session, Listener_accept_client, Repl_read]"
  "w_pending caller1 = [Listener_accept_session, Listener_accept_client, Repl_read,
     Session_handshake link_session ''127.0.0.1:5'' Remote]"
  "w_pending caller2 = [Listener_accept_session, Listener_accept_client, Repl_read,
     Session_on_send link_session link_text, Session_read link_session]"
  "w_pending caller3 = [Listener_accept_session, Listener_accept_client, Repl_read, Session_read link_session,
     Session_write link_session link_text]"
  by code_simp+

lemma callee_pending:
  "w_pending callee0 = [Listener_accept_session, Listener_accept_client, Repl_read]"
  "w_pending callee1 = [Listener_accept_client, Repl_read, Session_on_run link_session Local, Listener_accept_session]"
  "w_pending callee2 = [Listener_accept_client, Repl_read, Listener_accept_session, Session_accept link_session Local]"
  "w_pending callee3 = [Listener_accept_client, Repl_read, Listener_accept_session, Session_read link_session]"
  by code_simp+

lemma link_returns:
  "fst (session_on_accept sample_boost link_session Remote False (Some ''peer'')
     (set_session_open True link_session
       (without [Listener_accept_session, Listener_accept_client, Repl_read] [] caller1))) = Ok ()"
  "fst (session_on_write link_session False
     (without [Listener_accept_session, Listener_accept_client, Repl_read, Session_read link_session] [] caller3)) = Ok ()"
  "fst (session_listener_on_accept sample_boost False
     (without [] [Listener_accept_client, Repl_read] callee0)) = Ok ()"
  "fst (session_on_accept sample_boost link_session Local False (Some ''peer'')
     (set_session_open True link_session
       (without [Listener_accept_client, Repl_read, Listener_accept_session] [] callee2))) = Ok ()"
  "fst (session_on_read sample_boost link_session (Read_text link_text)
     (without [Listener_accept_client, Repl_read, Listener_accept_session] [] callee3)) = Ok ()"
  by code_simp+

lemma caller_steps:
  "node_step sample_boost caller0 Internal (Running caller1)"
  "node_step sample_boost caller1 Internal (Running caller2)"
  "node_step sample_boost caller2 (Session_queued link_session link_text) (Running caller3)"
  "node_step sample_boost caller3 (Session_sent link_session link_text) (Running caller4)"
proof -
  show "node_step sample_boost caller0 Internal (Running caller1)"
    using node_step.run_session [of caller0 "[]" link_session Remote
        "[Listener_accept_session, Listener_accept_client, Repl_read]" sample_boost]
    by (simp add: caller_pending caller1_def)
  show "node_step sample_boost caller1 Internal (Running caller2)"
    using node_step.handshake_session [of caller1 "[Listener_accept_session, Listener_accept_client, Repl_read]"
        link_session "''127.0.0.1:5''" Remote "[]" sample_boost False "Some ''peer''"]
    by (simp add: caller_pending settle_Ok [OF link_returns(1)] caller2_def)
  show "node_step sample_boost caller2 (Session_queued link_session link_text) (Running caller3)"
    using node_step.send_session [of caller2 "[Listener_accept_session, Listener_accept_client, Repl_read]"
        link_session link_text "[Session_read link_session]" sample_boost]
    by (simp add: caller_pending caller3_def)
  show "node_step sample_boost caller3 (Session_sent link_session link_text) (Running caller4)"
    using node_step.write_session [of caller3 "[Listener_accept_session, Listener_accept_client, Repl_read,
        Session_read link_session]" link_session link_text "[]" sample_boost False]
    by (simp add: caller_pending settle_Ok [OF link_returns(2)] caller4_def)
qed

lemma callee_steps:
  "node_step sample_boost callee0 Internal (Running callee1)"
  "node_step sample_boost callee1 Internal (Running callee2)"
  "node_step sample_boost callee2 Internal (Running callee3)"
  "node_step sample_boost callee3 (Session_got link_session link_text) (Running callee4)"
proof -
  show "node_step sample_boost callee0 Internal (Running callee1)"
    using node_step.listen_session [of callee0 "[]" "[Listener_accept_client, Repl_read]" sample_boost False]
    by (simp add: callee_pending settle_Ok [OF link_returns(3)] callee1_def)
  show "node_step sample_boost callee1 Internal (Running callee2)"
    using node_step.run_session [of callee1 "[Listener_accept_client, Repl_read]" link_session Local
        "[Listener_accept_session]" sample_boost]
    by (simp add: callee_pending callee2_def)
  show "node_step sample_boost callee2 Internal (Running callee3)"
    using node_step.accept_session [of callee2 "[Listener_accept_client, Repl_read, Listener_accept_session]"
        link_session Local "[]" sample_boost False "Some ''peer''"]
    by (simp add: callee_pending settle_Ok [OF link_returns(4)] callee3_def)
  show "node_step sample_boost callee3 (Session_got link_session link_text) (Running callee4)"
    using node_step.read_session [of callee3 "[Listener_accept_client, Repl_read, Listener_accept_session]"
        link_session "[]" sample_boost "Read_text link_text"]
    by (simp add: callee_pending settle_Ok [OF link_returns(5)] callee4_def after_session_read_def)
qed

lemma link_runs:
  "node_run sample_boost caller0 [Internal, Internal, Session_queued link_session link_text] caller3"
  "node_run sample_boost callee0 [Internal, Internal, Internal] callee3"
  by (rule node_run_first [OF node_run_first [OF node_run_first [OF node_run.stop]]], rule caller_steps callee_steps,
      rule caller_steps callee_steps, rule caller_steps callee_steps)+

lemma callee_reaches: "reaches sample_boost default_config [Internal, Internal, Internal] callee3"
proof -
  have "server_start sample_boost (boot sample_boost default_config) = (Ok 1, callee0)"
    using link_starts(2) by (simp add: callee0_def link_configs_def prod_eq_iff)
  with link_runs(2) show ?thesis by (auto simp: reaches_def)
qed

definition link_events :: "(nat \<times> event) list" where
  "link_events = [(0, Internal), (0, Internal), (0, Session_queued link_session link_text),
     (0, Session_sent link_session link_text), (1, Internal), (1, Internal), (1, Internal),
     (1, Session_got link_session link_text)]"

lemma link_reaches:
  "\<exists>N. net_run (\<lambda>k. sample_boost) link_configs link_peer link_events N \<and>
     net_nodes N 0 = Some (Running caller4) \<and> net_nodes N 1 = Some (Running callee4)"
proof -
  let ?run = "net_run (\<lambda>k. sample_boost) link_configs link_peer"
  have start: "server_start sample_boost (boot sample_boost (link_configs 0)) = (Ok 1, caller0)"
    "server_start sample_boost (boot sample_boost (link_configs 1)) = (Ok 1, callee0)"
    using link_starts by (simp_all add: caller0_def callee0_def prod_eq_iff)
  have p: "link_peer (0, 0) = Some (1, 0)" by (simp add: link_peer_def)
  then have r: "(1, 0) \<in> ran link_peer" by (rule ranI)
  from net_starts_two [of "\<lambda>k. sample_boost" 0 link_configs 1 caller0 1 1 callee0 link_peer] start
  obtain N where n: "?run [] N" "net_nodes N 0 = Some (Running caller0)" "net_nodes N 1 = Some (Running callee0)"
    "net_wires N = (\<lambda>_. [])" by auto
  from net_run_embeds [OF link_runs(1) n(1,2)] n obtain A where a:
    "?run [(0, Internal), (0, Internal), (0, Session_queued link_session link_text)] A"
    "net_nodes A 0 = Some (Running caller3)" "net_nodes A 1 = Some (Running callee0)" "net_wires A = (\<lambda>_. [])"
    by auto
  from net_run.net_act [OF a(1,2) caller_steps(4)] a(3,4) p obtain B where b:
    "?run [(0, Internal), (0, Internal), (0, Session_queued link_session link_text),
      (0, Session_sent link_session link_text)] B"
    "net_nodes B 0 = Some (Running caller4)" "net_nodes B 1 = Some (Running callee0)" "net_wires B (1, 0) = [link_text]"
    by (auto simp: readable_def carry_def link_session_def)
  from net_run_embeds [OF link_runs(2) b(1,3)] b obtain C where c:
    "?run [(0, Internal), (0, Internal), (0, Session_queued link_session link_text),
      (0, Session_sent link_session link_text), (1, Internal), (1, Internal), (1, Internal)] C"
    "net_nodes C 0 = Some (Running caller4)" "net_nodes C 1 = Some (Running callee3)" "net_wires C (1, 0) = [link_text]"
    by auto
  have "readable link_peer 1 (Session_got link_session link_text) (net_wires C)"
    by (simp add: readable_def link_session_def c(4) [unfolded One_nat_def])
  from net_run.net_act [OF c(1,3) callee_steps(4) this] c(2) show ?thesis
    by (auto simp: link_events_def)
qed

end
