(* ===== verification/Sample_Wire.thy ===== *)
theory Sample_Wire
  imports Codec Sample_Network Arrival
begin

text \<open>
  A second run of the network of \<open>Sample_Network\<close>, over libraries with a real text format: node 0
  connects to node 1; node 1 accepts a client and announces it; node 0 reads the announcement and
  registers the client under its session.
\<close>

definition wire_configs :: "nat \<Rightarrow> config" where
  "wire_configs k = (link_configs k)\<lparr>cfg_sessions_port := 7, cfg_clients_port := 8\<rparr>"

definition wire_client :: client where
  "wire_client = \<lparr>cl_addr = 1, cl_id = 102, cl_session_id = 100, cl_is_local = True\<rparr>"

definition wire_text :: string where
  "wire_text = text_of wire_boost (join_object wire_boost 103 102)"

definition wire_register :: string where
  "wire_register = text_of wire_boost (register_object wire_boost 102 (wire_configs 0))"

definition near0 :: world where
  "near0 = snd (server_start wire_boost (boot wire_boost (wire_configs 0)))"

definition near1 :: world where
  "near1 = session_on_run link_session Remote
     (without [] [Listener_accept_session, Listener_accept_client, Repl_read] near0)"

definition near2 :: world where
  "near2 = snd (session_on_accept wire_boost link_session Remote False (Some ''peer'')
     (set_session_open True link_session
       (without [Listener_accept_session, Listener_accept_client, Repl_read] [] near1)))"

definition near3 :: world where
  "near3 = snd (session_on_read wire_boost link_session (Read_text wire_text)
     (without [Listener_accept_session, Listener_accept_client, Repl_read, Session_on_send link_session wire_register] [] near2))"

definition far0 :: world where
  "far0 = snd (server_start wire_boost (boot wire_boost (wire_configs 1)))"

definition far1 :: world where
  "far1 = snd (session_listener_on_accept wire_boost False
     (without [] [Listener_accept_client, Repl_read] far0))"

definition far2 :: world where
  "far2 = session_on_run link_session Local
     (without [Listener_accept_client, Repl_read] [Listener_accept_session] far1)"

definition far3 :: world where
  "far3 = snd (session_on_accept wire_boost link_session Local False (Some ''peer'')
     (set_session_open True link_session
       (without [Listener_accept_client, Repl_read, Listener_accept_session] [] far2)))"

definition far4 :: world where
  "far4 = snd (client_listener_on_accept wire_boost False
     (without [] [Repl_read, Listener_accept_session, Session_read link_session] far3))"

definition far5 :: world where
  "far5 = session_on_send link_session wire_text
     (without [Repl_read, Listener_accept_session, Session_read link_session]
        [Client_accept wire_client 1, Listener_accept_client] far4)"

definition far6 :: world where
  "far6 = snd (session_on_write link_session False
     (without [Repl_read, Listener_accept_session, Session_read link_session,
        Client_accept wire_client 1, Listener_accept_client] [] far5))"

lemma wire_starts:
  "fst (server_start wire_boost (boot wire_boost (wire_configs 0))) = Ok 1"
  "fst (server_start wire_boost (boot wire_boost (wire_configs 1))) = Ok 1"
  by code_simp+

lemma wire_draws:
  "random_uuid wire_boost 2 = 102" "random_uuid wire_boost (Suc 2) = 103" "clock_now wire_boost 1 = 1"
  by (simp_all add: wire_boost_def sample_boost_def)

section \<open>The node that connects\<close>

lemma near_pending_first:
  "w_pending near0 = [Session_on_run link_session Remote, Listener_accept_session, Listener_accept_client, Repl_read]"
  "w_pending near1 = [Listener_accept_session, Listener_accept_client, Repl_read,
     Session_handshake link_session ''127.0.0.1:5'' Remote]"
  by code_simp+

lemma near_before:
  "(w_random near1, st_config near1, st_id near1, st_clients near1) = (2, wire_configs 0, 100, [])"
  "get_sessions near1 = [link_session]"
  by code_simp+

abbreviation near_opened :: world where
  "near_opened \<equiv> set_session_open True link_session
     (without [Listener_accept_session, Listener_accept_client, Repl_read] [] near1)"

lemma near_opened_frame:
  "w_random near_opened = 2" "st_config near_opened = wire_configs 0" "st_id near_opened = 100"
  "st_clients near_opened = []" "session_open near_opened link_session"
  "w_pending near_opened = [Listener_accept_session, Listener_accept_client, Repl_read]"
  "get_sessions near_opened = [link_session]"
  using near_before
  by (simp_all add: set_session_open_def update_session_def without_def session_open_def session_obj_of_def get_sessions_def)

lemma near_registers:
  "fst (session_on_accept wire_boost link_session Remote False (Some ''peer'') near_opened) = Ok ()"
  "w_pending near2 = [Listener_accept_session, Listener_accept_client, Repl_read,
     Session_on_send link_session wire_register, Session_read link_session]"
  using session_registers [of wire_boost link_session "''peer''" near_opened]
  unfolding near2_def by (auto simp: near_opened_frame wire_draws wire_register_def session_deliveries_def)

lemmas near_pending = near_pending_first near_registers(2)

lemma near2_registry:
  "st_clients near2 = []" "st_id near2 = 100" "get_sessions near2 = [link_session]" "w_random near2 = 3"
  "session_open near2 link_session"
proof -
  have f: "st_clients (snd (session_on_accept b s Remote False (Some h) w)) = st_clients w"
    "st_id (snd (session_on_accept b s Remote False (Some h) w)) = st_id w"
    "st_sessions (snd (session_on_accept b s Remote False (Some h) w)) = st_sessions w"
    "w_random (snd (session_on_accept b s Remote False (Some h) w)) = Suc (w_random w)"
    "session_open (snd (session_on_accept b s Remote False (Some h) w)) t = session_open w t" for b s h w t
    by (simp_all add: session_on_accept_def session_register_def session_do_read_def session_send_post initiate_post
        set_host_def update_session_def draw_uuid_def Let_def session_open_def session_obj_of_def)
  show "st_clients near2 = []" "st_id near2 = 100" "get_sessions near2 = [link_session]" "w_random near2 = 3"
    "session_open near2 link_session"
    using near_opened_frame unfolding near2_def get_sessions_def f by simp_all
qed

lemma wire_parsed: "json_parse wire_boost wire_text = Some (JObject (join_object wire_boost 103 102))"
  by (simp add: wire_boost_def wire_text_def sample_boost_def decode_text_encode join_object_def del: encode.simps)

lemma wire_announces: "announces wire_boost (join_object wire_boost 103 102) 102 None"
  using uuid_text_okD(1) [OF wire_text_ok] by (simp add: announces_def join_object_def)

abbreviation near_reading :: world where
  "near_reading \<equiv> without [Listener_accept_session, Listener_accept_client, Repl_read,
     Session_on_send link_session wire_register] [] near2"

lemma near_joins:
  "\<exists>u m d. session_on_read wire_boost link_session (Read_text wire_text) near_reading = (Ok (), u) \<and> st_id u = 100 \<and>
     map (\<lambda>c. (cl_id c, cl_session_id c)) (st_clients u) = [(102, 101)] \<and> get_sessions u = [link_session] \<and>
     session_open u link_session \<and> w_random u = 3 \<and>
     w_pending u = w_pending near_reading @ [Session_on_send link_session m, Session_read link_session] \<and>
     m = text_of wire_boost d \<and> map_of d ''action'' = Some (JString ''ack'')"
proof -
  let ?d = "join_object wire_boost 103 102" and ?w = "snd (read_clock wire_boost near_reading)"
  have a: "addressed wire_boost ?d ''join'' 103 [(''client_id'', JString (uuid_to_string wire_boost 102))]"
    using wire_text_ok by (simp add: addressed_def join_object_def id_param_to_string)
  have w: "st_id ?w = 100" "st_clients ?w = []" "st_sessions ?w = st_sessions near2" "w_random ?w = 3"
    "w_pending ?w = w_pending near_reading" "w_session_objs ?w = w_session_objs near2"
    by (simp_all add: read_clock_def without_def near2_registry)
  from kernel_join [OF a, of 102 "ses_id link_session" ?w] id_param_to_string [OF wire_text_ok, of _ "''client_id''" 102]
  obtain r v where k: "kernel wire_boost ?d On_session (ses_id link_session) ?w = (Ok r, v)"
    and v: "st_id v = 100" "map (\<lambda>c. (cl_id c, cl_session_id c)) (st_clients v) = [(102, 101)]"
      "st_sessions v = st_sessions near2" "w_random v = 3" "w_pending v = w_pending near_reading"
      "w_session_objs v = w_session_objs near2"
    unfolding w by (auto simp: link_session_def)
  have open': "session_open v link_session"
    using near2_registry(5) v(6) by (simp add: session_open_def session_obj_of_def)
  have "get_passed (make_validator wire_boost ?d)"
    using a by (auto simp: passed_iff addressed_def id_param_iff)
  then have r: "\<not> is_ack r" "map_of (get_data r) ''action'' = Some (JString ''ack'')"
    using kernel_well_answered(1) [OF k]
    by (auto simp: well_answered_def answered_def join_object_def Response.acknowledges_def get_data_def)
  let ?u = "session_do_read link_session (session_send link_session (serialize wire_boost (JObject (get_data r))) v)"
  have "session_on_read wire_boost link_session (Read_text wire_text) near_reading = (Ok (), ?u)"
    using k r(1) by (simp add: session_on_read_def bind_eff_call bind_eff_apply wire_parsed)
  moreover have "st_id ?u = st_id v" "st_clients ?u = st_clients v" "st_sessions ?u = st_sessions v"
    "session_open ?u link_session = session_open v link_session" "w_random ?u = w_random v"
    "w_pending ?u = w_pending v @ [Session_on_send link_session (text_of wire_boost (get_data r)), Session_read link_session]"
    using open' by (simp_all add: session_do_read_def session_send_post initiate_post session_deliveries_def)
  ultimately show ?thesis using v r(2) open' near2_registry(3) by (auto simp: get_sessions_def)
qed

lemma near_reads: "fst (session_on_read wire_boost link_session (Read_text wire_text) near_reading) = Ok ()"
  using near_joins by auto

lemma near_registry:
  "map (\<lambda>c. (cl_id c, cl_session_id c)) (st_clients near3) = [(102, 101)]" "st_id near3 = 100"
  "get_sessions near3 = [link_session]" "session_open near3 link_session" "w_random near3 = 3"
  "\<exists>m d. w_pending near3 = [Listener_accept_session, Listener_accept_client, Repl_read,
     Session_on_send link_session wire_register, Session_on_send link_session m, Session_read link_session] \<and>
     m = text_of wire_boost d \<and> map_of d ''action'' = Some (JString ''ack'')"
  using near_joins unfolding near3_def by auto

section \<open>The node that accepts\<close>

lemma far_pending_first:
  "w_pending far0 = [Listener_accept_session, Listener_accept_client, Repl_read]"
  "w_pending far1 = [Listener_accept_client, Repl_read, Session_on_run link_session Local, Listener_accept_session]"
  "w_pending far2 = [Listener_accept_client, Repl_read, Listener_accept_session, Session_accept link_session Local]"
  "w_pending far3 = [Listener_accept_client, Repl_read, Listener_accept_session, Session_read link_session]"
  by code_simp+

lemma far_returns:
  "fst (session_listener_on_accept wire_boost False
     (without [] [Listener_accept_client, Repl_read] far0)) = Ok ()"
  "fst (session_on_accept wire_boost link_session Local False (Some ''peer'')
     (set_session_open True link_session
       (without [Listener_accept_client, Repl_read, Listener_accept_session] [] far2))) = Ok ()"
  by code_simp+

lemma far_before:
  "(w_random far3, w_clock far3, w_next_addr far3, st_id far3) = (2, 1, 1, 100)"
  "(st_clients far3, get_sessions far3, session_open far3 link_session, session_queue link_session far3) =
     ([], [link_session], True, [])"
  by code_simp+

abbreviation far_listening :: world where
  "far_listening \<equiv> without [] [Repl_read, Listener_accept_session, Session_read link_session] far3"

lemma far_listening_frame:
  "w_random far_listening = 2" "w_clock far_listening = 1" "get_client i far_listening = None"
  "get_sessions far_listening = [link_session]" "session_open far_listening link_session"
  "accepted_client wire_boost far_listening = wire_client" "session_queue link_session far_listening = []"
  using far_before
  by (simp_all add: without_def get_client_def get_sessions_def session_open_def session_obj_of_def session_queue_def
      mi_find_eq accepted_client_def wire_client_def wire_draws)

lemma far_accepts: "accepted_client wire_boost far3 = wire_client"
  using far_before by (simp add: accepted_client_def wire_client_def wire_draws)

lemma far_announces:
  "fst (client_listener_on_accept wire_boost False far_listening) = Ok ()"
  "w_pending far4 = [Repl_read, Listener_accept_session, Session_read link_session,
     Session_on_send link_session wire_text, Client_accept wire_client 1, Listener_accept_client]"
proof -
  have id: "cl_id wire_client = 102" by (simp add: wire_client_def)
  have doc: "text_of wire_boost (join_object wire_boost (random_uuid wire_boost (Suc 2)) 102) = wire_text"
    unfolding wire_draws wire_text_def ..
  from client_listener_accepts [of wire_boost far_listening, unfolded far_listening_frame wire_draws(1,3) id doc]
  obtain u where u: "client_listener_on_accept wire_boost False far_listening = (Ok (), u)"
    "w_pending u = w_pending far_listening @ session_deliveries far_listening [link_session] wire_text @
      [Client_accept wire_client 1, Listener_accept_client]" by blast
  from u(1) show "fst (client_listener_on_accept wire_boost False far_listening) = Ok ()" by simp
  have "w_pending far4 = w_pending u" using u(1) unfolding far4_def by simp
  also have "\<dots> = [Repl_read, Listener_accept_session, Session_read link_session,
     Session_on_send link_session wire_text, Client_accept wire_client 1, Listener_accept_client]"
    unfolding u(2) by (simp add: session_deliveries_def far_listening_frame(5))
  finally show "w_pending far4 = [Repl_read, Listener_accept_session, Session_read link_session,
     Session_on_send link_session wire_text, Client_accept wire_client 1, Listener_accept_client]" .
qed

lemma far_queue: "session_queue link_session far4 = []"
proof -
  have "w_session_objs (snd (client_listener_on_accept b False w)) = w_session_objs w" for b w
    by (simp add: client_listener_on_accept_def bind_eff_apply join_to_sessions_eq client_run_def client_listener_do_accept_def
        initiate_def make_client_def new_client_def set_socket_def add_client_def read_clock_def draw_uuid_def update_client_def
        post_def case_prod_beta Let_def split: option.split)
  then have "session_queue link_session far4 = session_queue link_session far_listening"
    unfolding far4_def by (simp add: session_queue_def session_obj_of_def)
  then show ?thesis by (simp add: far_listening_frame)
qed

lemma far_queues:
  "w_pending far5 = [Repl_read, Listener_accept_session, Session_read link_session,
     Client_accept wire_client 1, Listener_accept_client, Session_write link_session wire_text]"
  "session_queue link_session far5 = [wire_text]"
  using far_queue
  by (simp_all add: far5_def session_on_send_def Let_def session_queue_def session_obj_of_def update_session_def
      initiate_def without_def)

lemma far_writes:
  "fst (session_on_write link_session False (without [Repl_read, Listener_accept_session, Session_read link_session,
        Client_accept wire_client 1, Listener_accept_client] [] far5)) = Ok ()"
proof -
  have "session_queue link_session (without xs ys far5) = [wire_text]" for xs ys
    using far_queues(2) by (simp add: session_queue_def session_obj_of_def without_def)
  then show ?thesis by (simp add: session_on_write_def bind_eff_apply)
qed

lemmas far_pending = far_pending_first far_announces(2) far_queues(1)
lemmas wire_returns = near_registers(1) far_returns far_announces(1) far_writes

section \<open>The run\<close>

lemma near_steps:
  "node_step wire_boost near0 Internal (Running near1)"
  "node_step wire_boost near1 Internal (Running near2)"
  "node_step wire_boost near2 (Session_got link_session wire_text) (Running near3)"
proof -
  show "node_step wire_boost near0 Internal (Running near1)"
    using node_step.run_session [of near0 "[]" link_session Remote
        "[Listener_accept_session, Listener_accept_client, Repl_read]" wire_boost]
    by (simp add: near_pending near1_def)
  show "node_step wire_boost near1 Internal (Running near2)"
    using node_step.handshake_session [of near1 "[Listener_accept_session, Listener_accept_client, Repl_read]"
        link_session "''127.0.0.1:5''" Remote "[]" wire_boost False "Some ''peer''"]
    by (simp add: near_pending settle_Ok [OF wire_returns(1)] near2_def)
  show "node_step wire_boost near2 (Session_got link_session wire_text) (Running near3)"
    using node_step.read_session [of near2 "[Listener_accept_session, Listener_accept_client, Repl_read,
        Session_on_send link_session wire_register]" link_session "[]" wire_boost "Read_text wire_text"]
    by (simp add: near_pending settle_Ok [OF near_reads] near3_def after_session_read_def)
qed

lemma far_steps:
  "node_step wire_boost far0 Internal (Running far1)"
  "node_step wire_boost far1 Internal (Running far2)"
  "node_step wire_boost far2 Internal (Running far3)"
  "node_step wire_boost far3 (Client_accepted wire_client) (Running far4)"
  "node_step wire_boost far4 (Session_queued link_session wire_text) (Running far5)"
  "node_step wire_boost far5 (Session_sent link_session wire_text) (Running far6)"
proof -
  show "node_step wire_boost far0 Internal (Running far1)"
    using node_step.listen_session [of far0 "[]" "[Listener_accept_client, Repl_read]" wire_boost False]
    by (simp add: far_pending settle_Ok [OF wire_returns(2)] far1_def)
  show "node_step wire_boost far1 Internal (Running far2)"
    using node_step.run_session [of far1 "[Listener_accept_client, Repl_read]" link_session Local
        "[Listener_accept_session]" wire_boost]
    by (simp add: far_pending far2_def)
  show "node_step wire_boost far2 Internal (Running far3)"
    using node_step.accept_session [of far2 "[Listener_accept_client, Repl_read, Listener_accept_session]"
        link_session Local "[]" wire_boost False "Some ''peer''"]
    by (simp add: far_pending settle_Ok [OF wire_returns(3)] far3_def)
  show "node_step wire_boost far3 (Client_accepted wire_client) (Running far4)"
    using node_step.listen_client [of far3 "[]" "[Repl_read, Listener_accept_session, Session_read link_session]"
        wire_boost False]
    by (simp add: far_pending settle_Ok [OF wire_returns(4)] far4_def far_accepts)
  show "node_step wire_boost far4 (Session_queued link_session wire_text) (Running far5)"
    using node_step.send_session [of far4 "[Repl_read, Listener_accept_session, Session_read link_session]"
        link_session wire_text "[Client_accept wire_client 1, Listener_accept_client]" wire_boost]
    by (simp add: far_pending far5_def)
  show "node_step wire_boost far5 (Session_sent link_session wire_text) (Running far6)"
    using node_step.write_session [of far5 "[Repl_read, Listener_accept_session, Session_read link_session,
        Client_accept wire_client 1, Listener_accept_client]" link_session wire_text "[]" wire_boost False]
    by (simp add: far_pending settle_Ok [OF wire_returns(5)] far6_def)
qed

definition far_events :: "event list" where
  "far_events = [Internal, Internal, Internal, Client_accepted wire_client, Session_queued link_session wire_text]"

lemma wire_runs:
  "node_run wire_boost near0 [Internal, Internal] near2"
  "node_run wire_boost far0 far_events far5"
  unfolding far_events_def
  by (rule node_run_first [OF node_run_first [OF node_run.stop near_steps(2)] near_steps(1)])
    (rule node_run_first [OF node_run_first [OF node_run_first [OF node_run_first [OF node_run_first [OF node_run.stop
      far_steps(5)] far_steps(4)] far_steps(3)] far_steps(2)] far_steps(1)])

lemma wire_start:
  "server_start wire_boost (boot wire_boost (wire_configs 0)) = (Ok 1, near0)"
  "server_start wire_boost (boot wire_boost (wire_configs 1)) = (Ok 1, far0)"
  using wire_starts by (simp_all add: near0_def far0_def prod_eq_iff)

lemma far_reaches: "reaches wire_boost (wire_configs 1) far_events far5"
  using wire_start(2) wire_runs(2) by (auto simp: reaches_def)

lemma near_reaches:
  "reaches wire_boost (wire_configs 0) [Internal, Internal, Session_got link_session wire_text] near3"
  using wire_start(1) node_run.step [OF wire_runs(1) near_steps(3)] by (auto simp: reaches_def)

lemma near_client: "\<exists>c. c \<in> set (st_clients near3) \<and> cl_id c = 102 \<and> cl_session_id c = 101 \<and> st_id near3 \<noteq> 101"
proof -
  obtain c where "st_clients near3 = [c]" "cl_id c = 102" "cl_session_id c = 101"
    using near_registry(1) by (auto simp: map_eq_Cons_conv)
  then show ?thesis using near_registry(2) by simp
qed

definition wire_events :: "(nat \<times> event) list" where
  "wire_events = [(0, Internal), (0, Internal)] @ map (Pair 1) far_events @
     [(1, Session_sent link_session wire_text), (0, Session_got link_session wire_text)]"

text \<open>Before the connecting node reads the announcement, it is on the wire.\<close>

lemma wire_before:
  "\<exists>N. net_run (\<lambda>k. wire_boost) wire_configs link_peer (butlast wire_events) N \<and>
     net_nodes N 0 = Some (Running near2) \<and> net_nodes N 1 = Some (Running far6) \<and>
     net_wires N (0, 0) = [wire_text] \<and> net_wires N (1, 0) = []"
proof -
  let ?run = "net_run (\<lambda>k. wire_boost) wire_configs link_peer"
  have p: "link_peer (1, 0) = Some (0, 0)" by (simp add: link_peer_def)
  from net_starts_two [of "\<lambda>k. wire_boost" 0 wire_configs 1 near0 1 1 far0 link_peer] wire_start
  obtain N where n: "?run [] N" "net_nodes N 0 = Some (Running near0)" "net_nodes N 1 = Some (Running far0)"
    "net_wires N = (\<lambda>_. [])" by auto
  from net_run_embeds [OF wire_runs(1) n(1,2)] n obtain A where a:
    "?run [(0, Internal), (0, Internal)] A"
    "net_nodes A 0 = Some (Running near2)" "net_nodes A 1 = Some (Running far0)" "net_wires A = (\<lambda>_. [])"
    by auto
  have "list_all unconnected far_events" by (simp add: far_events_def)
  from net_run_embeds [OF wire_runs(2) a(1,3) this] a obtain B where b:
    "?run ([(0, Internal), (0, Internal)] @ map (Pair 1) far_events) B"
    "net_nodes B 0 = Some (Running near2)" "net_nodes B 1 = Some (Running far5)" "net_wires B = (\<lambda>_. [])"
    by auto
  from net_run.net_act [OF b(1,3) far_steps(6)] b(2,4) p show ?thesis
    by (auto simp: readable_def carry_def link_session_def wire_events_def butlast_append)
qed

lemma wire_readable:
  "net_wires N (0, 0) = [wire_text] \<Longrightarrow> readable link_peer 0 (Session_got link_session wire_text) (net_wires N)"
  by (simp add: readable_def link_session_def)

lemma wire_reaches:
  "\<exists>N. net_run (\<lambda>k. wire_boost) wire_configs link_peer wire_events N \<and> net_nodes N 0 = Some (Running near3) \<and>
     net_nodes N 1 = Some (Running far6) \<and> net_wires N (1, 0) = []"
proof -
  obtain C where c: "net_run (\<lambda>k. wire_boost) wire_configs link_peer (butlast wire_events) C"
    "net_nodes C 0 = Some (Running near2)" "net_nodes C 1 = Some (Running far6)"
    "net_wires C (0, 0) = [wire_text]" "net_wires C (1, 0) = []"
    using wire_before by blast
  have "butlast wire_events @ [(0, Session_got link_session wire_text)] = wire_events"
    by (simp add: wire_events_def butlast_append)
  with net_run.net_act [OF c(1,2) near_steps(3) wire_readable [OF c(4)]] c(3,5) show ?thesis
    by (auto simp: carry_def link_session_def)
qed

lemma wire_accepts: "peers_accept wire_boost"
proof -
  have "\<exists>n\<ge>k. 2 \<le> n" for k :: nat by (rule exI [of _ "max k 2"]) simp
  then show ?thesis by (simp add: peers_accept_def wire_boost_def sample_boost_def)
qed

lemma wire_unique: "link_peer p = Some r \<Longrightarrow> link_peer q = Some r \<Longrightarrow> p = q"
  by (auto simp: link_peer_def split: if_splits)

end
