(* ===== verification/Sample_Arrival.thy ===== *)
theory Sample_Arrival
  imports Sample_Wire
begin

text \<open>
  The run of \<open>Sample_Wire\<close> goes on until both nodes have a client: the client of node 1 that node 0 has
  heard of completes its handshake, and node 0 accepts a client of its own. That one can now reach the
  other.
\<close>

section \<open>The client of node 1 completes its handshake\<close>

lemma far_ok: "node_ok far6"
  using reaches_append [OF far_reaches node_run_first [OF node_run.stop far_steps(6)]] by (rule reaches_ok)

lemma far6_pending:
  "w_pending far6 = [Repl_read, Listener_accept_session, Session_read link_session] @
     Client_accept wire_client 1 # [Listener_accept_client]"
proof -
  have "session_queue link_session (without xs ys far5) = [wire_text]" for xs ys
    using far_queues(2) by (simp add: session_queue_def session_obj_of_def without_def)
  then show ?thesis
    unfolding far6_def by (simp add: session_on_write_def bind_eff_apply session_queue_def session_obj_of_def update_session_def)
qed

lemma far6_registry: "wire_client \<in> set (get_clients far6)" "st_id far6 = 100"
proof -
  have "get_client (random_uuid wire_boost (w_random far_listening)) far_listening = None" by (rule far_listening_frame)
  from client_listener_accepts [OF this] obtain u where u: "client_listener_on_accept wire_boost False far_listening = (Ok (), u)"
    "(\<lambda>i. get_client i u) = (\<lambda>i. get_client i far_listening)(cl_id wire_client \<mapsto> wire_client)"
    unfolding far_listening_frame(6) by blast
  from fun_cong [OF u(2), of "cl_id wire_client"] have "get_client (cl_id wire_client) far4 = Some wire_client"
    unfolding far4_def u(1) by simp
  then have "wire_client \<in> set (st_clients far4)" by (auto simp: get_client_def dest: mi_find_Some)
  moreover have "st_clients far6 = st_clients far4" "st_id far6 = st_id far4"
    by (simp_all add: far6_def far5_def session_on_write_def session_on_send_def bind_eff_apply update_session_def initiate_def
        without_def Let_def)
  moreover have "st_id far4 = 100"
    using listener_frame(2) [of wire_boost far_listening] far_before by (simp add: far4_def without_def)
  ultimately show "wire_client \<in> set (get_clients far6)" "st_id far6 = 100" by (simp_all add: get_clients_def)
qed

lemma far_receives:
  "\<exists>u. node_step wire_boost far6 Internal (Running u) \<and> receives_from u link_session wire_client"
proof -
  obtain u m where u: "node_step wire_boost far6 Internal (Running u)" "client_open u wire_client"
    "w_pending u = [Repl_read, Listener_accept_session, Session_read link_session] @ [Listener_accept_client] @
       [Client_on_send wire_client m, Client_read wire_client]"
    "st_clients u = st_clients far6" "st_id u = st_id far6"
    using client_enters [OF far_ok far6_pending, of wire_boost] by blast
  have ok: "node_ok u" "moves Internal far6 u" using step_good [OF u(1) far_ok] by (simp_all add: good_step_def)
  have "reaches wire_boost (wire_configs 1) (far_events @ [Session_sent link_session wire_text]) far6"
    by (rule reaches_append [OF far_reaches node_run_first [OF node_run.stop far_steps(6)]])
  from reaches_traffic(2) [OF this, of 1] have "client_queue_at 1 u = []"
    using ok(2) by (simp add: traffic_defs far_events_def moves_def)
  with idle_client [OF ok(1)] u far6_registry show ?thesis
    by (intro exI [of _ u]) (simp add: receives_from_def client_queue_eq flowing_def wire_client_def get_clients_def)
qed

section \<open>A client of node 0\<close>

definition wire_mate :: client where
  "wire_mate = accepted_client wire_boost near3"

lemma wire_mate_id: "cl_id wire_mate = 103"
  by (simp add: wire_mate_def accepted_client_def near_registry wire_boost_def)

lemma near_ok: "node_ok near3"
  using near_reaches by (rule reaches_ok)

lemma near_sends:
  "\<exists>u. node_run wire_boost near3 [Client_accepted wire_mate, Internal] u \<and> sends_through u wire_mate link_session \<and>
     st_id u = 100 \<and> (\<exists>e. get_client 102 u = Some e \<and> cl_session_id e = 101) \<and>
     (\<forall>x\<in>set (session_queue link_session u @ ses_box.texts 0 (w_pending u)).
        \<exists>d. x = text_of wire_boost d \<and> map_of d ''action'' \<noteq> Some (JString ''leave'') \<and>
          map_of d ''action'' \<noteq> Some (JString ''session''))"
proof -
  obtain m d where p: "w_pending near3 = [Listener_accept_session] @ Listener_accept_client # [Repl_read,
      Session_on_send link_session wire_register, Session_on_send link_session m, Session_read link_session]"
    and m: "m = text_of wire_boost d" "map_of d ''action'' = Some (JString ''ack'')"
    using near_registry(6) by auto
  obtain c where c: "st_clients near3 = [c]" "cl_id c = 102" "cl_session_id c = 101"
    using near_registry(1) by (auto simp: map_eq_Cons_conv)
  then have new: "get_client (random_uuid wire_boost (w_random near3)) near3 = None"
    by (simp add: get_client_def mi_find_eq near_registry wire_boost_def)
  obtain u y where u: "node_run wire_boost near3 [Client_accepted wire_mate, Internal] u" "st_id u = st_id near3"
    "(\<lambda>i. get_client i u) = (\<lambda>i. get_client i near3)(cl_id wire_mate \<mapsto> wire_mate)"
    "w_pending u = [Listener_accept_session] @ [Repl_read, Session_on_send link_session wire_register,
        Session_on_send link_session m, Session_read link_session] @
      session_deliveries near3 (get_sessions near3)
        (text_of wire_boost (join_object wire_boost (random_uuid wire_boost (Suc (w_random near3))) (cl_id wire_mate))) @
      [Listener_accept_client, Client_on_send wire_mate y, Client_read wire_mate]"
    "get_sessions u = get_sessions near3" "w_session_objs u = w_session_objs near3"
    using client_joins [OF near_ok p new] unfolding wire_mate_def by blast
  have "session_queue_at 0 near3 = []"
    using reaches_traffic(1) [OF near_reaches, of 0] by (simp add: traffic_defs)
  then have q: "session_queue link_session u = []"
    using u(6) by (simp add: session_queue_eq session_queue_at_def link_session_def)
  have pending: "w_pending u = [Listener_accept_session, Repl_read, Session_on_send link_session wire_register,
        Session_on_send link_session m, Session_read link_session, Session_on_send link_session
          (text_of wire_boost (join_object wire_boost (random_uuid wire_boost (Suc (w_random near3))) (cl_id wire_mate))),
      Listener_accept_client, Client_on_send wire_mate y, Client_read wire_mate]"
    using near_registry(3,4) by (simp add: u(4) session_deliveries_def)
  have "session_open u link_session"
    using near_registry(4) u(6) by (simp add: session_open_def session_obj_of_def)
  then have "sends_through u wire_mate link_session"
    using u(5) near_registry(3) q by (simp add: sends_through_def flowing_def pending)
  moreover have "ses_box.texts 0 (w_pending u) = [wire_register, m,
      text_of wire_boost (join_object wire_boost (random_uuid wire_boost (Suc (w_random near3))) (cl_id wire_mate))]"
    by (simp add: pending) (simp add: link_session_def)
  moreover have "map_of (register_object wire_boost i cfg) ''action'' = Some (JString ''register'')"
    "map_of (join_object wire_boost i k) ''action'' = Some (JString ''join'')" for i cfg k
    by (simp_all add: register_object_def join_object_def)
  moreover have "get_client 102 u = Some c"
    using fun_cong [OF u(3), of 102] c by (simp add: wire_mate_id get_client_def mi_find_eq)
  ultimately show ?thesis
    using u(1,2) q m near_registry(2) c(3) by (intro exI [of _ u]) (auto simp: wire_register_def)
qed

section \<open>The network\<close>

definition mate_events :: "(nat \<times> event) list" where
  "mate_events = wire_events @ [(1, Internal), (0, Client_accepted wire_mate), (0, Internal)]"

lemma wire_relays: "relays wire_boost wire_boost"
proof -
  have "json_parse wire_boost (serialize wire_boost (JObject d)) \<noteq> None" for d
    by (simp add: wire_boost_def sample_boost_def decode_text_encode del: encode.simps)
  then show ?thesis using wire_understands by (simp add: relays_def)
qed

lemma harmless_text:
  assumes "map_of d ''action'' \<noteq> Some (JString ''leave'')" and "map_of d ''action'' \<noteq> Some (JString ''session'')"
  shows "harmless wire_boost i (text_of wire_boost d)"
  using assms relays_read [OF wire_relays, of d]
  by (auto simp: harmless_def retracts_def resolvable_def map_of_read as_parsed_String)

lemma mate_reaches:
  "\<exists>N u w e. net_run (\<lambda>k. wire_boost) wire_configs link_peer mate_events N \<and>
     net_nodes N 0 = Some (Running u) \<and> net_nodes N 1 = Some (Running w) \<and> receives_from w link_session wire_client \<and>
     sends_through u wire_mate link_session \<and> st_id u = 100 \<and> get_client 102 u = Some e \<and> cl_session_id e = 101 \<and>
     (\<forall>x\<in>set (underway N (1, 0) u link_session). harmless wire_boost 102 x)"
proof -
  let ?run = "net_run (\<lambda>k. wire_boost) wire_configs link_peer"
  obtain N where n: "?run wire_events N" "net_nodes N 0 = Some (Running near3)" "net_nodes N 1 = Some (Running far6)"
    "net_wires N (1, 0) = []" using wire_reaches by blast
  obtain u e where u: "node_run wire_boost near3 [Client_accepted wire_mate, Internal] u"
    "sends_through u wire_mate link_session" "st_id u = 100" "get_client 102 u = Some e" "cl_session_id e = 101"
    and x: "\<And>x. x \<in> set (session_queue link_session u @ ses_box.texts 0 (w_pending u)) \<Longrightarrow> harmless wire_boost 102 x"
    using near_sends harmless_text by metis
  obtain w where w: "node_step wire_boost far6 Internal (Running w)" "receives_from w link_session wire_client"
    using far_receives by blast
  from net_run_embeds [OF node_run_first [OF node_run.stop w(1)] n(1,3)] obtain A
    where a: "?run (wire_events @ [(1, Internal)]) A" "net_nodes A = (net_nodes N)(1 \<mapsto> Running w)" "net_wires A = net_wires N"
    by auto
  have "net_nodes A 0 = Some (Running near3)" using a n by simp
  from net_run_embeds [OF u(1) a(1) this] obtain B where b: "?run ((wire_events @ [(1, Internal)]) @
      map (Pair 0) [Client_accepted wire_mate, Internal]) B" "net_nodes B = (net_nodes A)(0 \<mapsto> Running u)" "net_wires B = net_wires A"
    by auto
  have "underway B (1, 0) u link_session = session_queue link_session u @ ses_box.texts 0 (w_pending u)"
    using a b n by (simp add: underway_def link_session_def)
  with b a u x w(2) show ?thesis
    by (intro exI [of _ B] exI [of _ u] exI [of _ w] exI [of _ e]) (auto simp: mate_events_def)
qed

text \<open>What the client of node 0 sends.\<close>

definition mate_broadcast :: json_object where
  "mate_broadcast = [(''transaction_id'', JString (uuid_to_string wire_boost 9)), (''action'', JString ''broadcast''),
     (''params'', JObject [(''payload'', JObject [])])]"

definition mate_send :: json_object where
  "mate_send = [(''transaction_id'', JString (uuid_to_string wire_boost 9)), (''action'', JString ''send''),
     (''params'', JObject [(''to_client_id'', JString (uuid_to_string wire_boost 102)), (''payload'', JObject [])])]"

lemma mate_addressed:
  "json_parse wire_boost (text_of wire_boost mate_broadcast) = Some (JObject mate_broadcast)"
  "json_parse wire_boost (text_of wire_boost mate_send) = Some (JObject mate_send)"
  "addressed wire_boost mate_broadcast ''broadcast'' 9 [(''payload'', JObject [])]"
  "addressed wire_boost mate_send ''send'' 9 [(''to_client_id'', JString (uuid_to_string wire_boost 102)), (''payload'', JObject [])]"
  "id_param wire_boost [(''to_client_id'', JString (uuid_to_string wire_boost 102)), (''payload'', JObject [])] ''to_client_id'' 102"
  using relays_read [OF wire_relays] wire_text_ok
  by (simp_all add: addressed_def mate_broadcast_def mate_send_def as_read_def id_param_to_string)

end
