(* ===== verification/Sample_Threads.thy ===== *)
theory Sample_Threads
  imports Announcements Sample_Arrival
begin

text \<open>
  Pools of threads on the worlds of \<open>Sample_Wire\<close>: the client \<open>wire_mate\<close> of node 0 connects, and perhaps
  goes away, or subscribes and unsubscribes, while another thread synchronises the peer.
\<close>

lemma near_wf: "wf_state near3"
  using near_ok by (simp add: node_ok_def wf_world_state)

lemma near_session_linked: "session_linked link_session near3"
proof -
  obtain i where "(i, link_session) \<in> set (st_sessions near3)"
    using near_registry(3) by (force simp: get_sessions_def)
  then show ?thesis using near_wf near_registry(4) wf_stateD(2) by (auto simp: session_linked_def)
qed

lemma near_linked: "client_linked link_session wire_mate near3"
proof -
  have "get_client (cl_id wire_mate) near3 = None"
    using near_registry(1) by (auto simp: get_client_def mi_find_None wire_mate_id map_eq_Cons_conv)
  then show ?thesis using near_session_linked by (simp add: client_linked_def)
qed

lemma near_topic_linked: "topic_linked link_session (st_id near3) near3"
  using near_session_linked near_wf
  by (simp add: topic_linked_def get_id_def wf_state_def subscriptions_conflict_free_iff)

definition sample_crew :: "bool \<Rightarrow> handler list list" where
  "sample_crew gone = [life_handlers wire_mate gone, [Syncs link_session False, Subscribes 100 103 ''news'']]"

lemma crew_fitting: "hs \<in> set (sample_crew gone) \<Longrightarrow> x \<in> set hs \<Longrightarrow> fitting (st_id near3) x"
proof -
  have "cl_is_local wire_mate = (cl_session_id wire_mate = st_id near3)"
    by (auto simp: wire_mate_def accepted_client_def)
  then show "hs \<in> set (sample_crew gone) \<Longrightarrow> x \<in> set hs \<Longrightarrow> fitting (st_id near3) x"
    by (auto simp: sample_crew_def life_handlers_def split: if_splits)
qed

lemma crew_unrelated:
  "hs \<in> set [[Syncs link_session False, Subscribes 100 103 ''news'']] \<Longrightarrow> x \<in> set hs \<Longrightarrow> unrelated link_session wire_mate x"
  by auto

definition sample_wishes :: "(request \<times> bool) list" where
  "sample_wishes = map (Pair (kernel_request wire_boost (sample_message ''subscribe'') On_client 103 7 near3)) [True, False, True]"

definition topic_crew :: "handler list list" where
  "topic_crew = [topic_life_handlers (st_id near3) 103 ''news'' sample_wishes, [Syncs link_session False, Accepts wire_mate]]"

lemma crew_off_topic:
  "hs \<in> set [[Syncs link_session False, Accepts wire_mate]] \<Longrightarrow> x \<in> set hs \<Longrightarrow> off_topic link_session (st_id near3) 103 ''news'' x"
  by auto

lemma crew_finishes: "\<exists>w ts. pool_run (near3, workers wire_boost hss) (w, ts) \<and> finished ts"
  by (rule pool_finishes [OF workers_disciplined])

lemma crew_starts:
  "\<exists>ts f k. pool_run (near3, workers wire_boost [[Syncs link_session True], [Syncs link_session True]]) (near3, ts) \<and>
     length ts = 2 \<and> ts ! 0 = (nothing_held(Clients_mutex := Shared), Act f k) \<and>
     ts ! 1 = (nothing_held(Clients_mutex := Shared), Act f k)"
proof -
  let ?h = "nothing_held(Clients_mutex := Shared)"
  obtain f k where t: "worker wire_boost [Syncs link_session True] = Lock Clients_mutex Shared (Act f k)"
    by (simp add: sync_thread_def access_def Let_def)
  let ?ts = "[(nothing_held, Lock Clients_mutex Shared (Act f k)), (nothing_held, Lock Clients_mutex Shared (Act f k))]"
  have start: "workers wire_boost [[Syncs link_session True], [Syncs link_session True]] = ?ts"
    unfolding pool_of_def by (simp only: list.map t)
  have "pool_step (near3, ?ts) (near3, ?ts[0 := (?h, Act f k)])"
    by (rule pool_lock) (simp_all add: available_def less_Suc_eq)
  moreover have "pool_step (near3, ?ts[0 := (?h, Act f k)]) (near3, ?ts[0 := (?h, Act f k), 1 := (?h, Act f k)])"
    by (rule pool_lock) (simp_all add: available_def less_Suc_eq)
  ultimately have "pool_run (near3, ?ts) (near3, [(?h, Act f k), (?h, Act f k)])" by simp
  with start show ?thesis by (intro exI [of _ "[(?h, Act f k), (?h, Act f k)]"] exI [of _ f] exI [of _ k]) simp
qed

end
