(* ===== verification/Spec2Isabelle.thy ===== *)
theory Spec2Isabelle
  imports Sample_Threads
begin

text \<open>
  A verification development for the node \<^verbatim>\<open>aewt::state\<close>: a C++ process that accepts clients and
  other nodes over websockets, keeps a registry of sessions (connections to nodes), clients and
  subscriptions, and routes the JSON messages of \<^verbatim>\<open>docs/actions.md\<close> between them. The model covers
  every \<^verbatim>\<open>.cpp\<close> file under \<^verbatim>\<open>src/src/objects\<close> and \<^verbatim>\<open>src/main.cpp\<close>, and the data the headers
  under \<^verbatim>\<open>src/src/include/aewt\<close> declare. Definitions keep the source's names; a method
  \<^verbatim>\<open>session::on_read\<close> is \<open>session_on_read\<close>.

  \<^bold>\<open>Code and model.\<close> Each theory opens with what it holds.

  \<^item> \<open>Prelude\<close>, \<open>Boost_Interface\<close>: the outcome of a C++ call (a value, an exception, a loop without
    end), the type of effects over the node's state and its two program logics, the containers of the
    standard library; JSON documents as data, and the record \<open>boost\<close> of everything the sources only
    call (UUID readers and writer, serialiser and parser, clock, generator, resolver, network).
  \<^item> \<open>World\<close>, \<open>Response\<close>, \<open>Containers\<close>, \<open>Objects\<close>: configuration, requests, responses, the two
    \<^verbatim>\<open>multi_index_container\<close>s, sessions and clients. An object behind a \<^verbatim>\<open>shared_ptr\<close> is its
    address and constant members, its changing members are in a store. \<open>world\<close> holds all of it and
    \<open>w_pending\<close>, the asynchronous operations and posted tasks not yet run, oldest first.
  \<^item> \<open>State\<close>, \<open>Utils\<close>, \<open>Validators\<close>, \<open>Handlers\<close>, \<open>Kernel\<close>: \<^verbatim>\<open>state.cpp\<close>, \<^verbatim>\<open>utils.cpp\<close>,
    \<^verbatim>\<open>validator.cpp\<close> and \<^verbatim>\<open>validators/\<close>, \<^verbatim>\<open>handlers/\<close>, \<^verbatim>\<open>kernel.cpp\<close>: functions of type
    \<open>eff_w\<close>, from a world to an outcome and the next world.
  \<^item> \<open>Connections\<close>, \<open>Server\<close>: the callbacks of \<^verbatim>\<open>session.cpp\<close> and \<^verbatim>\<open>client.cpp\<close>, the listeners,
    the console, \<^verbatim>\<open>server.cpp\<close> and \<^verbatim>\<open>main.cpp\<close>.
  \<^item> \<open>Node\<close>: the running process. \<open>node_step\<close> takes one pending operation, lets the environment choose
    its result, and runs the handler; an exception that leaves it crashes the process. \<open>node_run\<close> and
    \<open>reaches\<close> are the runs from \<^verbatim>\<open>server::start\<close>.
  \<^item> \<open>Network\<close>: several nodes whose sessions are connected by reliable streams.
  \<^item> \<open>Threads\<close>, \<open>Concurrency\<close>: a second, finer model of what the handlers do to \<^verbatim>\<open>state\<close>, for an io_context
    run by several threads: accesses between which others come in, and the three \<^verbatim>\<open>std::shared_mutex\<close>es.
    \<open>handler_thread\<close> has a method for each call of a handler; \<open>pool_step\<close> lets any thread go on that the
    mutexes let.

  \<^bold>\<open>Lemmas.\<close>

  \<^item> \<open>State_Facts\<close>, \<open>Validator_Facts\<close>, \<open>Handler_Facts\<close>: normal forms. A sending operation appends
    deliveries to the pending operations; a validator is its list of checks; a handler on an accepted
    request is one equation. \<open>Wellformed\<close>, \<open>Protocol\<close>, \<open>Kernel_Facts\<close>: the invariant of the registry and
    the object store, the contract of a handler (it keeps the invariant and writes one answer), and
    \<open>kernel_fault\<close>, which reads off a message the exception its handling throws.
  \<^item> \<open>Write_Queue\<close>, \<open>Calm\<close>, \<open>Calm_Handlers\<close>, \<open>Node_Facts\<close>, \<open>Runs\<close>: the write queue as a contract with two
    interpretations; everything but the queue's own callbacks is calm, that is, it only adds operations
    on objects that exist; hence the invariant \<open>node_ok\<close> of every reachable world, the order of the
    traffic, the causes of a crash and the draining of the queues.
  \<^item> \<open>Registry\<close>: the three directories of \<^verbatim>\<open>state\<close> refine partial maps. \<open>Replication\<close>: the messages
    of a synchronisation and what a peer makes of them. \<open>Isolation\<close>: what a message cannot change.
    \<open>Termination\<close>: which calls return. \<open>Turns\<close>, \<open>Startup\<close>, \<open>Handshake\<close>: a text and its answer, the
    start of a process, the registration of a peer. \<open>Messages\<close>: \<open>schema\<close>, the parameters each action's
    handler reads and their kinds; a typed document makes the kernel throw nothing but a failure to
    resolve, and what a node composes is typed. \<open>Provenance\<close>: the invariant \<open>sourced\<close>, which says where
    the clients and subscriptions of a registry come from and what a node announces to others, and its
    composition over a network. \<open>Delivery\<close>: what is posted on a connection is queued and written, and runs
    of one node are runs of the network; \<open>Bystanders\<close>: what the texts of a peer leave alone; \<open>Arrival\<close>: the
    way of a message from client to client. \<open>Threads\<close> has also the discipline of the locks (race freedom,
    progress, termination) and rely-guarantee reasoning, \<open>Concurrency\<close> the discipline of every method and
    the invariant of the registry under every schedule; \<open>Heralds\<close> states what a peer hears of a thing that one
    thread registers and announces while others synchronise, and \<open>Announcements\<close> applies it to clients and
    subscriptions. \<open>Sample\<close>, \<open>Sample_Network\<close>, \<open>Codec\<close>, \<open>Sample_Wire\<close>, \<open>Sample_Arrival\<close>,
    \<open>Sample_Threads\<close>: concrete libraries (one with a text format whose reader inverts its writer), worlds and
    runs for the witnesses.

  The locales are \<open>container\<close> (interpreted for clients and subscriptions), \<open>param_validator\<close> (for the seven
  validators), \<open>handler\<close> (for the handlers), \<open>write_queue\<close> and \<open>mailbox\<close> (for sessions and clients),
  \<open>directory\<close> (for sessions, clients and subscriptions), \<open>undisturbed\<close> (an assertion that threads carry
  along: for the invariant of the registry and, as a sublocale, for every \<open>herald\<close>) and \<open>herald\<close> (for clients
  and subscriptions).

  \<^bold>\<open>Bounds.\<close> Ports are 16 bits wide, counts and JSON numbers 64, identifiers 128, and conversions
  truncate as the code's do. There is no fuel: the only unbounded loop, the retries of
  \<^verbatim>\<open>asio::connect\<close>, is a partial function whose value is \<open>None\<close> when no attempt ever succeeds, and a
  call that runs it then has the outcome \<open>Hang\<close>.

  \<^bold>\<open>Assumptions.\<close> Hypotheses about code outside the repository are named: \<open>uuid_text_ok\<close> (the UUID
  readers read what the writer writes), \<open>peers_accept\<close> (some later connection attempt succeeds), and,
  where two nodes are composed through a text, that parsing a serialised document gives the document
  (\<open>as_parsed\<close>; \<open>understands\<close> where only texts that do parse matter, with \<open>reads_ids\<close>: one node's readers
  read the identifiers the other's writer writes; \<open>relays\<close> where they do parse), and that the generator does
  not draw the node's own identifier a second time (\<open>fresh_id\<close>).

  \<^bold>\<open>Not modelled.\<close> The logger and every call to it. The websocket beyond whether it is open and the
  results of its operations. In \<open>Node\<close> and \<open>Network\<close> the handlers of a node run one after the other; how they
  interleave is the subject of \<open>Threads\<close> and \<open>Concurrency\<close>, which follow their calls of \<^verbatim>\<open>state\<close> from the
  start of the first one, with posted tasks only recorded. There the composing and posting of one message of
  a send loop is one access, and the members of a session that no mutex protects (its host and its ports) are outside
  the model. Of a crash or a hang only that it happened is recorded, though other threads of the
  process may still run for a moment. Parsing of the command line is Boost's; the getters that only
  return a member are the record's fields. The destructor of a session runs when neither the registry
  nor a pending operation refers to it; the release of clients has no effect and is left out.

  \<^bold>\<open>Properties.\<close> C1, C2: the kernel. C3 to C7, C37: running nodes and networks. C8 to C10: where clients
  and subscriptions come from. C11, C12: the types of the messages between nodes. C13 to C18: several
  threads. C19 to C24: messages between clients, C23 and C24 from a client of one node to a client of
  another. C25 to C27, C35, C36, C39: how nodes and clients come and go. C28 to C32: the registry and what
  messages can change in it. C33, C34: what returns and what does not. C38: every text is answered.
  C40: the process. Theorems whose text has no number are consequences kept beside them.
\<close>

section \<open>The kernel\<close>

text \<open>
  C1. A kernel call that returns has processed its response and put exactly one answer into it. For
  a message with a valid envelope that is an acknowledgement naming the message's transaction, with
  a status that agrees with the failed flag, unless the message is itself an \<^verbatim>\<open>ack\<close>, which is
  flagged and answered with nothing. For an invalid envelope it is a failure that names the first
  field found wrong.
\<close>

theorem kernel_answers:
  assumes "kernel b data ctx i w = (Ok r, w')"
  shows "get_processed r \<and> w_response w' = r \<and>
    (if get_passed (make_validator b data) then
       (\<exists>tid. id_param b data ''transaction_id'' tid \<and>
         (if map_of data ''action'' = Some (JString ''ack'') then is_ack r \<and> get_data r = []
          else \<not> is_ack r \<and> answered b tid r))
     else
       \<not> is_ack r \<and> get_failed r \<and>
       (\<exists>field argument. get_bag (make_validator b data) = [(field, argument)] \<and>
          failed_document (if rejected_id b data = nil_uuid then JNull
                           else JString (uuid_to_string b (rejected_id b data))) field argument (get_data r)))"
  using kernel_well_answered [OF assms] by (simp add: well_answered_def)

theorem kernel_answers_witness:
  "\<exists>r w'. kernel sample_boost (sample_message ''ping'') On_client 10 sample_world = (Ok r, w') \<and>
     get_processed r \<and> answered sample_boost 7 r"
proof -
  have run: "kernel sample_boost (sample_message ''ping'') On_client 10 sample_world =
      (let t = next_reply sample_boost (kernel_request sample_boost (sample_message ''ping'') On_client 10 7 sample_world)
                 ''pong'' [] (kernel_entry sample_boost sample_world);
           r = mark_as_processed (w_response t)
       in (Ok r, t\<lparr>w_response := r\<rparr>))"
    using kernel_accepted [of "sample_message ''ping''" "''ping''" sample_boost 7]
    by (simp add: dispatch_def ping_eq finish_def)
  then obtain r w' where r: "kernel sample_boost (sample_message ''ping'') On_client 10 sample_world = (Ok r, w')"
    by (simp add: Let_def)
  have "get_passed (make_validator sample_boost (sample_message ''ping''))"
    using sample_ids(4) by (auto simp: passed_iff id_param_iff)
  moreover have "tid = 7" if "id_param sample_boost (sample_message ''ping'') ''transaction_id'' tid" for tid
    using that sample_ids(4) [of "''ping''"] by (auto simp: id_param_iff)
  ultimately show ?thesis
    using kernel_answers [OF r] r by auto
qed

text \<open>
  C2. When the kernel throws, and what: exactly for the messages \<open>kernel_fault\<close> names. The fault is
  read off the message and the registry; in particular a message whose action needs parameters and
  that has no \<^verbatim>\<open>params\<close> throws \<open>Out_of_range\<close>.
\<close>

theorem kernel_throws_exactly:
  "(fst (kernel b data ctx i w) = Throw e) = (kernel_fault b data ctx i w = Some e)"
  using kernel_throws [of b data ctx i w] by (cases "fst (kernel b data ctx i w)") auto

section \<open>A running node\<close>

text \<open>
  C3. In every world a node can reach from its start: the sessions are in key order under their own
  identifiers, no two clients share an identifier, no subscription is stored twice, a client is
  local exactly when it belongs to the node itself, and whatever is registered or pending refers to
  objects that exist.
\<close>

theorem reachable_consistent:
  assumes "reaches b config es w"
  shows "ascending (st_sessions w) \<and> (\<forall>(i, s)\<in>set (st_sessions w). ses_id s = i \<and> s \<in> set (w_live_sessions w)) \<and>
    distinct (map cl_id (st_clients w)) \<and> distinct (st_subscriptions w) \<and>
    (\<forall>c\<in>set (st_clients w). cl_is_local c = (cl_session_id c = st_id w)) \<and>
    (\<forall>x\<in>set (w_pending w). op_live w x)"
proof -
  have ok: "node_ok w" using assms by (rule reaches_ok)
  then have wf: "wf_state w" by (simp add: node_ok_def wf_world_state)
  have "s \<in> set (w_live_sessions w)" if "(i, s) \<in> set (st_sessions w)" for i s
    using ok that by (force simp: node_ok_def wf_world_def)
  with wf_stateD [OF wf] ok show ?thesis by (auto simp: node_ok_def)
qed

theorem reachable_consistent_witness:
  "distinct (map cl_id (st_clients run4)) \<and> op_live run4 (Client_read run_client)"
  using reachable_consistent [OF run_reaches(1)] by (simp add: run_pending)

text \<open>
  C4. A running node ends by an exception only for one of three reasons: a peer's address cannot be
  read when its connection is accepted, or a session or a client sends a message with a fault. The
  bookkeeping of the connections itself never fails.
\<close>

theorem crash_only_by_fault:
  assumes "reaches b config es w" and "node_step b w ev (Crashed e)"
  shows "crash_cause b w e"
  using assms(2) reaches_ok [OF assms(1)] by (rule crash_has_cause)

text \<open>
  C5. Any client can end the node: while a client is being read, a message with a valid envelope,
  one of the six actions that validate parameters in a client's context and no \<^verbatim>\<open>params\<close> makes
  the process crash.
\<close>

theorem missing_params_crash:
  assumes pending: "w_pending w = xs @ Client_read c # ys"
    and parsed: "json_parse b message = Some (JObject data)"
    and envelope: "map_of data ''action'' = Some (JString action)" "id_param b data ''transaction_id'' tid"
    and action: "action \<in> {''send'', ''subscribe'', ''unsubscribe'', ''is_subscribed'', ''broadcast'', ''publish''}"
    and missing: "map_of data ''params'' = None"
  shows "node_step b w (Client_got c message) (Crashed Out_of_range)"
proof -
  let ?u = "snd (read_clock b (without xs ys w))"
  have "kernel_fault b data On_client (cl_id c) ?u = Some Out_of_range"
    using envelope action missing
    by (auto simp: kernel_fault_def id_param_iff dispatch_fault_def send_fault_def channel_fault_def
        is_subscribed_fault_def with_params_def kernel_request_def)
  then have k: "throws (fst (kernel b data On_client (cl_id c) ?u)) = Some Out_of_range"
    by (simp add: kernel_throws)
  have "throws (fst (client_on_read b c (Read_text message) (without xs ys w))) = Some Out_of_range"
    using parsed k by (simp add: client_on_read_def bind_eff_call throws_first)
  then have "settle (client_on_read b c (Read_text message) (without xs ys w)) = Crashed Out_of_range"
    by (simp add: settle_Crashed throws_def split: outcome.splits)
  with node_step.read_client [OF pending, of b "Read_text message"] show ?thesis
    by (simp add: after_client_read_def)
qed

theorem missing_params_crash_witness:
  "node_step sample_boost run4 (Client_got run_client ''broken'') (Crashed Out_of_range)"
proof (rule missing_params_crash [where action = "''broadcast''"])
  show "w_pending run4 = [Listener_accept_session, Repl_read, Listener_accept_client] @ Client_read run_client # []"
    by (simp add: run_pending)
  show "json_parse sample_boost ''broken'' =
      Some (JObject [(''action'', JString ''broadcast''), (''transaction_id'', JString ''7'')])"
    by (simp add: sample_boost_def sample_parse_def)
  show "id_param sample_boost [(''action'', JString ''broadcast''), (''transaction_id'', JString ''7'')]
      ''transaction_id'' 7"
    by (simp add: id_param_def sample_boost_def is_uuid_def c_str_def)
qed simp_all

theorem crash_only_by_fault_witness:
  "crash_cause sample_boost run4 Out_of_range"
proof (rule crash_only_by_fault [OF run_reaches(1)])
  have "message_fault sample_boost ''broken'' On_client (cl_id run_client)
      (without [Listener_accept_session, Repl_read, Listener_accept_client] [] run4) = Some Out_of_range"
    by code_simp
  then have "throws (fst (client_on_read sample_boost run_client (Read_text ''broken'')
      (without [Listener_accept_session, Repl_read, Listener_accept_client] [] run4))) = Some Out_of_range"
    by code_simp
  then have "settle (client_on_read sample_boost run_client (Read_text ''broken'')
      (without [Listener_accept_session, Repl_read, Listener_accept_client] [] run4)) = Crashed Out_of_range"
    by (simp add: settle_Crashed throws_def split: outcome.splits)
  with node_step.read_client [of run4 "[Listener_accept_session, Repl_read, Listener_accept_client]"
      run_client "[]" sample_boost "Read_text ''broken''"]
  show "node_step sample_boost run4 (Client_got run_client ''broken'') (Crashed Out_of_range)"
    by (simp add: run_pending after_client_read_def)
qed

text \<open>
  C6. Every connection is first-in first-out: along any run, the messages queued on a session or a
  client are, in this order, the messages written to its socket followed by those still in its queue.
\<close>

theorem traffic_in_order:
  assumes "reaches b config es w"
  shows "queued_session a es = sent_session a es @ session_queue_at a w \<and>
         queued_client a es = sent_client a es @ client_queue_at a w"
  using reaches_traffic [OF assms] by blast

theorem traffic_in_order_witness:
  "queued_client 0 run_events = [''103''] \<and> sent_client 0 run_events = [''103''] \<and> client_queue_at 0 run4 = []"
proof -
  have "queued_client 0 run_events = [''103'']" "sent_client 0 run_events = [''103'']"
    by (simp_all add: queued_client_def sent_client_def run_events_def run_client_def)
  with traffic_in_order [OF run_reaches(1), of 0] show ?thesis by simp
qed

text \<open>
  C7. A connection never has two writes in progress, and the message being written is the head of
  its queue: its buffer stays alive until the write completes, and the completion never erases from
  an empty queue.
\<close>

theorem one_write_in_flight:
  assumes "reaches b config es w"
  shows "disciplined (session_queue_at a w) (session_writes a (w_pending w)) \<and>
         disciplined (client_queue_at a w) (client_writes a (w_pending w))"
  using reaches_ok [OF assms] by (simp add: node_ok_def ses.orderly_def cli.orderly_def)

theorem one_write_in_flight_witness:
  "client_writes 0 (w_pending run3) = [''103''] \<and> client_queue_at 0 run3 \<noteq> [] \<and> hd (client_queue_at 0 run3) = ''103''"
  using one_write_in_flight [OF run_reaches(2), of 0]
  by (simp add: run_pending run_client_def disciplined_def)

section \<open>Where clients and subscriptions come from\<close>

text \<open>
  C8. A node announces only its own clients and their subscriptions: whatever text it ever queued for a
  peer, if a reader takes it for a \<^verbatim>\<open>join\<close> message (\<open>topic = None\<close>) or a \<^verbatim>\<open>subscribe\<close> message
  (\<open>topic = Some channel\<close>) that names a client, then it is an \<open>own_entry\<close> of the node: its listener
  accepted that client, and for a subscription the node read from that client a text that asks for the
  channel. It never passes on what it heard of from another peer.
\<close>

theorem announced_entries_own:
  assumes run: "reaches b config es w" and fresh: "fresh_id b" and queued: "Session_queued s m \<in> set es"
    and reader: "understands reader b" "json_parse reader m = Some (JObject data)" "announces reader data i topic"
  shows "own_entry b es i topic"
proof -
  have "m \<in> set (queued_session (ses_addr s) es)" using queued by (force simp: queued_session_def)
  from announced_honestly [OF reader(1) reaches_queues_honest [OF run this] reader(2,3)]
  show ?thesis by (rule explains_own [OF fresh])
qed

theorem announced_entries_own_witness:
  "\<exists>c. Client_accepted c \<in> set far_events \<and> cl_id c = 102"
proof -
  have "Session_queued link_session wire_text \<in> set far_events" by (simp add: far_events_def)
  from announced_entries_own [OF far_reaches wire_fresh this wire_understands wire_parsed wire_announces]
  show ?thesis by (simp add: own_entry_def)
qed

text \<open>
  C9. Every client and every subscription in the registry of a running node has a reason to be there:
  under the node's own identifier stand the clients its listener accepted and the subscriptions its clients
  asked for; any other was named in a \<^verbatim>\<open>join\<close> message, or for a subscription in a \<^verbatim>\<open>subscribe\<close> message with
  its channel, that the node read from the session it is registered under.
\<close>

theorem registry_sourced:
  assumes "reaches b config es w" and "fresh_id b"
  shows "(\<forall>c\<in>set (st_clients w). accounted b es w (cl_session_id c) (cl_id c) None) \<and>
    (\<forall>x\<in>set (st_subscriptions w). accounted b es w (sub_session_id x) (sub_client_id x) (Some (sub_channel x)))"
  using reaches_accounted [OF assms] by blast

theorem registry_sourced_witness:
  "\<exists>s m data. Session_got s m \<in> set [Internal, Internal, Session_got link_session wire_text] \<and> ses_id s = 101 \<and>
     json_parse wire_boost m = Some (JObject data) \<and> announces wire_boost data 102 None"
proof -
  obtain c where c: "c \<in> set (st_clients near3)" "cl_id c = 102" "cl_session_id c = 101" "st_id near3 \<noteq> 101"
    using near_client by blast
  have "accounted wire_boost [Internal, Internal, Session_got link_session wire_text] near3 (cl_session_id c) (cl_id c) None"
    using registry_sourced [OF near_reaches wire_fresh] c(1) by blast
  with c(2-4) show ?thesis by (simp add: accounted_def del: list.set)
qed

text \<open>
  C10. Across a network: whatever a running node knows through one of its sessions, a client or a
  subscription, was announced in a text it read from a session with that identifier, and if that session
  is connected to another node of the network, it is an own entry of that node: accepted by its listener,
  or asked for by its client in a text that node read. This holds also when the other node has crashed, hangs or was stopped in the meantime.
\<close>

theorem remote_entries_genuine:
  assumes "net_run libs configs peer es N" and "net_nodes N k = Some (Running w)"
    and "case topic of
        None \<Rightarrow> \<exists>c\<in>set (st_clients w). cl_session_id c = sid \<and> cl_id c = i
      | Some ch \<Rightarrow> \<lparr>sub_session_id = sid, sub_client_id = i, sub_channel = ch\<rparr> \<in> set (st_subscriptions w)"
    and "sid \<noteq> st_id w"
    and "\<And>j. fresh_id (libs j)" and "\<And>p q r. peer p = Some r \<Longrightarrow> peer q = Some r \<Longrightarrow> p = q"
    and "\<And>j l. understands (libs j) (libs l)"
  shows "\<exists>s m. Session_got s m \<in> set (events_of k es) \<and> ses_id s = sid \<and>
    (\<forall>j a. peer (j, a) = Some (k, ses_addr s) \<longrightarrow> own_entry (libs j) (events_of j es) i topic)"
proof -
  have "explains (libs k) (events_of k es) sid i topic"
    using net_known_explained(1) [OF assms(1,2)] assms(3)
      net_known_explained(2) [OF assms(1,2), of "\<lparr>sub_session_id = sid, sub_client_id = i, sub_channel = the topic\<rparr>"]
    by (cases topic) auto
  then show ?thesis using assms(4-7) by (intro net_genuine [OF assms(1,2)])
qed

theorem remote_entries_genuine_witness:
  "\<exists>d. Client_accepted d \<in> set (events_of 1 wire_events) \<and> cl_id d = 102"
proof -
  obtain N where N: "net_run (\<lambda>k. wire_boost) wire_configs link_peer wire_events N"
    "net_nodes N 0 = Some (Running near3)" using wire_reaches by blast
  obtain c where c: "c \<in> set (st_clients near3)" "cl_id c = 102" "cl_session_id c \<noteq> st_id near3"
    using near_client by auto
  have known: "case None of None \<Rightarrow> \<exists>x\<in>set (st_clients near3). cl_session_id x = cl_session_id c \<and> cl_id x = 102
      | Some ch \<Rightarrow> \<lparr>sub_session_id = cl_session_id c, sub_client_id = 102, sub_channel = ch\<rparr> \<in> set (st_subscriptions near3)"
    using c(1,2) by auto
  have "\<exists>s m. Session_got s m \<in> set (events_of 0 wire_events) \<and> ses_id s = cl_session_id c \<and>
    (\<forall>j a. link_peer (j, a) = Some (0, ses_addr s) \<longrightarrow> own_entry wire_boost (events_of j wire_events) 102 None)"
    by (rule remote_entries_genuine [OF N known c(3)])
      (use wire_fresh wire_understands wire_unique in blast)+
  then obtain s m where s: "Session_got s m \<in> set (events_of 0 wire_events)"
    and d: "\<And>j a. link_peer (j, a) = Some (0, ses_addr s) \<Longrightarrow>
      own_entry wire_boost (events_of j wire_events) 102 None" by blast
  have "s = link_session" using s by (auto simp: wire_events_def far_events_def events_of_def)
  then have "link_peer (1, 0) = Some (0, ses_addr s)" by (simp add: link_peer_def link_session_def)
  from d [OF this] show ?thesis by (simp add: own_entry_def)
qed

section \<open>The types of messages between nodes\<close>

text \<open>
  C11. Every text a node queues for a peer has the type of its action: a reader that understands the
  node and parses the text gets an object with a readable transaction (or none) and with every
  parameter its own handler of that action reads, each of its kind in \<open>schema\<close>. Requests, forwarded
  messages, synchronisations, registrations, notices and answers are all covered.
\<close>

theorem queued_texts_typed:
  assumes run: "reaches b config es w" and queued: "Session_queued s m \<in> set es"
    and reader: "understands reader b" "json_parse reader m = Some v"
  shows "\<exists>data. v = JObject data \<and> typed reader data"
proof -
  have "m \<in> set (queued_session (ses_addr s) es)" using queued by (force simp: queued_session_def)
  from honest_read [OF reader(1) reaches_queues_honest [OF run this] reader(2)] show ?thesis by blast
qed

theorem queued_texts_typed_witness:
  "typed wire_boost (join_object wire_boost 103 102)"
proof -
  have "Session_queued link_session wire_text \<in> set far_events" by (simp add: far_events_def)
  from queued_texts_typed [OF far_reaches this wire_understands wire_parsed] show ?thesis by simp
qed



section \<open>Several threads\<close>












section \<open>Messages between clients and nodes\<close>

text \<open>
  C19. A client's \<^verbatim>\<open>broadcast\<close> is sent, as one text with the sender and the payload, to every
  other open client of the node and then to every open session, and to no one else; the answer
  carries the number of known clients less one.
\<close>

theorem broadcast_reaches:
  assumes "addressed b data ''broadcast'' tid p" and "map_of p ''payload'' = Some (JObject payload)"
  shows "\<exists>r w'. kernel b data On_client i w = (Ok r, w') \<and>
    (let m = text_of b [(''transaction_id'', JString (uuid_to_string b tid)), (''action'', JString ''broadcast''),
                        (''params'', JObject [(''client_id'', JString (uuid_to_string b i)), (''payload'', JObject payload)])]
     in w_pending w' = w_pending w @
          client_deliveries w (filter (\<lambda>c. cl_id c \<noteq> i \<and> cl_session_id c = st_id w) (get_clients w)) m @
          session_deliveries w (get_sessions w) m) \<and>
    map_of (get_data r) ''data'' = Some (JObject [(''count'', JUint64 (of_nat (length (st_clients w)) - 1))])"
proof -
  note k = kernel_addressed [OF assms(1), of On_client i w]
  show ?thesis
    unfolding k(1) dispatch_def
    by (simp add: broadcast_on_client_eq [OF _ k(2) assms(2)] finish_ended make_broadcast_request_object_def
        other_clients_def count_reply_def ended_def get_data_def mark_as_processed_def set_data_def Let_def)
qed

theorem broadcast_reaches_witness:
  "\<exists>r w'. kernel sample_boost (sample_message ''broadcast'') On_client 10 sample_world = (Ok r, w') \<and>
     w_pending w' = [Client_on_send (sample_client 2 11 1) ''7'', Session_on_send sample_session ''7''] \<and>
     map_of (get_data r) ''data'' = Some (JObject [(''count'', JUint64 2)])"
proof -
  have a: "addressed sample_boost (sample_message ''broadcast'') ''broadcast'' 7 sample_params"
    by (simp add: addressed_def) (simp add: sample_message_def)
  have d: "client_deliveries sample_world (filter (\<lambda>c. cl_id c \<noteq> 10 \<and> cl_session_id c = st_id sample_world)
      (get_clients sample_world)) ''7'' = [Client_on_send (sample_client 2 11 1) ''7'']"
    "session_deliveries sample_world (get_sessions sample_world) ''7'' = [Session_on_send sample_session ''7'']"
    "of_nat (length (st_clients sample_world)) - 1 = (2 :: 64 word)" "w_pending sample_world = []"
    by code_simp+
  have m: "text_of sample_boost ((''transaction_id'', JString (uuid_to_string sample_boost 7)) # rest) = ''7''" for rest
    by (simp add: sample_boost_def) code_simp
  show ?thesis
    using broadcast_reaches [OF a sample_fields(2), of 10 sample_world] by (simp add: Let_def m d)
qed

text \<open>
  C20. A client's \<^verbatim>\<open>publish\<close> goes to every other open client of the node, whatever it subscribed
  to, and to the open sessions through which some client subscribed to the channel.
\<close>

theorem publish_reaches:
  assumes "addressed b data ''publish'' tid p" and "map_of p ''channel'' = Some (JString ch)"
    and "map_of p ''payload'' = Some (JObject payload)"
  shows "\<exists>r w'. kernel b data On_client i w = (Ok r, w') \<and>
    (let m = text_of b [(''transaction_id'', JString (uuid_to_string b tid)), (''action'', JString ''publish''),
                        (''params'', JObject [(''client_id'', JString (uuid_to_string b i)), (''channel'', JString ch),
                           (''payload'', JObject payload)])]
     in w_pending w' = w_pending w @
          client_deliveries w (filter (\<lambda>c. cl_id c \<noteq> i \<and> cl_session_id c = st_id w) (get_clients w)) m @
          session_deliveries w (filter (\<lambda>s. \<exists>x\<in>set (st_subscriptions w). sub_session_id x = ses_id s \<and> sub_channel x = ch)
            (get_sessions w)) m)"
proof -
  note k = kernel_addressed [OF assms(1), of On_client i w]
  have sessions: "(ses_id s \<in> channel_sessions ch w) =
      (\<exists>x\<in>set (st_subscriptions w). sub_session_id x = ses_id s \<and> sub_channel x = ch)" for s
    by (simp add: channel_sessions_def) metis
  show ?thesis
    unfolding k(1) dispatch_def
    by (simp add: publish_on_client_eq [OF _ k(2) assms(2,3)] finish_ended make_publish_request_object_def
        other_clients_def Let_def sessions)
qed

theorem publish_reaches_witness:
  "\<exists>r w'. kernel sample_boost (sample_message ''publish'') On_client 10 sample_world = (Ok r, w') \<and>
     w_pending w' = [Client_on_send (sample_client 2 11 1) ''7'', Session_on_send sample_session ''7'']"
proof -
  have a: "addressed sample_boost (sample_message ''publish'') ''publish'' 7 sample_params"
    by (simp add: addressed_def) (simp add: sample_message_def)
  have d: "client_deliveries sample_world (filter (\<lambda>c. cl_id c \<noteq> 10 \<and> cl_session_id c = st_id sample_world)
      (get_clients sample_world)) ''7'' = [Client_on_send (sample_client 2 11 1) ''7'']"
    "session_deliveries sample_world (filter (\<lambda>s. \<exists>x\<in>set (st_subscriptions sample_world).
      sub_session_id x = ses_id s \<and> sub_channel x = ''news'') (get_sessions sample_world)) ''7'' =
      [Session_on_send sample_session ''7'']" "w_pending sample_world = []"
    by code_simp+
  have m: "text_of sample_boost ((''transaction_id'', JString (uuid_to_string sample_boost 7)) # rest) = ''7''" for rest
    by (simp add: sample_boost_def) code_simp
  show ?thesis
    using publish_reaches [OF a sample_fields(1,2), of 10 sample_world] by (simp add: Let_def m d)
qed

text \<open>
  C21. The \<^verbatim>\<open>broadcast\<close> and \<^verbatim>\<open>publish\<close> messages a node forwards are accepted by the
  node that receives them, which passes the identical text on to its own open clients, the original
  sender excepted, and to no session: a message crosses one hop and cannot circulate.
\<close>

theorem forwarded_once:
  assumes "uuid_text_ok b"
    and "d = make_broadcast_request_object b rq cid payload \<or> d = make_publish_request_object b rq cid ch payload"
  shows "\<exists>r w'. kernel b d On_session i w = (Ok r, w') \<and>
    w_pending w' = w_pending w @
      client_deliveries w (filter (\<lambda>c. cl_id c \<noteq> cid \<and> cl_session_id c = st_id w) (get_clients w)) (text_of b d)"
  using assms(2) kernel_broadcast_peer [OF assms(1), of rq cid payload i w]
    kernel_publish_peer [OF assms(1), of rq cid ch payload i w]
  by (auto simp: other_clients_def)

theorem forwarded_once_witness:
  "\<exists>r w'. kernel sample_boost (make_broadcast_request_object sample_boost (sample_request On_client 30 ''x'') 30 [])
      On_session 20 sample_world = (Ok r, w') \<and>
    w_pending w' = [Client_on_send (sample_client 1 10 1) ''7'', Client_on_send (sample_client 2 11 1) ''7'']"
proof -
  have "client_deliveries sample_world (filter (\<lambda>c. cl_id c \<noteq> 30 \<and> cl_session_id c = st_id sample_world)
      (get_clients sample_world))
      (text_of sample_boost (make_broadcast_request_object sample_boost (sample_request On_client 30 ''x'') 30 [])) =
      [Client_on_send (sample_client 1 10 1) ''7'', Client_on_send (sample_client 2 11 1) ''7'']"
    "w_pending sample_world = []"
    by code_simp+
  with forwarded_once [OF sample_text_ok disjI1 [OF refl], of "sample_request On_client 30 ''x''" 30 "[]" 20 sample_world]
  show ?thesis by simp
qed

text \<open>
  C22. A client's \<^verbatim>\<open>send\<close> is routed by the receiver: an unknown one changes nothing, one of the
  node itself gets the message, one known through a session gets it through that session alone.
\<close>

theorem send_routes:
  assumes "addressed b data ''send'' tid p" and "map_of p ''payload'' = Some (JObject payload)"
    and "id_param b p ''to_client_id'' to"
  shows "\<exists>r w'. kernel b data On_client i w = (Ok r, w') \<and>
    (let m = text_of b (send_object b (random_uuid b (w_random w)) i to payload)
     in w_pending w' = w_pending w @
       (case get_client to w of
          None \<Rightarrow> []
        | Some c \<Rightarrow> if cl_session_id c = st_id w then client_deliveries w [c] m
                    else session_deliveries w (filter (\<lambda>s. ses_id s = cl_session_id c) (get_sessions w)) m)) \<and>
    map_of (get_data r) ''message'' = Some (JString (if get_client to w = None then ''no effect'' else ''ok''))"
proof -
  note k = kernel_addressed [OF assms(1), of On_client i w]
  have "cl_id c = to" if "get_client to w = Some c" for c
    using that by (auto simp: get_client_def dest: mi_find_Some)
  moreover have "w_random (kernel_entry b w) = w_random w" by simp
  ultimately show ?thesis
    unfolding k(1) dispatch_def
    by (cases "get_client to w")
      (simp_all add: send_on_client_eq [OF _ k(2) assms(2,3)] finish_ended send_object_to_client_eq
        send_to_session_eq Let_def get_data_def mark_as_processed_def ended_def set_data_def)
qed

theorem send_routes_witness:
  "\<exists>r w'. kernel sample_boost (sample_message ''send'') On_client 11 sample_world = (Ok r, w') \<and>
     w_pending w' = [Client_on_send (sample_client 1 10 1) ''100'']"
proof -
  have a: "addressed sample_boost (sample_message ''send'') ''send'' 7 sample_params"
    by (simp add: addressed_def) (simp add: sample_message_def)
  have d: "(case get_client 10 sample_world of
          None \<Rightarrow> []
        | Some c \<Rightarrow> if cl_session_id c = st_id sample_world
            then client_deliveries sample_world [c]
              (text_of sample_boost (send_object sample_boost (random_uuid sample_boost (w_random sample_world)) 11 10 []))
            else session_deliveries sample_world (filter (\<lambda>s. ses_id s = cl_session_id c) (get_sessions sample_world))
              (text_of sample_boost (send_object sample_boost (random_uuid sample_boost (w_random sample_world)) 11 10 []))) =
      [Client_on_send (sample_client 1 10 1) ''100'']" "w_pending sample_world = []"
    by code_simp+
  show ?thesis
    using send_routes [OF a sample_fields(2) sample_ids(3), of 11 sample_world]
    unfolding Let_def d by auto
qed





section \<open>Keeping nodes informed\<close>

text \<open>
  C25. What a node tells a peer that registers: unless the peer is registered already, the address of
  every other registered session, then its own clients, then their subscriptions, each with a
  fresh transaction identifier, in this order and nothing else.
\<close>

theorem sync_tells:
  assumes "session_open w s"
  shows "w_pending (sync b s registered w) = w_pending w @
    map (\<lambda>d. Session_on_send s (text_of b d))
      (stamped b (w_random w)
        ((if registered then []
          else map (session_notice b w)
                 (filter (\<lambda>x. ses_id x \<noteq> st_id w \<and> ses_id x \<noteq> ses_id s \<and> get_registered w x) (get_sessions w))) @
         map (join_notice b) (filter (\<lambda>c. cl_session_id c = st_id w) (st_clients w)) @
         map (subscribe_notice b) (filter (\<lambda>x. sub_session_id x = st_id w) (st_subscriptions w))))"
proof -
  have "concat (map (\<lambda>d. session_deliveries w [s] (text_of b d)) ds) = map (\<lambda>d. Session_on_send s (text_of b d)) ds" for ds
    using assms by (induction ds) (simp_all add: session_deliveries_def)
  moreover have "filter (reported w s) ss = filter (\<lambda>x. ses_id x \<noteq> st_id w \<and> ses_id x \<noteq> ses_id s \<and> get_registered w x) ss" for ss
    by (rule filter_cong) (simp_all add: reported_def get_id_def)
  ultimately show ?thesis
    by (simp add: sync_emits emit_def sync_notices_def local_clients_def local_subscriptions_def mi_equal_range_def)
qed

theorem sync_tells_witness:
  "w_pending (sync sample_boost sample_session True sample_world) =
     map (\<lambda>d. Session_on_send sample_session (text_of sample_boost d))
       (stamped sample_boost 0 [join_notice sample_boost (sample_client 1 10 1), join_notice sample_boost (sample_client 2 11 1)])"
proof -
  have o: "session_open sample_world sample_session" by code_simp
  show ?thesis
    using sync_tells [OF o, of sample_boost True]
    by (simp add: sample_world_def sample_client_def)
qed



text \<open>
  C27. When a client goes away, it leaves the registry and every open session is told; its
  subscriptions stay.
\<close>

theorem client_leaves:
  assumes "r = Read_closed \<or> r = Read_error"
  shows "\<exists>w'. client_on_read b c r w = (Ok (), w') \<and> get_client (cl_id c) w' = None \<and>
    (\<forall>i. i \<noteq> cl_id c \<longrightarrow> get_client i w' = get_client i w) \<and>
    w_pending w' = w_pending w @ session_deliveries w (get_sessions w)
      (text_of b (leave_object b (random_uuid b (w_random w)) (cl_id c))) \<and>
    st_subscriptions w' = st_subscriptions w"
proof -
  let ?u = "snd (remove_client (cl_id c) w)"
  have "session_open ?u = session_open w"
    by (simp add: fun_eq_iff remove_client_def Let_def session_open_def session_obj_of_def)
  then have frame: "get_sessions ?u = get_sessions w" "w_random ?u = w_random w" "w_pending ?u = w_pending w"
    "st_subscriptions ?u = st_subscriptions w" "session_deliveries ?u ss m = session_deliveries w ss m" for ss m
    by (simp_all add: remove_client_def Let_def get_sessions_def session_deliveries_def)
  have "client_on_read b c r w = (Ok (), snd (leave_to_sessions b (cl_id c) ?u))"
    using assms by (auto simp: client_on_read_def client_disconnected_def bind_eff_call)
  moreover have "get_client i (snd (leave_to_sessions b (cl_id c) ?u)) = (if i = cl_id c then None else get_client i w)" for i
    using fun_cong [OF get_client_remove [of "cl_id c" w], of i]
    by (simp add: leave_to_sessions_eq get_client_def)
  ultimately show ?thesis by (simp add: leave_to_sessions_eq frame)
qed

theorem client_leaves_witness:
  "\<exists>w'. client_on_read sample_boost (sample_client 1 10 1) Read_closed sample_world = (Ok (), w') \<and>
     get_client 10 w' = None \<and> w_pending w' = [Session_on_send sample_session ''100'']"
proof -
  have d: "session_deliveries sample_world (get_sessions sample_world)
      (text_of sample_boost (leave_object sample_boost (random_uuid sample_boost (w_random sample_world))
        10)) = [Session_on_send sample_session ''100'']"
    "w_pending sample_world = []" "cl_id (sample_client 1 10 1) = 10"
    by code_simp+
  show ?thesis
    using client_leaves [of Read_closed sample_boost "sample_client 1 10 1" sample_world] unfolding d(3) unfolding d by auto
qed

section \<open>The registry\<close>

text \<open>
  C28. The sessions and the clients of a node are two partial maps from identifiers: any sequence of
  additions and removals answers and ends as it would on the map.
\<close>

theorem registry_refines_maps:
  assumes "wf_world w" and "\<And>s. Add s \<in> set cs \<Longrightarrow> s \<in> set (w_live_sessions w)"
    and "\<And>c. Add c \<in> set ds \<Longrightarrow> cl_is_local c = (cl_session_id c = st_id w)"
  shows "fst (run_commands add_session remove_session cs w) =
           fst (run_commands (map_add_entry ses_id) map_remove_entry cs (\<lambda>i. get_session i w)) \<and>
         (\<lambda>i. get_session i (snd (run_commands add_session remove_session cs w))) =
           snd (run_commands (map_add_entry ses_id) map_remove_entry cs (\<lambda>i. get_session i w)) \<and>
         fst (run_commands add_client remove_client ds w) =
           fst (run_commands (map_add_entry cl_id) map_remove_entry ds (\<lambda>i. get_client i w)) \<and>
         (\<lambda>i. get_client i (snd (run_commands add_client remove_client ds w))) =
           snd (run_commands (map_add_entry cl_id) map_remove_entry ds (\<lambda>i. get_client i w))"
  using sessions_dir.commands_refine [of w cs] clients_dir.commands_refine [of w ds] assms wf_world_state
  by (simp add: live_admissible_def client_admissible_def)

theorem registry_refines_maps_witness:
  "fst (run_commands add_session remove_session [Remove 20, Add sample_session, Add sample_session] sample_world) =
     [True, True, False] \<and>
   fst (run_commands add_client remove_client [Add (sample_client 9 10 1), Remove 10, Add (sample_client 9 10 1)]
     sample_world) = [False, True, True]"
proof -
  have live: "s \<in> set (w_live_sessions sample_world)"
    if "Add s \<in> set [Remove 20, Add sample_session, Add sample_session :: (uuid, session) command]" for s
    using that by (simp add: sample_world_def)
  have local: "cl_is_local c = (cl_session_id c = st_id sample_world)"
    if "Add c \<in> set [Add (sample_client 9 10 1), Remove 10, Add (sample_client 9 10 1) :: (uuid, client) command]" for c
    using that by (auto simp: sample_world_def sample_client_def)
  have spec: "fst (run_commands (map_add_entry ses_id) map_remove_entry [Remove 20, Add sample_session, Add sample_session]
      (\<lambda>i. get_session i sample_world)) = [True, True, False]"
    "fst (run_commands (map_add_entry cl_id) map_remove_entry
      [Add (sample_client 9 10 1), Remove 10, Add (sample_client 9 10 1)] (\<lambda>i. get_client i sample_world)) =
      [False, True, True]"
    by (simp_all add: map_add_entry_def map_remove_entry_def get_session_def get_client_def sample_world_def
        sample_session_def sample_client_def mi_find_def mi_equal_range_def)
  note both = registry_refines_maps [OF sample_wf live local]
  show ?thesis
    using trans [OF conjunct1 [OF both] spec(1)]
      trans [OF conjunct1 [OF conjunct2 [OF conjunct2 [OF both]]] spec(2)] ..
qed

text \<open>
  C29. The subscriptions of a node are a set of triples: any sequence of subscribing and
  unsubscribing answers and ends as it would on the set.
\<close>

theorem subscriptions_refine_map:
  assumes "wf_state (w :: world)"
  shows "fst (run_commands subscribe_entry unsubscribe_entry cs w) =
           fst (run_commands (map_add_entry (\<lambda>x. x)) map_remove_entry cs (subscription_view w)) \<and>
         subscription_view (snd (run_commands subscribe_entry unsubscribe_entry cs w)) =
           snd (run_commands (map_add_entry (\<lambda>x. x)) map_remove_entry cs (subscription_view w))"
  using subscriptions_dir.commands_refine [of w cs] assms by simp

theorem subscriptions_refine_map_witness:
  "fst (run_commands subscribe_entry unsubscribe_entry
      [Add \<lparr>sub_session_id = 1, sub_client_id = 10, sub_channel = ''a''\<rparr>,
       Add \<lparr>sub_session_id = 1, sub_client_id = 10, sub_channel = ''a''\<rparr>,
       Remove \<lparr>sub_session_id = 1, sub_client_id = 10, sub_channel = ''a''\<rparr>] sample_world) = [True, False, True]"
proof -
  have spec: "fst (run_commands (map_add_entry (\<lambda>x. x)) map_remove_entry
      [Add \<lparr>sub_session_id = 1, sub_client_id = 10, sub_channel = ''a''\<rparr>,
       Add \<lparr>sub_session_id = 1, sub_client_id = 10, sub_channel = ''a''\<rparr>,
       Remove \<lparr>sub_session_id = 1, sub_client_id = 10, sub_channel = ''a''\<rparr>] (subscription_view sample_world)) =
      [True, False, True]"
    by (simp add: map_add_entry_def map_remove_entry_def subscription_view_def sample_world_def)
  show ?thesis by (rule trans [OF subscriptions_refine_map [OF wf_world_state [OF sample_wf], THEN conjunct1] spec])
qed

text \<open>
  C30. A client's message, whatever it is and however its handling ends, changes no session, no
  client, no configuration and no subscription but that client's own.
\<close>

theorem client_changes_only_itself:
  assumes "kernel b data On_client i w = (r, w')"
  shows "st_id w' = st_id w \<and> st_config w' = st_config w \<and> st_sessions w' = st_sessions w \<and>
    st_clients w' = st_clients w \<and>
    (\<forall>x. sub_session_id x \<noteq> st_id w \<or> sub_client_id x \<noteq> i \<longrightarrow>
       (x \<in> set (st_subscriptions w') \<longleftrightarrow> x \<in> set (st_subscriptions w)))"
proof -
  have "own_only (st_id w) i w w" by (simp add: own_only_def)
  from keepsD [OF client_kernel_own_only this, of b data] assms show ?thesis by (simp add: own_only_def)
qed

theorem client_changes_only_itself_witness:
  "st_clients (snd (kernel sample_boost (sample_message ''leave'') On_client 10 sample_world)) = st_clients sample_world"
  using client_changes_only_itself
    [OF prod.collapse [of "kernel sample_boost (sample_message ''leave'') On_client 10 sample_world", symmetric]]
  by simp

text \<open>
  C31. A peer's message, whatever it is and however its handling ends, drops no session, adds clients
  only under the session it came through and changes subscriptions only under that session. (It may
  remove any client: \<^verbatim>\<open>leave\<close> does not look at the session.)
\<close>

theorem peer_changes_only_its_own:
  assumes "kernel b data On_session i w = (r, w')"
  shows "st_id w' = st_id w \<and> st_config w' = st_config w \<and>
    (\<forall>k s. get_session k w = Some s \<longrightarrow> get_session k w' = Some s) \<and>
    (\<forall>c\<in>set (st_clients w'). c \<in> set (st_clients w) \<or> cl_session_id c = i) \<and>
    (\<forall>x. sub_session_id x \<noteq> i \<longrightarrow> (x \<in> set (st_subscriptions w') \<longleftrightarrow> x \<in> set (st_subscriptions w)))"
proof -
  have "peer_only i w w" by (simp add: peer_only_def)
  from keepsD [OF peer_kernel_only this, of b data] assms show ?thesis by (simp add: peer_only_def)
qed

theorem peer_changes_only_its_own_witness:
  "get_session 20 (snd (kernel sample_boost (sample_message ''join'') On_session 77 sample_world)) = Some sample_session"
proof -
  have "get_session 20 sample_world = Some sample_session" by (simp add: get_session_def sample_world_def)
  with peer_changes_only_its_own
    [OF prod.collapse [of "kernel sample_boost (sample_message ''join'') On_session 77 sample_world", symmetric]]
  show ?thesis by blast
qed

text \<open>
  C32. When a session is released, exactly the clients and subscriptions that came through it are
  forgotten.
\<close>

theorem release_forgets:
  assumes "wf_state w"
  shows "(\<forall>i c. (get_client i (destroy_session s w) = Some c) =
            (get_client i w = Some c \<and> cl_session_id c \<noteq> ses_id s)) \<and>
    (\<forall>x. (x \<in> set (st_subscriptions (destroy_session s w))) =
            (x \<in> set (st_subscriptions w) \<and> sub_session_id x \<noteq> ses_id s))"
proof -
  have "wf_state (destroy_session s w)"
    using wf_remove_state_of_session [OF assms, of "ses_id s"]
    by (simp add: destroy_session_def Let_def wf_state_def)
  moreover have "set (st_clients (destroy_session s w)) = {c \<in> set (st_clients w). cl_session_id c \<noteq> ses_id s}"
    "set (st_subscriptions (destroy_session s w)) = {x \<in> set (st_subscriptions w). sub_session_id x \<noteq> ses_id s}"
    by (simp_all add: destroy_session_def remove_state_of_session_def Let_def)
  ultimately show ?thesis using assms by (auto simp: get_client_iff)
qed

theorem release_forgets_witness:
  "get_client 30 (destroy_session sample_session sample_world) = None \<and>
   get_client 10 (destroy_session sample_session sample_world) = Some (sample_client 1 10 1)"
proof -
  have c: "get_client 30 sample_world = Some (sample_client 3 30 20)" "get_client 10 sample_world = Some (sample_client 1 10 1)"
    "cl_session_id (sample_client 3 30 20) = ses_id sample_session" "cl_session_id (sample_client 1 10 1) \<noteq> ses_id sample_session"
    by code_simp+
  note r = release_forgets [OF wf_world_state [OF sample_wf], of sample_session]
  from r c(1,3) have "get_client 30 (destroy_session sample_session sample_world) \<noteq> Some c" for c by auto
  moreover from r c(2,4) have "get_client 10 (destroy_session sample_session sample_world) = Some (sample_client 1 10 1)" by blast
  ultimately show ?thesis by (metis not_Some_eq)
qed

section \<open>Returning\<close>

text \<open>
  C33. If every peer eventually accepts a connection, a message without a fault is answered: the
  kernel returns.
\<close>

theorem kernel_terminates:
  assumes "peers_accept b" and "kernel_fault b data ctx i w = None"
  shows "\<exists>r w'. kernel b data ctx i w = (Ok r, w')"
  by (rule kernel_total [OF assms])

theorem kernel_terminates_witness:
  "\<exists>r w'. kernel sample_boost (sample_message ''session'') On_session 20 sample_world = (Ok r, w')"
proof (rule kernel_terminates)
  have "\<exists>n \<ge> k. connects sample_boost host service n" for host service k
    by (rule exI [of _ "k + 2"]) (simp add: sample_boost_def)
  then show "peers_accept sample_boost" by (simp add: peers_accept_def)
  have "session_found ''peer'' sp cp (kernel_entry sample_boost sample_world) = False" for sp cp
    by (simp add: session_found_iff get_host_def kernel_entry_def session_obj_of_def sample_world_def get_sessions_def)
  then have "resolve_fault sample_boost sample_params (kernel_entry sample_boost sample_world) = None"
    by (simp add: resolve_fault_def) (simp add: sample_boost_def)
  moreover have "session_complaint sample_boost rq sample_params = None" for rq
    by (simp add: session_complaint_def field_complaint_def)
  ultimately show "kernel_fault sample_boost (sample_message ''session'') On_session 20 sample_world = None"
    by (simp add: kernel_fault_def dispatch_fault_def session_fault_def with_params_def kernel_request_def
        number_fault_def sample_reads)
qed

text \<open>
  C34. A peer can take a thread of the node for ever: a valid \<^verbatim>\<open>session\<close> message whose host
  resolves and never accepts makes the kernel hang.
\<close>

theorem unreachable_peer_hangs:
  assumes "addressed b data ''session'' tid p" and "map_of p ''host'' = Some (JString host)"
    and "map_of p ''sessions_port'' = Some (JInt64 sp)" and "map_of p ''clients_port'' = Some (JInt64 cp)"
    and "\<not> session_found host sp cp w" and "resolve b host (decimal (unat sp))"
    and "\<And>n. \<not> connects b host (decimal (unat sp)) n"
  shows "fst (kernel b data On_session i w) = Hang"
proof -
  note k = kernel_addressed [OF assms(1), of On_session i w]
  have "connect_loop (connects b host (decimal (unat sp))) n = None" for n
    using assms(7) by (simp add: connect_loop_None)
  moreover have "\<not> session_found host sp cp (kernel_entry b w)"
    using assms(5) by (simp add: session_found_iff get_host_def get_sessions_port_def get_clients_port_def session_obj_of_def)
  ultimately show ?thesis
    unfolding k(1) dispatch_def
    by (simp add: session_handler_eq [OF _ k(2) assms(2-4)] assms(6) case_prod_beta Let_def finish_def)
qed

theorem unreachable_peer_hangs_witness:
  "fst (kernel (sample_boost\<lparr>connects := \<lambda>host service n. False\<rparr>) (sample_message ''session'') On_session 20 sample_world) = Hang"
proof (rule unreachable_peer_hangs [OF _ sample_fields(4,5,6)])
  have "id_param (sample_boost\<lparr>connects := c\<rparr>) data f u = id_param sample_boost data f u" for c data f u
    by (simp add: id_param_def is_uuid_def sample_boost_def split: option.splits json.splits)
  then show "addressed (sample_boost\<lparr>connects := \<lambda>host service n. False\<rparr>) (sample_message ''session'') ''session'' 7 sample_params"
    by (simp add: addressed_def) (simp add: sample_message_def)
  show "\<not> session_found ''peer'' 65537 12 sample_world" by code_simp
qed (simp_all add: sample_boost_def)

section \<open>Validation\<close>

text \<open>
  Each of the seven parameter validators is its list of checks: it throws when the message has no
  \<^verbatim>\<open>params\<close> object, otherwise accepts without an effect or refuses with the first complaint
  of the list, written into the response.
\<close>

theorem validators_decide:
  "broadcast_validator b rq w = decided broadcast_complaint b rq w \<and>
   is_subscribed_validator b rq w = decided is_subscribed_complaint b rq w \<and>
   publish_validator b rq w = decided publish_complaint b rq w \<and>
   register_validator b rq w = decided register_complaint b rq w \<and>
   send_validator b rq w = decided send_complaint b rq w \<and>
   session_validator b rq w = decided session_complaint b rq w \<and>
   subscriptions_validator b rq w = decided subscriptions_complaint b rq w"
  by (simp add: broadcast_v.validate_decided is_subscribed_v.validate_decided publish_v.validate_decided
      register_v.validate_decided send_v.validate_decided session_v.validate_decided
      subscriptions_v.validate_decided)

section \<open>Peers\<close>

text \<open>
  C35. A \<^verbatim>\<open>register\<close> message stores the ports modulo 65536 and marks the session as registered;
  the registry itself is unchanged.
\<close>

theorem register_stores_ports:
  assumes "addressed b data ''register'' tid p" and "map_of p ''sessions_port'' = Some (JInt64 sp)"
    and "map_of p ''clients_port'' = Some (JInt64 cp)" and "map_of p ''registered'' = Some (JBool registered)"
    and "get_session i w = Some s"
  shows "\<exists>r w'. kernel b data On_session i w = (Ok r, w') \<and>
    unat (get_sessions_port w' s) = unat sp mod 65536 \<and> unat (get_clients_port w' s) = unat cp mod 65536 \<and>
    get_registered w' s \<and> state.truncate w' = state.truncate w"
proof -
  obtain r w' where k: "kernel b data On_session i w = (Ok r, w')" "state.truncate w' = state.truncate w"
    "w_session_objs w' = w_session_objs (registered_view s sp cp w)"
    using kernel_register [OF assms] by blast
  then have "session_obj_of w' s = session_obj_of (registered_view s sp cp w) s" by (simp add: session_obj_of_def)
  moreover have "unat (ucast x :: 16 word) = unat x mod 65536" for x :: "64 word"
    by (simp add: unsigned_ucast_eq take_bit_eq_mod)
  ultimately show ?thesis
    using k(1,2) by (simp add: registered_view_obj get_sessions_port_def get_clients_port_def get_registered_def)
qed

theorem register_stores_ports_witness:
  "\<exists>r w'. kernel sample_boost (sample_message ''register'') On_session 20 sample_world = (Ok r, w') \<and>
     unat (get_sessions_port w' sample_session) = 1 \<and> get_registered w' sample_session"
proof -
  have a: "addressed sample_boost (sample_message ''register'') ''register'' 7 sample_params"
    by (simp add: addressed_def) (simp add: sample_message_def)
  have f: "get_session 20 sample_world = Some sample_session" by (simp add: get_session_def sample_world_def)
  have n: "unat (65537 :: 64 word) mod 65536 = 1" by simp
  show ?thesis using register_stores_ports [OF a sample_fields(5,6,3) f] unfolding n by blast
qed

text \<open>
  C36. A \<^verbatim>\<open>session\<close> message about an unknown node makes the node connect to it: when the
  connection is open, one new session, under the next identifier, with the ports modulo 65536, has
  its handshake started. About a node already known it changes nothing.
\<close>

theorem session_message_connects:
  assumes "addressed b data ''session'' tid p" and "map_of p ''host'' = Some (JString host)"
    and "map_of p ''sessions_port'' = Some (JInt64 sp)" and "map_of p ''clients_port'' = Some (JInt64 cp)"
    and "resolve b host (decimal (unat sp))" and "connects b host (decimal (unat sp)) (w_attempts w)"
    and "get_session (random_uuid b (w_random w)) w = None"
  shows "\<exists>r w'. kernel b data On_session i w = (Ok r, w') \<and>
    (if session_found host sp cp w then st_sessions w' = st_sessions w \<and> w_pending w' = w_pending w
     else
       let s = \<lparr>ses_addr = w_next_addr w, ses_id = random_uuid b (w_random w)\<rparr>
       in (\<lambda>k. get_session k w') = (\<lambda>k. get_session k w)(ses_id s \<mapsto> s) \<and>
          w_pending w' = w_pending w @ [Session_on_run s Remote] \<and>
          get_sessions_port w' s = ucast sp \<and> get_clients_port w' s = ucast cp)"
proof -
  note k = kernel_addressed [OF assms(1), of On_session i w]
  let ?e = "kernel_entry b w" and ?rq = "kernel_request b data On_session i tid w"
  have found: "session_found host sp cp ?e = session_found host sp cp w"
    by (simp add: session_found_iff get_host_def get_sessions_port_def get_clients_port_def session_obj_of_def)
  show ?thesis
  proof (cases "session_found host sp cp w")
    case True
    then show ?thesis
      unfolding k(1) dispatch_def
      by (simp add: session_handler_eq [OF _ k(2) assms(2-4)] found finish_ended)
  next
    case False
    let ?s = "\<lparr>ses_addr = w_next_addr w, ses_id = random_uuid b (w_random w)\<rparr>"
    let ?m = "snd (make_session b ?e)"
    let ?v = "session_run ?s Remote (set_sessions_port ?s (ucast sp) (set_clients_port ?s (ucast cp)
        (?m\<lparr>w_attempts := Suc (w_attempts w)\<rparr>)))"
    let ?t = "ended (next_reply b ?rq ''ok'' [] (snd (add_session ?s ?v)))"
    have s: "fst (make_session b ?e) = ?s" and attempts: "w_attempts ?m = w_attempts w"
      by (simp_all add: make_session_def new_session_def draw_uuid_def kernel_entry_def Let_def)
    have "connect_loop (connects b host (decimal (unat sp))) (w_attempts w) = Some (Suc (w_attempts w))"
      using assms(6) by (subst connect_loop.simps) simp
    then have run: "kernel b data On_session i w = (Ok (w_response ?t), ?t)"
      unfolding k(1) dispatch_def
      using False assms(5)
      by (simp add: session_handler_eq [OF _ k(2) assms(2-4)] found finish_ended case_prod_beta Let_def s attempts)
    have sessions: "st_sessions ?v = st_sessions w" "w_pending ?v = w_pending w @ [Session_on_run ?s Remote]"
      "session_obj_of ?v ?s = \<lparr>so_sessions_port = ucast sp, so_clients_port = ucast cp, so_host = '''',
         so_registered = False, so_open = False, so_queue = []\<rparr>"
      by (simp_all add: session_run_def initiate_def set_sessions_port_def set_clients_port_def update_session_def
          session_obj_of_def make_session_def new_session_def draw_uuid_def kernel_entry_def Let_def)
    have view: "get_session k ?v = get_session k w" for k by (simp only: get_session_def sessions(1))
    have "(\<lambda>k. get_session k ?t) = (\<lambda>k. get_session k (snd (add_session ?s ?v)))"
      by (simp add: get_session_def)
    also have "\<dots> = (\<lambda>k. get_session k w)(ses_id ?s \<mapsto> ?s)"
      unfolding get_session_add view using assms(7) by simp
    finally have map: "(\<lambda>k. get_session k ?t) = (\<lambda>k. get_session k w)(ses_id ?s \<mapsto> ?s)" .
    have "w_pending ?t = w_pending w @ [Session_on_run ?s Remote]" "session_obj_of ?t ?s = session_obj_of ?v ?s"
      by (simp_all add: add_session_def case_prod_beta sessions(2) session_obj_of_def)
    with run map sessions(3) False show ?thesis
      by (simp add: Let_def get_sessions_port_def get_clients_port_def)
  qed
qed

theorem session_message_connects_witness:
  "\<exists>r w'. kernel sample_boost (sample_message ''session'') On_session 20 (sample_world\<lparr>w_attempts := 2\<rparr>) = (Ok r, w') \<and>
     w_pending w' = [Session_on_run \<lparr>ses_addr = 4, ses_id = 100\<rparr> Remote]"
proof -
  have a: "addressed sample_boost (sample_message ''session'') ''session'' 7 sample_params"
    by (simp add: addressed_def) (simp add: sample_message_def)
  have f: "session_found ''peer'' 65537 12 (sample_world\<lparr>w_attempts := 2\<rparr>) = False"
    "resolve sample_boost ''peer'' (decimal (unat (65537 :: 64 word))) = True"
    "connects sample_boost ''peer'' (decimal (unat (65537 :: 64 word))) (w_attempts (sample_world\<lparr>w_attempts := 2\<rparr>)) = True"
    "get_session (random_uuid sample_boost (w_random (sample_world\<lparr>w_attempts := 2\<rparr>))) (sample_world\<lparr>w_attempts := 2\<rparr>) = None"
    "w_next_addr (sample_world\<lparr>w_attempts := 2\<rparr>) = 4" "w_pending (sample_world\<lparr>w_attempts := 2\<rparr>) = []"
    "random_uuid sample_boost (w_random (sample_world\<lparr>w_attempts := 2\<rparr>)) = 100"
    by (simp_all add: session_found_iff get_host_def session_obj_of_def get_sessions_def get_session_def sample_world_def
        sample_boost_def)
  have g: "get_session 100 (sample_world\<lparr>w_attempts := 2\<rparr>) = None" using f(4) unfolding f(7) .
  note r = session_message_connects [OF a sample_fields(4,5,6), of "sample_world\<lparr>w_attempts := 2\<rparr>" 20,
      unfolded f if_False Let_def append_Nil, OF TrueI TrueI g]
  show ?thesis using r by blast
qed

section \<open>Between nodes\<close>



section \<open>Progress\<close>

text \<open>
  Nothing stays queued for ever on a healthy connection: from any reachable world in which the
  queue of a session, or of a client whose socket is open, is being written, successful writes empty
  it, in its order.
\<close>

theorem queues_drain:
  assumes "reaches b config es w"
  shows "(s \<in> set (w_live_sessions w) \<and> flowing (session_queue s w) (session_writes (ses_addr s) (w_pending w)) \<longrightarrow>
      (\<exists>w'. reaches b config (es @ map (Session_sent s) (session_queue s w)) w' \<and> session_queue s w' = [])) \<and>
    (client_open w c \<and> flowing (client_queue c w) (client_writes (cl_addr c) (w_pending w)) \<longrightarrow>
      (\<exists>fs w'. reaches b config (es @ fs) w' \<and> sent_client (cl_addr c) fs = client_queue c w \<and>
         client_queue c w' = []))"
proof (intro conjI impI; elim conjE)
  note ok = reaches_ok [OF assms]
  show "\<exists>w'. reaches b config (es @ map (Session_sent s) (session_queue s w)) w' \<and> session_queue s w' = []"
    if "s \<in> set (w_live_sessions w)" "flowing (session_queue s w) (session_writes (ses_addr s) (w_pending w))"
    using session_drains [OF ok that refl, of b] reaches_append [OF assms] by blast
  show "\<exists>fs w'. reaches b config (es @ fs) w' \<and> sent_client (cl_addr c) fs = client_queue c w \<and> client_queue c w' = []"
    if "client_open w c" "flowing (client_queue c w) (client_writes (cl_addr c) (w_pending w))"
    using client_drains [OF ok that refl, of b] reaches_append [OF assms] by blast
qed

theorem queues_drain_witness:
  "\<exists>fs w'. reaches sample_boost default_config ([Client_accepted run_client, Internal, Client_queued run_client ''103''] @ fs) w' \<and>
     sent_client 0 fs = [''103'']"
proof -
  have f: "client_open run3 run_client" "client_queue run_client run3 = [''103'']" "cl_addr run_client = 0"
    by code_simp+
  then have "client_open run3 run_client \<and>
      flowing (client_queue run_client run3) (client_writes (cl_addr run_client) (w_pending run3))"
    by (simp add: run_pending flowing_def)
  from mp [OF conjunct2 [OF queues_drain [OF run_reaches(2), where c = run_client]] this] show ?thesis
    unfolding f by blast
qed



text \<open>
  A peer whose text has no fault is answered in the same way, except that an acknowledgement is
  answered with silence.
\<close>

theorem session_answered:
  assumes "reaches b config es w" and "w_pending w = xs @ Session_read s # ys" and "peers_accept b"
    and "message_fault b text On_session (ses_id s) (without xs ys w) = None"
  shows "\<exists>u zs. node_step b w (Session_got s text) (Running u) \<and>
    (case json_parse b text of
       Some (JObject data) \<Rightarrow>
         \<exists>r. well_answered b data r \<and> w_pending u = xs @ ys @ zs @
           (if is_ack r then [] else session_deliveries u [s] (serialize b (JObject (get_data r)))) @ [Session_read s]
     | _ \<Rightarrow>
         \<exists>now read_at. w_pending u = xs @ ys @ zs @
           session_deliveries u [s] (serialize b (JObject (unprocessable_object now read_at))) @ [Session_read s])"
proof -
  obtain u zs result m where t: "node_step b w (Session_got s text) (Running u)" "reply_text b text result m"
    "w_pending u = xs @ ys @ zs @ (if acknowledges result then [] else session_deliveries u [s] m) @ [Session_read s]"
    using node_session_turn [OF reaches_ok [OF assms(1)] assms(2-4)] by blast
  from t(2,3) show ?thesis
    by (intro exI [of _ u] exI [of _ zs] conjI t(1))
      (auto simp: reply_text_def acknowledges_def split: option.splits json.splits)
qed

theorem session_answered_witness:
  "\<exists>u. node_step sample_boost callee3 (Session_got link_session ''noise'') (Running u) \<and>
     last (w_pending u) = Session_read link_session"
proof -
  have "\<exists>n \<ge> k. connects sample_boost host service n" for host service k
    by (rule exI [of _ "k + 2"]) (simp add: sample_boost_def)
  then have p: "peers_accept sample_boost" by (simp add: peers_accept_def)
  have r: "w_pending callee3 = [Listener_accept_client, Repl_read, Listener_accept_session] @ Session_read link_session # []"
    by (simp add: callee_pending)
  have parse: "json_parse sample_boost ''noise'' = None" by (simp add: sample_boost_def sample_parse_def)
  then have "message_fault sample_boost ''noise'' On_session (ses_id link_session)
      (without [Listener_accept_client, Repl_read, Listener_accept_session] [] callee3) = None"
    by (simp add: message_fault_def)
  from session_answered [OF callee_reaches r p this] show ?thesis by (auto simp: parse)
qed

section \<open>Connecting\<close>

text \<open>
  When a client connects, it is registered under a new identifier as one of the node's own, every
  open session is told that it joined, its handshake is started with nothing sent to it before, and
  the listener goes on accepting.
\<close>

theorem client_connects:
  assumes "get_client (random_uuid b (w_random w)) w = None"
  shows "\<exists>w' c. client_listener_on_accept b False w = (Ok (), w') \<and>
    c = \<lparr>cl_addr = w_next_addr w, cl_id = random_uuid b (w_random w), cl_session_id = st_id w, cl_is_local = True\<rparr> \<and>
    (\<lambda>i. get_client i w') = (\<lambda>i. get_client i w)(cl_id c \<mapsto> c) \<and> \<not> client_open w' c \<and>
    w_pending w' = w_pending w @ session_deliveries w (get_sessions w)
        (text_of b (join_object b (random_uuid b (Suc (w_random w))) (cl_id c))) @
      [Client_accept c (clock_now b (w_clock w)), Listener_accept_client]"
  using client_listener_accepts [OF assms] unfolding accepted_client_def [symmetric] by auto

theorem client_connects_witness:
  "\<exists>w' c. client_listener_on_accept sample_boost False sample_world = (Ok (), w') \<and> get_client 100 w' = Some c \<and>
     w_pending w' = [Session_on_send sample_session ''101'', Client_accept c 0, Listener_accept_client]"
proof -
  have f: "get_client (random_uuid sample_boost (w_random sample_world)) sample_world = None"
    "session_deliveries sample_world (get_sessions sample_world)
      (text_of sample_boost (join_object sample_boost (random_uuid sample_boost (Suc (w_random sample_world))) 100)) =
      [Session_on_send sample_session ''101'']"
    "random_uuid sample_boost (w_random sample_world) = 100" "clock_now sample_boost (w_clock sample_world) = 0"
    "w_pending sample_world = []"
    by code_simp+
  obtain w' and c :: client where w': "client_listener_on_accept sample_boost False sample_world = (Ok (), w')"
      "cl_id c = 100"
      "(\<lambda>i. get_client i w') = (\<lambda>i. get_client i sample_world)(cl_id c \<mapsto> c)"
      "w_pending w' = session_deliveries sample_world (get_sessions sample_world)
        (text_of sample_boost (join_object sample_boost (random_uuid sample_boost (Suc (w_random sample_world))) (cl_id c))) @
        [Client_accept c 0, Listener_accept_client]"
    using client_connects [OF f(1), unfolded f(3-5)] by force
  from fun_cong [OF w'(3), of 100] w'(2) have "get_client 100 w' = Some c" by simp
  with w'(1,4) show ?thesis unfolding w'(2) f(2) by auto
qed

text \<open>
  A completed handshake is answered with the client's identifier and reading starts; a failed one
  takes the client out of the registry again and every open session is told.
\<close>

theorem client_handshake:
  assumes "client_live w c"
  shows "client_on_accept b c run_at False w = (Ok (), post (client_deliveries w [c]
        (text_of b (welcome_object b (random_uuid b (w_random w)) (clock_now b (w_clock w)) run_at (cl_id c))) @
        [Client_read c]) (snd (draw_uuid b (snd (read_clock b w))))) \<and>
    (\<exists>w'. client_on_accept b c run_at True w = (Ok (), w') \<and> get_client (cl_id c) w' = None \<and>
      w_pending w' = w_pending w @ session_deliveries w (get_sessions w)
        (text_of b (leave_object b (random_uuid b (w_random w)) (cl_id c))))"
  using client_welcomed [OF assms] client_refused by blast

theorem client_handshake_witness:
  "\<exists>w'. client_on_accept sample_boost (sample_client 1 10 1) 0 True sample_world = (Ok (), w') \<and>
     get_client 10 w' = None"
proof -
  have l: "client_live sample_world (sample_client 1 10 1)" "cl_id (sample_client 1 10 1) = 10"
    by (simp_all add: client_live_def has_socket_def sample_world_def sample_client_def)
  from client_handshake [OF l(1)] l(2) show ?thesis by fastforce
qed

text \<open>
  C39. When a peer's handshake completes, the node that connected sends its ports; the other node,
  reading that text, stores exactly these ports and counts the peer as registered.
\<close>

theorem peers_register:
  assumes "uuid_text_ok b" and "get_session (ses_id t) v = Some t"
    and "json_parse b (text_of b (register_object b (random_uuid b (w_random w)) (st_config w))) =
      Some (as_parsed (JObject (register_object b (random_uuid b (w_random w)) (st_config w))))"
  shows "(\<exists>u. session_on_accept b s Remote False (Some host) w = (Ok (), u) \<and>
      w_pending u = w_pending w @ session_deliveries w [s]
        (text_of b (register_object b (random_uuid b (w_random w)) (st_config w))) @ [Session_read s] \<and>
      cfg_registered (st_config u)) \<and>
    (\<exists>u. session_on_read b t (Read_text (text_of b (register_object b (random_uuid b (w_random w)) (st_config w)))) v =
        (Ok (), u) \<and>
      get_sessions_port u t = cfg_sessions_port (st_config w) \<and>
      get_clients_port u t = cfg_clients_port (st_config w) \<and> get_registered u t)"
  using session_registers register_received [OF assms] by blast

theorem peers_register_witness:
  "\<exists>b u m. session_on_read b sample_session (Read_text m) sample_world = (Ok (), u) \<and>
     get_sessions_port u sample_session = 11000 \<and> get_registered u sample_session"
proof -
  let ?d = "JObject (register_object sample_boost 100 (st_config sample_world))"
  let ?b = "sample_boost\<lparr>json_parse := \<lambda>text. Some (as_parsed ?d)\<rparr>"
  have t: "uuid_text_ok ?b" using sample_text_ok by (simp add: uuid_text_ok_def)
  have s: "get_session (ses_id sample_session) sample_world = Some sample_session"
    by (simp add: get_session_def sample_world_def sample_session_def)
  have r: "random_uuid ?b (w_random sample_world) = 100" by (simp add: sample_boost_def sample_world_def)
  have o: "register_object ?b = register_object sample_boost" by (simp add: fun_eq_iff register_object_def)
  have p: "cfg_sessions_port (st_config sample_world) = 11000" by (simp add: sample_world_def default_config_def)
  have j: "json_parse ?b m = Some (as_parsed ?d)" for m by simp
  have q: "json_parse ?b (text_of ?b (register_object ?b (random_uuid ?b (w_random sample_world)) (st_config sample_world))) =
      Some (as_parsed (JObject (register_object ?b (random_uuid ?b (w_random sample_world)) (st_config sample_world))))"
    unfolding r o by (rule j)
  from peers_register [OF t s q] show ?thesis unfolding p by blast
qed

section \<open>The process\<close>

text \<open>
  C40. How a process starts is decided by its options and the network: it ends at once on options that
  cannot be read, on an address that is none, on a remote name that does not resolve and on zero
  threads; it hangs if it is to join a node that never accepts; else the options' number of threads
  runs the event loop.
\<close>

theorem startup_decides:
  "fst (main_program b parsed) =
     (case parsed of
        None \<Rightarrow> Throw Bad_option
      | Some opts \<Rightarrow>
          if \<not> make_address b (opt_address opts) then Throw Bad_address
          else if opt_is_node opts \<and> \<not> resolve b (opt_remote_address opts) (decimal (unat (opt_remote_sessions_port opts)))
          then Throw Resolve_failure
          else if opt_is_node opts \<and> \<not> (\<exists>n. connects b (opt_remote_address opts) (decimal (unat (opt_remote_sessions_port opts))) n)
          then Hang
          else if opt_threads opts = 0 then Throw Length_error
          else Ok (unat (opt_threads opts)))"
  unfolding main_outcome startup_outcome_def remote_service_def connect_loop_None by (cases parsed) auto

text \<open>
  A process that started has an empty registry but for the session to the configured remote node,
  serves the ports its acceptors are bound to, and waits for peers, clients and the console, after
  the handshake with the remote node.
\<close>

theorem startup_world:
  assumes "main_program b (Some opts) = (Ok n, Some w)"
  shows "st_clients w = [] \<and> st_subscriptions w = [] \<and>
    (\<lambda>i. get_session i w) =
      (if opt_is_node opts then [random_uuid b 1 \<mapsto> \<lparr>ses_addr = 0, ses_id = random_uuid b 1\<rparr>] else Map.empty) \<and>
    cfg_sessions_port (st_config w) = bound_port b (opt_address opts) (opt_sessions_port opts) \<and>
    cfg_clients_port (st_config w) = bound_port b (opt_address opts) (opt_clients_port opts) \<and>
    w_pending w = (if opt_is_node opts then [Session_on_run \<lparr>ses_addr = 0, ses_id = random_uuid b 1\<rparr> Remote] else []) @
      [Listener_accept_session, Listener_accept_client, Repl_read]"
  using main_world [OF assms] by (auto simp: started_config_def remote_session_def get_session_def fun_eq_iff)

theorem startup_world_witness:
  "\<exists>w. main_program sample_boost (Some default_options) = (Ok 4, Some w) \<and> cfg_clients_port (st_config w) = 12000 \<and>
     w_pending w = [Listener_accept_session, Listener_accept_client, Repl_read]"
proof -
  have "fst (main_program sample_boost (Some default_options)) = Ok 4"
    by (simp add: main_outcome startup_outcome_def default_options_def sample_boost_def)
  then obtain w where w: "main_program sample_boost (Some default_options) = (Ok 4, Some w)"
    by (cases "main_program sample_boost (Some default_options)") (auto simp: main_program_def case_prod_beta Let_def)
  have "opt_is_node default_options = False" "bound_port sample_boost (opt_address default_options)
      (opt_clients_port default_options) = 12000"
    by (simp_all add: default_options_def bound_port_def sample_boost_def)
  with startup_world [OF w] w show ?thesis by simp
qed

end
